(* ===== verification/Rdb_Prelude.thy ===== *)
theory Rdb_Prelude
  imports Main "HOL-Library.AList" "HOL-Library.Word" "HOL-Library.Char_ord"
    "HOL-Library.List_Lexorder"
begin

text \<open>
  What the components of the development share: the result type of fallible code and the
  loops over it, strings and their ASCII case folding, decimal and hexadecimal printing,
  saturating counters, searches in vectors, and finite maps kept as association lists.
\<close>

named_theorems rdb_defs \<open>unfolding rules for small helper definitions\<close>
named_theorems rdb_inv \<open>preservation lemmas for component invariants\<close>

section \<open>Results\<close>

text \<open>
  A Rust function of type \<open>Result<T, String>\<close> returns \<open>Inr\<close> of the value or
  \<open>Inl (Fail msg)\<close>. A panic (an index out of bounds, an arithmetic trap) is
  \<open>Inl (Panic why)\<close>, so that no panic is confused with a returned error.
\<close>

datatype error = Fail string | Panic string

type_synonym 'a res = "error + 'a"

definition rbind :: "'a res \<Rightarrow> ('a \<Rightarrow> 'b res) \<Rightarrow> 'b res" where
  "rbind m f = (case m of Inl e \<Rightarrow> Inl e | Inr x \<Rightarrow> f x)"

lemma rbind_simps [simp]:
  "rbind (Inl e) f = Inl e"
  "rbind (Inr x) f = f x"
  by (simp_all add: rbind_def)

lemma rbind_Inr_iff: "rbind m f = Inr y \<longleftrightarrow> (\<exists>x. m = Inr x \<and> f x = Inr y)"
  by (cases m) simp_all

lemma rbind_cong [fundef_cong]:
  "m = m' \<Longrightarrow> (\<And>x. m' = Inr x \<Longrightarrow> f x = f' x) \<Longrightarrow> rbind m f = rbind m' f'"
  by (cases m') simp_all

lemma rbind_Inr_right [simp]: "rbind m Inr = m"
  by (cases m) simp_all

lemma rbind_assoc: "rbind (rbind m f) g = rbind m (\<lambda>x. rbind (f x) g)"
  by (cases m) simp_all

definition ok_or :: "'a option \<Rightarrow> string \<Rightarrow> 'a res" where
  "ok_or x msg = (case x of None \<Rightarrow> Inl (Fail msg) | Some v \<Rightarrow> Inr v)"

lemma ok_or_simps [simp]:
  "ok_or None msg = Inl (Fail msg)"
  "ok_or (Some v) msg = Inr v"
  by (simp_all add: ok_or_def)

text \<open>
  \<open>res_map\<close> is \<open>iter().map(f).collect::<Result<Vec<_>, _>>()\<close>: it stops at the
  first error. \<open>res_fold\<close> is a \<open>for\<close> loop whose body updates a state and may
  return early, \<open>res_all\<close> one whose body only checks.
\<close>

fun res_map :: "('a \<Rightarrow> 'b res) \<Rightarrow> 'a list \<Rightarrow> 'b list res" where
  "res_map f [] = Inr []"
| "res_map f (x # xs) = rbind (f x) (\<lambda>y. rbind (res_map f xs) (\<lambda>ys. Inr (y # ys)))"

fun res_fold :: "('s \<Rightarrow> 'a \<Rightarrow> 's res) \<Rightarrow> 's \<Rightarrow> 'a list \<Rightarrow> 's res" where
  "res_fold f s [] = Inr s"
| "res_fold f s (x # xs) = rbind (f s x) (\<lambda>s'. res_fold f s' xs)"

definition res_all :: "('a \<Rightarrow> unit res) \<Rightarrow> 'a list \<Rightarrow> unit res" where
  "res_all f xs = res_fold (\<lambda>_. f) () xs"

lemma res_map_cong [fundef_cong]:
  "xs = ys \<Longrightarrow> (\<And>x. x \<in> set ys \<Longrightarrow> f x = g x) \<Longrightarrow> res_map f xs = res_map g ys"
  by (induction ys arbitrary: xs) auto

lemma res_fold_cong [fundef_cong]:
  "s = t \<Longrightarrow> xs = ys \<Longrightarrow> (\<And>s x. x \<in> set ys \<Longrightarrow> f s x = g s x) \<Longrightarrow>
   res_fold f s xs = res_fold g t ys"
proof (induction ys arbitrary: xs s t)
  case (Cons y ys)
  then have "\<And>s. f s y = g s y" and "\<And>s. res_fold f s ys = res_fold g s ys"
    by auto
  with Cons.prems show ?case by simp
qed simp

lemma res_all_cong [fundef_cong]:
  "xs = ys \<Longrightarrow> (\<And>x. x \<in> set ys \<Longrightarrow> f x = g x) \<Longrightarrow> res_all f xs = res_all g ys"
  unfolding res_all_def by (rule res_fold_cong) auto

lemma res_all_simps [simp]:
  "res_all f [] = Inr ()"
  "res_all f (x # xs) = rbind (f x) (\<lambda>_. res_all f xs)"
  by (simp_all add: res_all_def)

lemma res_all_Inr_iff: "res_all f xs = Inr () \<longleftrightarrow> (\<forall>x \<in> set xs. f x = Inr ())"
  by (induction xs) (auto simp: rbind_Inr_iff)

lemma res_map_Inr_iff:
  "res_map f xs = Inr ys \<longleftrightarrow> list_all2 (\<lambda>x y. f x = Inr y) xs ys"
proof (induction xs arbitrary: ys)
  case (Cons x xs)
  then show ?case by (cases ys) (auto simp: rbind_Inr_iff)
qed auto

lemma res_map_length: "res_map f xs = Inr ys \<Longrightarrow> length ys = length xs"
  by (auto simp: res_map_Inr_iff dest: list_all2_lengthD)

lemma res_map_Inr_map: "res_map (\<lambda>x. Inr (f x)) xs = Inr (map f xs)"
  by (induction xs) auto

lemma res_fold_append: "res_fold f s (xs @ ys) = rbind (res_fold f s xs) (\<lambda>t. res_fold f t ys)"
  by (induction xs arbitrary: s) (simp_all add: rbind_assoc)

text \<open>An invariant that every step keeps holds after the loop.\<close>

lemma res_fold_invariant:
  assumes "res_fold f s xs = Inr t" and "I s"
    and "\<And>s x s'. x \<in> set xs \<Longrightarrow> I s \<Longrightarrow> f s x = Inr s' \<Longrightarrow> I s'"
  shows "I t"
  using assms
proof (induction xs arbitrary: s)
  case (Cons x xs)
  from Cons.prems(1) obtain s' where s': "f s x = Inr s'" and rest: "res_fold f s' xs = Inr t"
    by (auto simp: rbind_Inr_iff)
  from s' Cons.prems have "I s'" by auto
  with rest Cons show ?case by auto
qed simp

section \<open>Strings\<close>

text \<open>
  A Rust string is a list of \<open>char\<close>, one per byte. The operations below that look at
  letters are the ASCII ones (\<open>to_ascii_lowercase\<close>, \<open>eq_ignore_ascii_case\<close>), which
  leave every byte from 128 on alone.
\<close>

definition char_lower :: "char \<Rightarrow> char" where
  "char_lower c = (let n = of_char c :: nat in
     if 65 \<le> n \<and> n \<le> 90 then char_of (n + 32) else c)"

definition to_ascii_lowercase :: "string \<Rightarrow> string" where
  "to_ascii_lowercase s = map char_lower s"

definition eq_ignore_ascii_case :: "string \<Rightarrow> string \<Rightarrow> bool" where
  "eq_ignore_ascii_case s t \<longleftrightarrow> to_ascii_lowercase s = to_ascii_lowercase t"

lemma char_lower_idem [simp]: "char_lower (char_lower c) = char_lower c"
proof (cases "65 \<le> (of_char c :: nat) \<and> (of_char c :: nat) \<le> 90")
  case True
  then have "(of_char (char_of (of_char c + 32 :: nat) :: char) :: nat) = of_char c + 32"
    by simp
  with True show ?thesis by (simp add: char_lower_def Let_def)
next
  case False
  then show ?thesis by (auto simp: char_lower_def Let_def)
qed

lemma to_ascii_lowercase_idem [simp]:
  "to_ascii_lowercase (to_ascii_lowercase s) = to_ascii_lowercase s"
  by (simp add: to_ascii_lowercase_def)

lemma length_to_ascii_lowercase [simp]: "length (to_ascii_lowercase s) = length s"
  by (simp add: to_ascii_lowercase_def)

lemma eq_ignore_ascii_case_refl [simp]: "eq_ignore_ascii_case s s"
  by (simp add: eq_ignore_ascii_case_def)

lemma eq_ignore_ascii_case_sym: "eq_ignore_ascii_case s t \<longleftrightarrow> eq_ignore_ascii_case t s"
  by (auto simp: eq_ignore_ascii_case_def)

lemma eq_ignore_ascii_case_trans:
  "eq_ignore_ascii_case s t \<Longrightarrow> eq_ignore_ascii_case t u \<Longrightarrow> eq_ignore_ascii_case s u"
  by (simp add: eq_ignore_ascii_case_def)

definition quoted :: "string \<Rightarrow> string" where
  "quoted s = CHR 0x27 # s @ [CHR 0x27]"

fun join_with :: "string \<Rightarrow> string list \<Rightarrow> string" where
  "join_with sep [] = []"
| "join_with sep [s] = s"
| "join_with sep (s # t # ss) = s @ sep @ join_with sep (t # ss)"

section \<open>Printing numbers\<close>

definition digit_char :: "nat \<Rightarrow> char" where
  "digit_char d = char_of (48 + d)"

fun show_nat :: "nat \<Rightarrow> string" where
  "show_nat n = (if n < 10 then [digit_char n] else show_nat (n div 10) @ [digit_char (n mod 10)])"

declare show_nat.simps [simp del]

definition show_int :: "int \<Rightarrow> string" where
  "show_int i = (if i < 0 then CHR ''-'' # show_nat (nat (- i)) else show_nat (nat i))"

definition show_bool :: "bool \<Rightarrow> string" where
  "show_bool b = (if b then ''true'' else ''false'')"

definition hex_char :: "nat \<Rightarrow> char" where
  "hex_char d = (if d < 10 then char_of (48 + d) else char_of (87 + d))"

text \<open>The \<open>k\<close> lowest hexadecimal digits, the most significant first (\<open>{:0kx}\<close>).\<close>

fun show_hex :: "nat \<Rightarrow> nat \<Rightarrow> string" where
  "show_hex 0 n = []"
| "show_hex (Suc k) n = show_hex k (n div 16) @ [hex_char (n mod 16)]"

definition is_digit :: "char \<Rightarrow> bool" where
  "is_digit c = (48 \<le> (of_char c :: nat) \<and> (of_char c :: nat) \<le> 57)"

lemma of_char_digit_char [simp]: "d < 10 \<Longrightarrow> (of_char (digit_char d) :: nat) = 48 + d"
  by (simp add: digit_char_def)

lemma digit_char_inj [simp]:
  "d < 10 \<Longrightarrow> e < 10 \<Longrightarrow> digit_char d = digit_char e \<longleftrightarrow> d = e"
proof -
  assume "d < 10" "e < 10"
  then have "d = of_char (digit_char d) - 48" "e = of_char (digit_char e) - 48" by simp_all
  then show ?thesis by metis
qed

lemma show_nat_nonempty [simp]: "show_nat n \<noteq> []"
  by (subst show_nat.simps) simp

lemma show_nat_digits: "c \<in> set (show_nat n) \<Longrightarrow> is_digit c"
proof (induction n rule: show_nat.induct)
  case (1 n)
  then show ?case
    by (cases "n < 10") (auto simp: show_nat.simps [of n] is_digit_def)
qed

text \<open>Reading the digits back, which makes printing injective.\<close>

definition read_nat :: "string \<Rightarrow> nat" where
  "read_nat s = foldl (\<lambda>a c. 10 * a + (of_char c - 48)) 0 s"

lemma read_show_nat [simp]: "read_nat (show_nat n) = n"
proof (induction n rule: show_nat.induct)
  case (1 n)
  then show ?case
    by (cases "n < 10") (simp_all add: show_nat.simps [of n] read_nat_def)
qed

lemma show_nat_inj [simp]: "show_nat m = show_nat n \<longleftrightarrow> m = n"
  by (metis read_show_nat)

lemma hd_show_nat_not_minus: "hd (show_nat n) \<noteq> CHR ''-''"
proof
  assume "hd (show_nat n) = CHR ''-''"
  then have "is_digit CHR ''-''"
    using show_nat_digits [OF hd_in_set [OF show_nat_nonempty]] by metis
  then show False by (simp add: is_digit_def)
qed

lemma show_int_inj [simp]: "show_int i = show_int j \<longleftrightarrow> i = j"
proof
  assume eq: "show_int i = show_int j"
  have "\<not> (i < 0 \<and> \<not> j < 0)" and "\<not> (\<not> i < 0 \<and> j < 0)"
    using eq hd_show_nat_not_minus by (auto simp: show_int_def) (metis list.sel(1))+
  with eq show "i = j" by (auto simp: show_int_def)
qed simp

lemma show_int_chars: "c \<in> set (show_int i) \<Longrightarrow> is_digit c \<or> c = CHR ''-''"
  by (auto simp: show_int_def dest: show_nat_digits split: if_splits)

lemma length_show_hex [simp]: "length (show_hex k n) = k"
  by (induction k arbitrary: n) auto

lemma of_char_hex_char:
  "d < 16 \<Longrightarrow> (of_char (hex_char d) :: nat) = (if d < 10 then 48 + d else 87 + d)"
  by (simp add: hex_char_def)

lemma hex_char_inj:
  assumes "d < 16" "e < 16" "hex_char d = hex_char e"
  shows "d = e"
proof -
  have "(if d < 10 then 48 + d else 87 + d) = (if e < 10 then 48 + e else 87 + e)"
    using of_char_hex_char [OF assms(1)] of_char_hex_char [OF assms(2)] assms(3) by metis
  with assms(1,2) show ?thesis by (simp split: if_splits)
qed

lemma show_hex_inj:
  "m < 16 ^ k \<Longrightarrow> n < 16 ^ k \<Longrightarrow> show_hex k m = show_hex k n \<Longrightarrow> m = n"
proof (induction k arbitrary: m n)
  case (Suc k)
  from Suc.prems(3) have "show_hex k (m div 16) = show_hex k (n div 16)"
    and "hex_char (m mod 16) = hex_char (n mod 16)" by simp_all
  moreover from Suc.prems have "m div 16 < 16 ^ k" "n div 16 < 16 ^ k"
    by (auto simp: less_mult_imp_div_less mult.commute)
  ultimately have "m div 16 = n div 16" "m mod 16 = n mod 16"
    using Suc.IH hex_char_inj by auto
  then show ?case by (metis div_mult_mod_eq)
qed simp

section \<open>Counters\<close>

definition u64_max :: nat where
  "u64_max = 2 ^ 64 - 1"

text \<open>\<open>saturating_add\<close> on \<open>u64\<close>; counters and row ids are \<open>nat\<close> below \<open>2 ^ 64\<close>.\<close>

definition sat_add :: "nat \<Rightarrow> nat \<Rightarrow> nat" where
  "sat_add a b = min (a + b) u64_max"

lemma sat_add_le [simp]: "sat_add a b \<le> u64_max"
  by (simp add: sat_add_def)

lemma sat_add_exact: "a + b \<le> u64_max \<Longrightarrow> sat_add a b = a + b"
  by (simp add: sat_add_def)

section \<open>Vectors\<close>

text \<open>\<open>get\<close> is \<open>Vec::get\<close>; \<open>idx\<close> is \<open>v[i]\<close>, which panics out of range.\<close>

definition get :: "'a list \<Rightarrow> nat \<Rightarrow> 'a option" where
  "get xs i = (if i < length xs then Some (xs ! i) else None)"

definition idx :: "'a list \<Rightarrow> nat \<Rightarrow> 'a res" where
  "idx xs i = (if i < length xs then Inr (xs ! i) else Inl (Panic ''index out of bounds''))"

lemma get_Some_iff: "get xs i = Some x \<longleftrightarrow> i < length xs \<and> xs ! i = x"
  by (auto simp: get_def)

lemma get_in [simp]: "i < length xs \<Longrightarrow> get xs i = Some (xs ! i)"
  by (simp add: get_def)

lemma idx_in [simp]: "i < length xs \<Longrightarrow> idx xs i = Inr (xs ! i)"
  by (simp add: idx_def)

text \<open>\<open>iter().position(p)\<close>: the first index whose element satisfies \<open>p\<close>.\<close>

fun position :: "('a \<Rightarrow> bool) \<Rightarrow> 'a list \<Rightarrow> nat option" where
  "position p [] = None"
| "position p (x # xs) = (if p x then Some 0 else map_option Suc (position p xs))"

lemma position_None_iff: "position p xs = None \<longleftrightarrow> (\<forall>x \<in> set xs. \<not> p x)"
  by (induction xs) auto

lemma position_SomeD:
  "position p xs = Some i \<Longrightarrow> i < length xs \<and> p (xs ! i) \<and> (\<forall>j < i. \<not> p (xs ! j))"
proof (induction xs arbitrary: i)
  case (Cons x xs)
  then show ?case by (cases i) (auto split: if_splits simp: less_Suc_eq_0_disj)
qed simp

lemma position_less: "position p xs = Some i \<Longrightarrow> i < length xs"
  by (simp add: position_SomeD)

lemma position_cong [fundef_cong]:
  "xs = ys \<Longrightarrow> (\<And>x. x \<in> set ys \<Longrightarrow> p x = q x) \<Longrightarrow> position p xs = position q ys"
  by (induction ys arbitrary: xs) auto

definition remove_at :: "nat \<Rightarrow> 'a list \<Rightarrow> 'a list" where
  "remove_at i xs = take i xs @ drop (Suc i) xs"

lemma length_remove_at: "i < length xs \<Longrightarrow> length (remove_at i xs) = length xs - 1"
  by (simp add: remove_at_def)

lemma list_all2_remove_at:
  "list_all2 P xs ys \<Longrightarrow> list_all2 P (remove_at i xs) (remove_at i ys)"
  by (simp add: remove_at_def list_all2_appendI list_all2_takeI list_all2_dropI)

lemma set_remove_at: "set (remove_at i xs) \<subseteq> set xs"
  by (auto simp: remove_at_def dest: in_set_takeD in_set_dropD)

section \<open>Finite maps\<close>

text \<open>
  A \<open>HashMap\<close> or \<open>BTreeMap\<close> is an association list with distinct keys: \<open>map_of m k\<close>
  is \<open>get\<close>, \<open>AList.update\<close> is \<open>insert\<close>, \<open>AList.delete\<close> is \<open>remove\<close>. The list fixes
  one of the iteration orders that Rust leaves open for a \<open>HashMap\<close>.
\<close>

type_synonym ('k, 'v) hmap = "('k \<times> 'v) list"

abbreviation keys_of :: "('k, 'v) hmap \<Rightarrow> 'k list" where
  "keys_of m \<equiv> map fst m"

definition wf_map :: "('k, 'v) hmap \<Rightarrow> bool" where
  "wf_map m \<longleftrightarrow> distinct (map fst m)"

lemma wf_map_Nil [simp, rdb_inv]: "wf_map []"
  by (simp add: wf_map_def)

lemma wf_map_update [simp, rdb_inv]: "wf_map m \<Longrightarrow> wf_map (AList.update k v m)"
  by (simp add: wf_map_def distinct_update)

lemma wf_map_delete [simp, rdb_inv]: "wf_map m \<Longrightarrow> wf_map (AList.delete k m)"
  by (simp add: wf_map_def distinct_delete)

lemma map_of_alist_update [simp]:
  "map_of (AList.update k v m) k' = (if k' = k then Some v else map_of m k')"
  by (simp add: update_conv')

lemma map_of_alist_delete [simp]:
  "map_of (AList.delete k m) k' = (if k' = k then None else map_of m k')"
  by (simp add: delete_conv')

lemma wf_map_in_iff: "wf_map m \<Longrightarrow> (k, v) \<in> set m \<longleftrightarrow> map_of m k = Some v"
  by (simp add: wf_map_def)

lemma set_update_iff:
  "wf_map m \<Longrightarrow> (k', v') \<in> set (AList.update k v m) \<longleftrightarrow>
     (if k' = k then v' = v else (k', v') \<in> set m)"
  by (auto simp: wf_map_in_iff)

end
