(* ===== verification/F64.thy ===== *)
theory F64
  imports Rdb_Prelude
begin

text \<open>
  Rust's \<open>f64\<close>: an IEEE 754 double kept as its 64 bits (\<open>to_bits\<close> is the identity).
  Comparison works on the sign and the magnitude bits; arithmetic is the exact rational
  result rounded to nearest, ties to even; casts truncate and saturate. Everything here is
  executable. The lemmas show that a double is its sign and magnitude, and that equality is an
  equivalence away from NaN that joins the two zeros only; \<open>F64_Exact\<close> relates rounding to
  the real numbers.
\<close>

unbundle bit_operations_syntax

datatype ordering = Less | Equal | Greater

definition cmp :: "'a::linorder \<Rightarrow> 'a \<Rightarrow> ordering" where
  "cmp a b = (if a < b then Less else if a = b then Equal else Greater)"

fun reverse_ordering :: "ordering \<Rightarrow> ordering" where
  "reverse_ordering Less = Greater"
| "reverse_ordering Equal = Equal"
| "reverse_ordering Greater = Less"

lemma cmp_simps [simp]:
  "cmp a b = Less \<longleftrightarrow> a < b"
  "cmp a b = Equal \<longleftrightarrow> a = b"
  "cmp a b = Greater \<longleftrightarrow> b < a"
  by (auto simp: cmp_def)

lemma reverse_cmp: "reverse_ordering (cmp a b) = cmp b a"
  by (auto simp: cmp_def)

type_synonym f64 = "64 word"
type_synonym i64 = "64 word"

section \<open>Layout\<close>

definition f64_sign :: "f64 \<Rightarrow> bool" where
  "f64_sign x \<longleftrightarrow> 2 ^ 63 \<le> unat x"

definition f64_mag :: "f64 \<Rightarrow> nat" where
  "f64_mag x = unat x mod 2 ^ 63"

definition f64_inf_mag :: nat where
  "f64_inf_mag = 2047 * 2 ^ 52"

definition f64_make :: "bool \<Rightarrow> nat \<Rightarrow> f64" where
  "f64_make s m = of_nat ((if s then 2 ^ 63 else 0) + m)"

definition f64_is_nan :: "f64 \<Rightarrow> bool" where
  "f64_is_nan x \<longleftrightarrow> f64_inf_mag < f64_mag x"

definition f64_is_inf :: "f64 \<Rightarrow> bool" where
  "f64_is_inf x \<longleftrightarrow> f64_mag x = f64_inf_mag"

definition f64_is_finite :: "f64 \<Rightarrow> bool" where
  "f64_is_finite x \<longleftrightarrow> f64_mag x < f64_inf_mag"

definition f64_is_zero :: "f64 \<Rightarrow> bool" where
  "f64_is_zero x \<longleftrightarrow> f64_mag x = 0"

definition f64_nan :: f64 where
  "f64_nan = f64_make False (f64_inf_mag + 2 ^ 51)"

definition f64_inf :: "bool \<Rightarrow> f64" where
  "f64_inf s = f64_make s f64_inf_mag"

definition f64_zero :: f64 where
  "f64_zero = 0"

lemma unat_f64_bound: "unat (x :: f64) < 2 ^ 64"
  using unsigned_less [of x] by simp

lemma f64_mag_bound [simp]: "f64_mag x < 2 ^ 63"
  by (simp add: f64_mag_def)

lemma f64_make_sign_mag [simp]: "f64_make (f64_sign x) (f64_mag x) = x"
proof -
  have "(if 2 ^ 63 \<le> unat x then 2 ^ 63 else 0) + unat x mod 2 ^ 63 = unat x"
  proof (cases "2 ^ 63 \<le> unat x")
    case True
    then obtain r where r: "unat x = 2 ^ 63 + r" using le_Suc_ex by blast
    with unat_f64_bound [of x] have "r < 2 ^ 63" by simp
    with r show ?thesis by simp
  qed simp
  then show ?thesis by (simp add: f64_make_def f64_sign_def f64_mag_def)
qed

lemma unat_f64_make:
  assumes "m < 2 ^ 63"
  shows "unat (f64_make s m) = (if s then 2 ^ 63 else 0) + m"
proof -
  have "unat (f64_make s m) = ((if s then 2 ^ 63 else 0) + m) mod 2 ^ LENGTH(64)"
    unfolding f64_make_def by (rule unat_of_nat)
  also have "\<dots> = (if s then 2 ^ 63 else 0) + m"
    by (rule mod_less) (use assms in auto)
  finally show ?thesis .
qed

lemma f64_sign_make [simp]: "m < 2 ^ 63 \<Longrightarrow> f64_sign (f64_make s m) = s"
  by (cases s) (auto simp: f64_sign_def unat_f64_make)

lemma f64_mag_make [simp]:
  assumes "m < 2 ^ 63" shows "f64_mag (f64_make s m) = m"
  using assms by (cases s) (simp_all only: f64_mag_def unat_f64_make if_True if_False
      mod_add_self1 mod_less add_0)

lemma f64_eqI:
  assumes "f64_sign x = f64_sign y" "f64_mag x = f64_mag y"
  shows "x = y"
proof -
  have "x = f64_make (f64_sign x) (f64_mag x)" by simp
  also have "\<dots> = f64_make (f64_sign y) (f64_mag y)" by (simp only: assms)
  also have "\<dots> = y" by simp
  finally show ?thesis .
qed

section \<open>Comparison\<close>

text \<open>
  The magnitude bits of a non-negative double grow with its value, so the signed magnitude
  orders the doubles by value, with the two zeros equal.
\<close>

definition f64_key :: "f64 \<Rightarrow> int" where
  "f64_key x = (if f64_sign x then - int (f64_mag x) else int (f64_mag x))"

definition f64_partial_cmp :: "f64 \<Rightarrow> f64 \<Rightarrow> ordering option" where
  "f64_partial_cmp a b =
     (if f64_is_nan a \<or> f64_is_nan b then None else Some (cmp (f64_key a) (f64_key b)))"

definition f64_eq :: "f64 \<Rightarrow> f64 \<Rightarrow> bool" where
  "f64_eq a b \<longleftrightarrow> f64_partial_cmp a b = Some Equal"

definition f64_lt :: "f64 \<Rightarrow> f64 \<Rightarrow> bool" where
  "f64_lt a b \<longleftrightarrow> f64_partial_cmp a b = Some Less"

text \<open>\<open>f64::max\<close> and \<open>f64::clamp\<close> (the first ignores a NaN operand, the second keeps one).\<close>

definition f64_max :: "f64 \<Rightarrow> f64 \<Rightarrow> f64" where
  "f64_max a b = (if f64_is_nan a then b else if f64_is_nan b then a else if f64_lt a b then b else a)"

definition f64_clamp :: "f64 \<Rightarrow> f64 \<Rightarrow> f64 \<Rightarrow> f64" where
  "f64_clamp x lo hi = (if f64_lt x lo then lo else if f64_lt hi x then hi else x)"

lemma f64_eq_iff:
  "f64_eq a b \<longleftrightarrow> \<not> f64_is_nan a \<and> \<not> f64_is_nan b \<and> f64_key a = f64_key b"
  by (auto simp: f64_eq_def f64_partial_cmp_def)

lemma f64_key_eq_iff: "f64_key a = f64_key b \<longleftrightarrow> a = b \<or> f64_is_zero a \<and> f64_is_zero b"
  by (auto simp: f64_key_def f64_is_zero_def intro: f64_eqI split: if_splits)

lemma f64_eq_cases: "f64_eq a b \<Longrightarrow> a = b \<or> f64_is_zero a \<and> f64_is_zero b"
  by (simp add: f64_eq_iff f64_key_eq_iff)

lemma f64_eq_refl: "\<not> f64_is_nan a \<Longrightarrow> f64_eq a a"
  by (simp add: f64_eq_iff)

lemma f64_eq_sym: "f64_eq a b \<Longrightarrow> f64_eq b a"
  by (simp add: f64_eq_iff)

lemma f64_eq_trans: "f64_eq a b \<Longrightarrow> f64_eq b c \<Longrightarrow> f64_eq a c"
  by (simp add: f64_eq_iff)

section \<open>Exact values\<close>

text \<open>A finite double is \<open>\<plusminus> mant * 2 powi exp\<close>; as a fraction, \<open>fst / snd\<close>.\<close>

definition mag_mant :: "nat \<Rightarrow> nat" where
  "mag_mant m = (if m < 2 ^ 52 then m else 2 ^ 52 + m mod 2 ^ 52)"

definition mag_exp :: "nat \<Rightarrow> int" where
  "mag_exp m = (if m < 2 ^ 52 then - 1074 else int (m div 2 ^ 52) - 1075)"

definition scale2 :: "int \<Rightarrow> nat \<times> nat \<Rightarrow> nat \<times> nat" where
  "scale2 e q = (if 0 \<le> e then (fst q * 2 ^ nat e, snd q) else (fst q, snd q * 2 ^ nat (- e)))"

definition mag_frac :: "nat \<Rightarrow> nat \<times> nat" where
  "mag_frac m = scale2 (mag_exp m) (mag_mant m, 1)"

definition f64_num :: "f64 \<Rightarrow> int" where
  "f64_num x = (if f64_sign x then - 1 else 1) * int (fst (mag_frac (f64_mag x)))"

definition f64_den :: "f64 \<Rightarrow> int" where
  "f64_den x = int (snd (mag_frac (f64_mag x)))"

section \<open>Rounding to nearest, ties to even\<close>

fun log2_floor :: "nat \<Rightarrow> nat" where
  "log2_floor n = (if n < 2 then 0 else Suc (log2_floor (n div 2)))"

declare log2_floor.simps [simp del]

definition div_rne :: "nat \<Rightarrow> nat \<Rightarrow> nat" where
  "div_rne n d = (let q = n div d; r = n mod d in
     if d < 2 * r \<or> (2 * r = d \<and> odd q) then q + 1 else q)"

definition frac_log2 :: "nat \<Rightarrow> nat \<Rightarrow> int" where
  "frac_log2 n d = (let k = int (log2_floor n) - int (log2_floor d);
      q = scale2 (- k) (n, d) in if snd q \<le> fst q then k else k - 1)"

definition round_mag :: "nat \<Rightarrow> nat \<Rightarrow> nat" where
  "round_mag n d =
     (if n = 0 then 0
      else let e = max (frac_log2 n d - 52) (- 1074);
               q = scale2 (- e) (n, d)
           in min f64_inf_mag (nat (e + 1074) * 2 ^ 52 + div_rne (fst q) (snd q)))"

definition f64_round :: "bool \<Rightarrow> nat \<Rightarrow> nat \<Rightarrow> f64" where
  "f64_round s n d = f64_make s (round_mag n d)"

text \<open>Round the fraction \<open>n / d\<close>, \<open>0 < d\<close>; an exact zero gets the given sign.\<close>

definition f64_of_frac :: "bool \<Rightarrow> int \<Rightarrow> int \<Rightarrow> f64" where
  "f64_of_frac zero_sign n d =
     (if n = 0 then f64_make zero_sign 0 else f64_round (n < 0) (nat \<bar>n\<bar>) (nat d))"

section \<open>Arithmetic\<close>

definition f64_neg :: "f64 \<Rightarrow> f64" where
  "f64_neg x = x XOR push_bit 63 1"

definition f64_add :: "f64 \<Rightarrow> f64 \<Rightarrow> f64" where
  "f64_add a b =
     (if f64_is_nan a \<or> f64_is_nan b then f64_nan
      else if f64_is_inf a then (if f64_is_inf b \<and> f64_sign a \<noteq> f64_sign b then f64_nan else a)
      else if f64_is_inf b then b
      else f64_of_frac (f64_is_zero a \<and> f64_sign a \<and> f64_is_zero b \<and> f64_sign b)
             (f64_num a * f64_den b + f64_num b * f64_den a) (f64_den a * f64_den b))"

definition f64_sub :: "f64 \<Rightarrow> f64 \<Rightarrow> f64" where
  "f64_sub a b = f64_add a (f64_neg b)"

definition f64_mul :: "f64 \<Rightarrow> f64 \<Rightarrow> f64" where
  "f64_mul a b = (let s = (f64_sign a \<noteq> f64_sign b) in
     if f64_is_nan a \<or> f64_is_nan b then f64_nan
     else if f64_is_inf a \<or> f64_is_inf b
       then (if f64_is_zero a \<or> f64_is_zero b then f64_nan else f64_inf s)
     else f64_of_frac s (f64_num a * f64_num b) (f64_den a * f64_den b))"

definition f64_div :: "f64 \<Rightarrow> f64 \<Rightarrow> f64" where
  "f64_div a b = (let s = (f64_sign a \<noteq> f64_sign b) in
     if f64_is_nan a \<or> f64_is_nan b then f64_nan
     else if f64_is_inf a then (if f64_is_inf b then f64_nan else f64_inf s)
     else if f64_is_inf b then f64_make s 0
     else if f64_is_zero b then (if f64_is_zero a then f64_nan else f64_inf s)
     else f64_of_frac s (f64_num a * f64_den b * sgn (f64_num b)) (f64_den a * \<bar>f64_num b\<bar>))"

text \<open>\<open>as f64\<close> from an integer.\<close>

definition f64_of_int :: "int \<Rightarrow> f64" where
  "f64_of_int i = f64_of_frac False i 1"

text \<open>Truncation towards zero, and the saturating casts \<open>as i64\<close> and \<open>as usize\<close>.\<close>

definition f64_trunc_int :: "f64 \<Rightarrow> int" where
  "f64_trunc_int x = sgn (f64_num x) * (\<bar>f64_num x\<bar> div f64_den x)"

definition f64_to_i64 :: "f64 \<Rightarrow> i64" where
  "f64_to_i64 x =
     (if f64_is_nan x then 0
      else if f64_is_inf x then (if f64_sign x then of_int (- (2 ^ 63)) else of_int (2 ^ 63 - 1))
      else of_int (max (- (2 ^ 63)) (min (2 ^ 63 - 1) (f64_trunc_int x))))"

definition f64_to_usize :: "f64 \<Rightarrow> nat" where
  "f64_to_usize x =
     (if f64_is_nan x then 0
      else if f64_is_inf x then (if f64_sign x then 0 else u64_max)
      else min u64_max (nat (f64_trunc_int x)))"

text \<open>\<open>ceil\<close>, and \<open>round\<close> (half away from zero).\<close>

definition f64_ceil :: "f64 \<Rightarrow> f64" where
  "f64_ceil x = (if f64_is_finite x
     then f64_of_frac (f64_sign x) (- ((- f64_num x) div f64_den x)) 1 else x)"

definition f64_round_half_away :: "f64 \<Rightarrow> f64" where
  "f64_round_half_away x = (if f64_is_finite x
     then f64_of_frac (f64_sign x)
            (sgn (f64_num x) * ((2 * \<bar>f64_num x\<bar> + f64_den x) div (2 * f64_den x))) 1 else x)"

section \<open>Printing\<close>

text \<open>
  \<open>Display\<close> prints the shortest decimal that reads back as the same double, the closest one
  of that length, without an exponent. \<open>p\<close> is the number of significant digits tried.
\<close>

definition dec_exp :: "nat \<Rightarrow> nat \<Rightarrow> int" where
  "dec_exp n d = (if d \<le> n then int (length (show_nat (n div d))) - 1
                  else - int (length (show_nat ((d - 1) div n))))"

definition scale10 :: "int \<Rightarrow> nat \<times> nat \<Rightarrow> nat \<times> nat" where
  "scale10 e q = (if 0 \<le> e then (fst q * 10 ^ nat e, snd q) else (fst q, snd q * 10 ^ nat (- e)))"

definition reads_back :: "nat \<Rightarrow> nat \<Rightarrow> int \<Rightarrow> bool" where
  "reads_back m c x = (let q = scale10 x (c, 1) in round_mag (fst q) (snd q) = m)"

fun shortest_digits :: "nat \<Rightarrow> nat \<Rightarrow> nat \<Rightarrow> nat list \<Rightarrow> nat \<times> int" where
  "shortest_digits m n d [] = (0, 0)"
| "shortest_digits m n d (p # ps) =
     (let x = dec_exp n d - int p + 1;
          q = scale10 (- x) (n, d);
          lo = fst q div snd q;
          r = fst q mod snd q;
          down = reads_back m lo x;
          up = reads_back m (lo + 1) x
      in if up \<and> (\<not> down \<or> snd q \<le> 2 * r) then (lo + 1, x)
         else if down then (lo, x)
         else shortest_digits m n d ps)"

fun strip_zeros :: "nat \<Rightarrow> int \<Rightarrow> nat \<times> int" where
  "strip_zeros c x = (if c = 0 \<or> c mod 10 \<noteq> 0 then (c, x) else strip_zeros (c div 10) (x + 1))"

declare strip_zeros.simps [simp del]

definition show_nat_pad :: "nat \<Rightarrow> nat \<Rightarrow> string" where
  "show_nat_pad w n = (let s = show_nat n in replicate (w - length s) CHR ''0'' @ s)"

definition show_decimal :: "nat \<times> int \<Rightarrow> string" where
  "show_decimal q = (case q of (c, x) \<Rightarrow>
     if 0 \<le> x then show_nat (c * 10 ^ nat x)
     else let w = nat (- x) in
       show_nat (c div 10 ^ w) @ ''.'' @ show_nat_pad w (c mod 10 ^ w))"

definition f64_to_string :: "f64 \<Rightarrow> string" where
  "f64_to_string v =
     (if f64_is_nan v then ''NaN''
      else (if f64_sign v then ''-'' else []) @
        (if f64_is_inf v then ''inf''
         else if f64_is_zero v then ''0''
         else let q = mag_frac (f64_mag v) in
           show_decimal (case_prod strip_zeros
             (shortest_digits (f64_mag v) (fst q) (snd q) [1..<18]))))"

end
