(* ===== verification/LikeMatch.thy ===== *)
theory LikeMatch
  imports Rdb_Prelude
begin

text \<open>
  The SQL LIKE matcher of \<^verbatim>\<open>src/src/sql/types.rs\<close> (\<open>like_match\<close>): a
  dynamic-programming table over prefixes of the text and of the pattern. The lemmas show
  that it decides the declarative meaning of a pattern, \<open>like_sem\<close>.
\<close>

section \<open>The matcher\<close>

text \<open>
  The matcher fills a table whose cell \<open>(i, j)\<close> says whether the first \<open>i\<close> characters of
  the text match the first \<open>j\<close> of the pattern. \<open>like_first_row\<close> is row 0,
  \<open>like_next_row\<close> computes the cells \<open>1..\<close> of a row from the previous one. Case folding
  is \<open>to_lowercase\<close> on ASCII text, where a character is one byte.
\<close>

fun like_first_row :: "bool \<Rightarrow> string \<Rightarrow> bool list" where
  "like_first_row left [] = []"
| "like_first_row left (p # ps) =
     (let b = (if p = CHR ''%'' then left else False) in b # like_first_row b ps)"

fun like_next_row :: "char \<Rightarrow> bool \<Rightarrow> bool list \<Rightarrow> string \<Rightarrow> bool list" where
  "like_next_row t left (diag # up # rest) (p # ps) =
     (let b = (if p = CHR ''%'' then left \<or> up
               else if p = CHR ''_'' then diag
               else p = t \<and> diag)
      in b # like_next_row t b (up # rest) ps)"
| "like_next_row t left _ _ = []"

fun like_rows :: "bool list \<Rightarrow> string \<Rightarrow> string \<Rightarrow> bool list" where
  "like_rows row [] pattern = row"
| "like_rows row (t # ts) pattern = like_rows (False # like_next_row t False row pattern) ts pattern"

definition like_match :: "string \<Rightarrow> string \<Rightarrow> bool" where
  "like_match text pattern =
     (let text = to_ascii_lowercase text; pattern = to_ascii_lowercase pattern
      in last (like_rows (True # like_first_row True pattern) text pattern))"

section \<open>What a pattern means\<close>

text \<open>
  \<open>%\<close> stands for any run of characters, \<open>_\<close> for any one, every other character for itself.
\<close>

fun like_sem :: "string \<Rightarrow> string \<Rightarrow> bool" where
  "like_sem t [] = (t = [])"
| "like_sem t (p # ps) =
     (if p = CHR ''%'' then (\<exists>n \<in> {0..length t}. like_sem (drop n t) ps)
      else t \<noteq> [] \<and> (p = CHR ''_'' \<or> hd t = p) \<and> like_sem (tl t) ps)"

lemma ex_le_Suc_iff: "(\<exists>n \<le> Suc k. P n) \<longleftrightarrow> P 0 \<or> (\<exists>n \<le> k. P (Suc n))"
  by (metis Suc_le_mono le0 not0_implies_Suc)

lemma like_sem_append:
  "like_sem t (p @ q) \<longleftrightarrow> (\<exists>n \<le> length t. like_sem (take n t) p \<and> like_sem (drop n t) q)"
proof (induction p arbitrary: t)
  case Nil
  show ?case by (auto simp: take_eq_Nil)
next
  case (Cons x p)
  show ?case
  proof (cases "x = CHR ''%''")
    case True
    have "like_sem t ((x # p) @ q) \<longleftrightarrow>
        (\<exists>m \<le> length t. \<exists>n \<le> length t - m. like_sem (take n (drop m t)) p \<and> like_sem (drop (m + n) t) q)"
      using True by (simp add: Cons.IH add.commute atLeastAtMost_iff Bex_def)
    also have "\<dots> \<longleftrightarrow> (\<exists>k \<le> length t. \<exists>m \<le> k. like_sem (drop m (take k t)) p \<and> like_sem (drop k t) q)"
      (is "?L \<longleftrightarrow> ?R")
    proof
      assume ?L
      then obtain m n where "m \<le> length t" "n \<le> length t - m"
        "like_sem (take n (drop m t)) p" "like_sem (drop (m + n) t) q" by blast
      then show ?R
        by (intro exI [of _ "m + n"] conjI exI [of _ m]) (auto simp: drop_take)
    next
      assume ?R
      then obtain k m where "k \<le> length t" "m \<le> k"
        "like_sem (drop m (take k t)) p" "like_sem (drop k t) q" by blast
      then show ?L
        by (intro exI [of _ m] conjI exI [of _ "k - m"]) (auto simp: drop_take)
    qed
    also have "\<dots> \<longleftrightarrow> (\<exists>k \<le> length t. like_sem (take k t) (x # p) \<and> like_sem (drop k t) q)"
    proof -
      have "like_sem (take k t) (x # p) \<longleftrightarrow> (\<exists>m \<le> k. like_sem (drop m (take k t)) p)"
        if "k \<le> length t" for k
        using True that by (auto simp: Bex_def min_absorb2)
      then show ?thesis by blast
    qed
    finally show ?thesis .
  next
    case False
    show ?thesis
    proof (cases t)
      case Nil
      with False show ?thesis by simp
    next
      case (Cons c t')
      show ?thesis
        using False unfolding Cons by (simp add: ex_le_Suc_iff Cons.IH) blast
    qed
  qed
qed

lemma like_sem_single: "like_sem t [x] \<longleftrightarrow> x = CHR ''%'' \<or> (\<exists>c. t = [c] \<and> (x = CHR ''_'' \<or> c = x))"
  by (cases t) auto

lemma like_sem_snoc_Nil: "like_sem [] (p @ [x]) \<longleftrightarrow> x = CHR ''%'' \<and> like_sem [] p"
  by (auto simp: like_sem_append like_sem_single simp del: like_sem.simps)

lemma like_sem_snoc_percent: "like_sem t (p @ [CHR ''%'']) \<longleftrightarrow> (\<exists>n \<le> length t. like_sem (take n t) p)"
  by (simp add: like_sem_append like_sem_single del: like_sem.simps)

lemma like_sem_snoc_char:
  assumes "x \<noteq> CHR ''%''"
  shows "like_sem (u @ [t]) (p @ [x]) \<longleftrightarrow> (x = CHR ''_'' \<or> x = t) \<and> like_sem u p"
proof -
  have drop1: "drop n (u @ [t]) = [c] \<longleftrightarrow> n = length u \<and> c = t" if "n \<le> Suc (length u)" for n c
    using that by (cases "n \<le> length u") (auto simp: le_Suc_eq append_eq_Cons_conv)
  have "like_sem (u @ [t]) (p @ [x]) \<longleftrightarrow>
      (\<exists>n \<le> Suc (length u). like_sem (take n (u @ [t])) p \<and>
         (\<exists>c. drop n (u @ [t]) = [c] \<and> (x = CHR ''_'' \<or> c = x)))"
    using assms by (simp only: like_sem_append like_sem_single length_append_singleton simp_thms)
  also have "\<dots> \<longleftrightarrow> like_sem (take (length u) (u @ [t])) p \<and> (x = CHR ''_'' \<or> t = x)"
    by (simp only: drop1 cong: conj_cong) auto
  finally show ?thesis by auto
qed

lemma like_sem_snoc_percent_step:
  "like_sem (u @ [t]) (p @ [CHR ''%'']) \<longleftrightarrow>
     like_sem (u @ [t]) p \<or> like_sem u (p @ [CHR ''%''])"
  by (auto simp: like_sem_snoc_percent le_Suc_eq)

section \<open>The table holds the meaning of every pair of prefixes\<close>

lemma like_first_row_sem:
  "like_first_row (like_sem [] p0) ps = map (\<lambda>j. like_sem [] (p0 @ take (Suc j) ps)) [0..<length ps]"
proof (induction ps arbitrary: p0)
  case (Cons x ps)
  have "(if x = CHR ''%'' then like_sem [] p0 else False) = like_sem [] (p0 @ [x])"
    by (simp add: like_sem_snoc_Nil)
  with Cons [of "p0 @ [x]"] show ?case
    by (simp add: Let_def map_upt_Suc del: upt_Suc)
qed simp

lemma like_next_row_sem:
  "like_next_row t (like_sem (u @ [t]) p0)
     (map (\<lambda>j. like_sem u (p0 @ take j ps)) [0..<Suc (length ps)]) ps =
   map (\<lambda>j. like_sem (u @ [t]) (p0 @ take (Suc j) ps)) [0..<length ps]"
proof (induction ps arbitrary: p0)
  case (Cons x ps)
  let ?b = "if x = CHR ''%'' then like_sem (u @ [t]) p0 \<or> like_sem u (p0 @ [x])
            else if x = CHR ''_'' then like_sem u p0 else x = t \<and> like_sem u p0"
  have b: "?b = like_sem (u @ [t]) (p0 @ [x])"
    by (auto simp: like_sem_snoc_percent_step like_sem_snoc_char)
  have row: "map (\<lambda>j. like_sem u (p0 @ take j (x # ps))) [0..<Suc (length (x # ps))] =
      like_sem u p0 # map (\<lambda>j. like_sem u ((p0 @ [x]) @ take j ps)) [0..<Suc (length ps)]"
    by (simp add: map_upt_Suc del: upt_Suc)
  have split: "map (\<lambda>j. like_sem u ((p0 @ [x]) @ take j ps)) [0..<Suc (length ps)] =
      like_sem u (p0 @ [x]) # map (\<lambda>j. like_sem u ((p0 @ [x]) @ take (Suc j) ps)) [0..<length ps]"
    by (simp add: map_upt_Suc del: upt_Suc)
  show ?case
    using Cons [of "p0 @ [x]"] b
    by (simp add: row split Let_def map_upt_Suc del: upt_Suc)
qed simp

lemma like_rows_sem:
  "like_rows (map (\<lambda>j. like_sem u (take j ps)) [0..<Suc (length ps)]) t ps =
   map (\<lambda>j. like_sem (u @ t) (take j ps)) [0..<Suc (length ps)]"
proof (induction t arbitrary: u)
  case (Cons c t)
  have "False # like_next_row c False (map (\<lambda>j. like_sem u (take j ps)) [0..<Suc (length ps)]) ps =
      map (\<lambda>j. like_sem (u @ [c]) (take j ps)) [0..<Suc (length ps)]"
    using like_next_row_sem [of c u "[]" ps] by (simp add: map_upt_Suc del: upt_Suc)
  with Cons [of "u @ [c]"] show ?case by simp
qed simp

lemma like_match_sem:
  "like_match text pattern = like_sem (to_ascii_lowercase text) (to_ascii_lowercase pattern)"
proof -
  let ?p = "to_ascii_lowercase pattern"
  have "True # like_first_row True ?p = map (\<lambda>j. like_sem [] (take j ?p)) [0..<Suc (length ?p)]"
    using like_first_row_sem [of "[]" ?p] by (simp add: map_upt_Suc del: upt_Suc)
  then have "like_rows (True # like_first_row True ?p) t ?p =
      map (\<lambda>j. like_sem t (take j ?p)) [0..<Suc (length ?p)]" for t
    using like_rows_sem [of "[]" ?p t] by simp
  then show ?thesis by (simp add: like_match_def Let_def)
qed

end
