(* ===== verification/SqlTypes.thy ===== *)
theory SqlTypes
  imports F64 LikeMatch
begin

text \<open>
  \<^verbatim>\<open>src/src/sql/types.rs\<close>: the SQL data types and values, three-valued truth, SQL
  comparison, the expression and query trees, column and table schemas, rows and the
  validation of a row. What is proved about them stands with the components that use them:
  keys in \<open>KeyIndex\<close>, comparison through an index in \<open>TableStore\<close>, valid rows in \<open>Executor\<close>.
\<close>

section \<open>Data types and values\<close>

datatype data_type = DInteger | DFloat | DText | DBoolean | DNull

fun data_type_name :: "data_type \<Rightarrow> string" where
  "data_type_name DInteger = ''INTEGER''"
| "data_type_name DFloat = ''FLOAT''"
| "data_type_name DText = ''TEXT''"
| "data_type_name DBoolean = ''BOOLEAN''"
| "data_type_name DNull = ''NULL''"

datatype val = VInteger i64 | VFloat f64 | VText string | VBoolean bool | VNull

fun data_type_of :: "val \<Rightarrow> data_type" where
  "data_type_of (VInteger _) = DInteger"
| "data_type_of (VFloat _) = DFloat"
| "data_type_of (VText _) = DText"
| "data_type_of (VBoolean _) = DBoolean"
| "data_type_of VNull = DNull"

fun is_compatible_with :: "val \<Rightarrow> data_type \<Rightarrow> bool" where
  "is_compatible_with VNull _ = True"
| "is_compatible_with (VInteger _) DInteger = True"
| "is_compatible_with (VInteger _) DFloat = True"
| "is_compatible_with (VFloat _) DFloat = True"
| "is_compatible_with (VText _) DText = True"
| "is_compatible_with (VBoolean _) DBoolean = True"
| "is_compatible_with _ _ = False"

text \<open>\<open>*value as f64\<close> for an \<open>i64\<close>.\<close>

definition f64_of_i64 :: "i64 \<Rightarrow> f64" where
  "f64_of_i64 i = f64_of_int (sint i)"

fun coerce_to :: "val \<Rightarrow> data_type \<Rightarrow> val option" where
  "coerce_to VNull _ = Some VNull"
| "coerce_to (VInteger v) DInteger = Some (VInteger v)"
| "coerce_to (VInteger v) DFloat = Some (VFloat (f64_of_i64 v))"
| "coerce_to (VFloat v) DFloat = Some (VFloat v)"
| "coerce_to (VText v) DText = Some (VText v)"
| "coerce_to (VBoolean v) DBoolean = Some (VBoolean v)"
| "coerce_to _ _ = None"

fun is_null :: "val \<Rightarrow> bool" where
  "is_null VNull = True"
| "is_null _ = False"

lemma is_null_iff [simp]: "is_null v \<longleftrightarrow> v = VNull"
  by (cases v) auto

text \<open>The \<open>Display\<close> instance.\<close>

fun value_to_string :: "val \<Rightarrow> string" where
  "value_to_string (VInteger v) = show_int (sint v)"
| "value_to_string (VFloat v) = f64_to_string v"
| "value_to_string (VText v) = v"
| "value_to_string (VBoolean v) = show_bool v"
| "value_to_string VNull = ''NULL''"

text \<open>The derived \<open>PartialEq\<close>: floats compare as \<open>f64\<close>, so NaN differs from itself.\<close>

fun value_eq :: "val \<Rightarrow> val \<Rightarrow> bool" where
  "value_eq (VInteger a) (VInteger b) = (a = b)"
| "value_eq (VFloat a) (VFloat b) = f64_eq a b"
| "value_eq (VText a) (VText b) = (a = b)"
| "value_eq (VBoolean a) (VBoolean b) = (a = b)"
| "value_eq VNull VNull = True"
| "value_eq _ _ = False"

text \<open>The \<open>PartialOrd\<close> instance: numbers compare across the two numeric types.\<close>

fun value_partial_cmp :: "val \<Rightarrow> val \<Rightarrow> ordering option" where
  "value_partial_cmp (VInteger a) (VInteger b) = Some (cmp (sint a) (sint b))"
| "value_partial_cmp (VFloat a) (VFloat b) = f64_partial_cmp a b"
| "value_partial_cmp (VInteger a) (VFloat b) = f64_partial_cmp (f64_of_i64 a) b"
| "value_partial_cmp (VFloat a) (VInteger b) = f64_partial_cmp a (f64_of_i64 b)"
| "value_partial_cmp (VText a) (VText b) = Some (cmp a b)"
| "value_partial_cmp (VBoolean a) (VBoolean b) = Some (cmp a b)"
| "value_partial_cmp VNull VNull = Some Equal"
| "value_partial_cmp _ _ = None"

section \<open>Three-valued truth\<close>

datatype sql_truth = STrue | SFalse | SUnknown

fun truth_and :: "sql_truth \<Rightarrow> sql_truth \<Rightarrow> sql_truth" where
  "truth_and SFalse _ = SFalse"
| "truth_and _ SFalse = SFalse"
| "truth_and STrue STrue = STrue"
| "truth_and _ _ = SUnknown"

fun truth_or :: "sql_truth \<Rightarrow> sql_truth \<Rightarrow> sql_truth" where
  "truth_or STrue _ = STrue"
| "truth_or _ STrue = STrue"
| "truth_or SFalse SFalse = SFalse"
| "truth_or _ _ = SUnknown"

fun truth_negate :: "sql_truth \<Rightarrow> sql_truth" where
  "truth_negate STrue = SFalse"
| "truth_negate SFalse = STrue"
| "truth_negate SUnknown = SUnknown"

definition truth_of_bool :: "bool \<Rightarrow> sql_truth" where
  "truth_of_bool b = (if b then STrue else SFalse)"

fun truth :: "val \<Rightarrow> sql_truth" where
  "truth (VBoolean True) = STrue"
| "truth (VBoolean False) = SFalse"
| "truth VNull = SUnknown"
| "truth (VInteger v) = (if v = 0 then SFalse else STrue)"
| "truth (VFloat v) = (if f64_eq v f64_zero then SFalse else STrue)"
| "truth (VText s) = (if s = [] then SFalse else STrue)"

section \<open>SQL comparison\<close>

datatype comparison_op =
  OpEqual | OpNotEqual | OpLessThan | OpLessThanOrEqual | OpGreaterThan | OpGreaterThanOrEqual | OpLike

fun comparison_op_name :: "comparison_op \<Rightarrow> string" where
  "comparison_op_name OpEqual = ''=''"
| "comparison_op_name OpNotEqual = ''!=''"
| "comparison_op_name OpLessThan = ''<''"
| "comparison_op_name OpLessThanOrEqual = ''<=''"
| "comparison_op_name OpGreaterThan = ''>''"
| "comparison_op_name OpGreaterThanOrEqual = ''>=''"
| "comparison_op_name OpLike = ''LIKE''"

fun compare_result :: "val \<Rightarrow> val \<Rightarrow> comparison_op \<Rightarrow> bool" where
  "compare_result a b OpEqual = (value_partial_cmp a b = Some Equal)"
| "compare_result a b OpNotEqual = (value_partial_cmp a b \<noteq> Some Equal)"
| "compare_result a b OpLessThan = (value_partial_cmp a b = Some Less)"
| "compare_result a b OpLessThanOrEqual = (value_partial_cmp a b \<in> {Some Less, Some Equal})"
| "compare_result a b OpGreaterThan = (value_partial_cmp a b = Some Greater)"
| "compare_result a b OpGreaterThanOrEqual = (value_partial_cmp a b \<in> {Some Greater, Some Equal})"
| "compare_result a b OpLike =
     (case (a, b) of (VText text, VText pattern) \<Rightarrow> like_match text pattern | _ \<Rightarrow> False)"

definition compare_sql :: "val \<Rightarrow> val \<Rightarrow> comparison_op \<Rightarrow> sql_truth" where
  "compare_sql a b op =
     (if is_null a \<or> is_null b then SUnknown else truth_of_bool (compare_result a b op))"

definition compare :: "val \<Rightarrow> val \<Rightarrow> comparison_op \<Rightarrow> bool" where
  "compare a b op \<longleftrightarrow> compare_sql a b op = STrue"

section \<open>Expressions and queries\<close>

datatype binary_op = BAdd | BSubtract | BMultiply | BDivide | BCompare comparison_op | BAnd | BOr

datatype unary_op = UNot | UNegate | UPlus

datatype aggregate_function = AggCount | AggSum | AggAvg | AggMax | AggMin

datatype join_type = InnerJoin | LeftJoin | RightJoin | CrossJoin

datatype expr =
    Column "string option" string
  | Literal val
  | Parameter nat
  | Incoming string
  | Binary expr binary_op expr
  | Unary unary_op expr
  | IsNull expr bool
  | Like expr expr bool
  | InList expr "expr list" bool
  | InSubquery expr query bool
  | Exists query bool
  | ScalarSubquery query
  | Aggregate aggregate_function "expr option" bool
and select_item =
    Wildcard "string option"
  | SelectExpr expr "string option"
and table_source =
    TableRef string "string option"
  | Derived query string
and join = Join (join_kind: join_type) (join_source: table_source) (join_on: "expr option")
and order_by = OrderBy (order_expr: expr) (order_descending: bool)
and cte = Cte (cte_name: string) (cte_columns: "string list") (cte_query: query)
and query = Query
    (query_ctes: "cte list")
    (query_distinct: bool)
    (query_projection: "select_item list")
    (query_from: "table_source option")
    (query_joins: "join list")
    (query_selection: "expr option")
    (query_group_by: "expr list")
    (query_having: "expr option")
    (query_order_by: "order_by list")
    (query_limit: "nat option")

section \<open>Schemas, rows and result sets\<close>

record foreign_key =
  fk_name :: "string option"
  fk_columns :: "string list"
  fk_foreign_table :: string
  fk_referred_columns :: "string list"

datatype table_constraint =
    PrimaryKey "string option" "string list"
  | Unique "string option" "string list"
  | Check "string option" expr
  | ForeignKey foreign_key

record index_def =
  ix_name :: string
  ix_columns :: "string list"
  ix_unique :: bool
  ix_automatic :: bool

record column_def =
  col_name :: string
  col_data_type :: data_type
  col_nullable :: bool
  col_primary_key :: bool
  col_unique :: bool
  col_default :: "val option"
  col_checks :: "expr list"

definition column_def_new :: "string \<Rightarrow> data_type \<Rightarrow> column_def" where
  "column_def_new name dt =
     \<lparr>col_name = name, col_data_type = dt, col_nullable = True, col_primary_key = False,
      col_unique = False, col_default = None, col_checks = []\<rparr>"

definition column_not_null :: "column_def \<Rightarrow> column_def" where
  "column_not_null c = c\<lparr>col_nullable := False\<rparr>"

definition column_primary_key :: "column_def \<Rightarrow> column_def" where
  "column_primary_key c = c\<lparr>col_primary_key := True, col_unique := True, col_nullable := False\<rparr>"

definition column_unique :: "column_def \<Rightarrow> column_def" where
  "column_unique c = c\<lparr>col_unique := True\<rparr>"

definition column_with_default :: "column_def \<Rightarrow> val \<Rightarrow> column_def" where
  "column_with_default c v = c\<lparr>col_default := Some v\<rparr>"

record table_schema =
  sch_name :: string
  sch_columns :: "column_def list"
  sch_constraints :: "table_constraint list"
  sch_indexes :: "index_def list"

definition table_schema_new :: "string \<Rightarrow> column_def list \<Rightarrow> table_schema" where
  "table_schema_new name columns =
     \<lparr>sch_name = name, sch_columns = columns, sch_constraints = [], sch_indexes = []\<rparr>"

definition column_index :: "table_schema \<Rightarrow> string \<Rightarrow> nat option" where
  "column_index s name = position (\<lambda>c. eq_ignore_ascii_case (col_name c) name) (sch_columns s)"

definition schema_column :: "table_schema \<Rightarrow> string \<Rightarrow> column_def option" where
  "schema_column s name = find (\<lambda>c. eq_ignore_ascii_case (col_name c) name) (sch_columns s)"

definition primary_key_index :: "table_schema \<Rightarrow> nat option" where
  "primary_key_index s = position col_primary_key (sch_columns s)"

type_synonym row = "val list"

definition validate_value :: "val \<times> column_def \<Rightarrow> unit res" where
  "validate_value vc = (case vc of (v, c) \<Rightarrow>
     if is_null v then
       (if \<not> col_nullable c
        then Inl (Fail (''Column '' @ quoted (col_name c) @ '' cannot be NULL'')) else Inr ())
     else if \<not> is_compatible_with v (col_data_type c)
       then Inl (Fail (''Column '' @ quoted (col_name c) @ '' expects '' @
              data_type_name (col_data_type c) @ '', got '' @ data_type_name (data_type_of v)))
       else Inr ())"

definition validate_row :: "table_schema \<Rightarrow> row \<Rightarrow> unit res" where
  "validate_row s row =
     (if length row \<noteq> length (sch_columns s)
      then Inl (Fail (''Expected '' @ show_nat (length (sch_columns s)) @ '' columns, got '' @
              show_nat (length row)))
      else res_all validate_value (zip row (sch_columns s)))"

record result_set =
  rs_columns :: "string list"
  rs_rows :: "row list"

end
