(* ===== verification/Statements.thy ===== *)
theory Statements
  imports SqlTypes
begin

text \<open>
  The statements of \<^verbatim>\<open>src/src/sql/parser.rs\<close> (lines 11 to 132), which the executor, the
  planner and the sessions share, and the classification of statements from the executor
  and the database.
\<close>

datatype insert_source = InsertValues "expr list list" | InsertQuery query

datatype prepare_source = PrepareSql string | PrepareVariable string

datatype alter_operation =
    AddColumn column_def "table_constraint list" bool
  | DropColumn string bool
  | RenameColumn string string
  | ModifyColumn string column_def "table_constraint list"
  | SetDefault string "val option"
  | SetNullable string bool
  | SetDataType string data_type
  | AddConstraint table_constraint
  | DropConstraint string bool
  | DropPrimaryKey

datatype statement =
    CreateTable string "column_def list" "table_constraint list" bool
  | DropTable string bool
  | CreateIndex string string "string list" bool bool
  | DropIndex string string bool
  | AlterTable string "alter_operation list"
  | Insert string "string list option" insert_source "(string \<times> expr) list"
  | QueryStatement query
  | Update string "(string \<times> expr) list" "expr option"
  | Delete string "expr option"
  | ShowTables
  | ShowIndexes string
  | DescribeTable string
  | Explain statement
  | SetVariable string val
  | Prepare string prepare_source
  | ExecutePrepared string "string list"
  | DeallocatePrepared string
  | Begin
  | Commit
  | Rollback

fun is_write_statement :: "statement \<Rightarrow> bool" where
  "is_write_statement (CreateTable _ _ _ _) = True"
| "is_write_statement (DropTable _ _) = True"
| "is_write_statement (CreateIndex _ _ _ _ _) = True"
| "is_write_statement (DropIndex _ _ _) = True"
| "is_write_statement (AlterTable _ _) = True"
| "is_write_statement (Insert _ _ _ _) = True"
| "is_write_statement (Update _ _ _) = True"
| "is_write_statement (Delete _ _) = True"
| "is_write_statement _ = False"

fun is_transaction_control :: "statement \<Rightarrow> bool" where
  "is_transaction_control Begin = True"
| "is_transaction_control Commit = True"
| "is_transaction_control Rollback = True"
| "is_transaction_control _ = False"

end
