(* ===== verification/Params.thy ===== *)
theory Params
  imports Statements
begin

text \<open>
  Statement parameters of \<^verbatim>\<open>src/src/sql/parser.rs\<close> (lines 479 to 682): the visitor that walks
  every expression of a statement, the numbering of the \<open>?\<close> markers, their count and the
  binding of values. The source's visitor closures act on \<open>Parameter\<close> nodes only and put a
  leaf in their place, so a visitor here is a function from the index of a parameter and the
  closure's state to the new leaf and state. The lemmas show that numbering makes the
  indices consecutive and that binding leaves no parameter behind.
\<close>

section \<open>The visitor\<close>

type_synonym 's visitor = "nat \<Rightarrow> 's \<Rightarrow> expr \<times> 's"

fun map_state :: "('a \<Rightarrow> 's \<Rightarrow> 'b \<times> 's) \<Rightarrow> 'a list \<Rightarrow> 's \<Rightarrow> 'b list \<times> 's" where
  "map_state f [] s = ([], s)"
| "map_state f (x # xs) s = (let (y, s1) = f x s; (ys, s2) = map_state f xs s1 in (y # ys, s2))"

fun option_state :: "('a \<Rightarrow> 's \<Rightarrow> 'b \<times> 's) \<Rightarrow> 'a option \<Rightarrow> 's \<Rightarrow> 'b option \<times> 's" where
  "option_state f None s = (None, s)"
| "option_state f (Some x) s = (let (y, s1) = f x s in (Some y, s1))"

lemma map_state_cong [fundef_cong]:
  "xs = ys \<Longrightarrow> s = t \<Longrightarrow> (\<And>x s. x \<in> set ys \<Longrightarrow> f x s = g x s) \<Longrightarrow> map_state f xs s = map_state g ys t"
proof (induction ys arbitrary: xs s t)
  case (Cons y ys)
  then have "\<And>s. f y s = g y s" and "\<And>s. map_state f ys s = map_state g ys s" by auto
  with Cons.prems show ?case by simp
qed simp

lemma option_state_cong [fundef_cong]:
  "x = y \<Longrightarrow> s = t \<Longrightarrow> (\<And>z s. y = Some z \<Longrightarrow> f z s = g z s) \<Longrightarrow> option_state f x s = option_state g y t"
  by (cases y) simp_all

fun visit_expr :: "'s visitor \<Rightarrow> expr \<Rightarrow> 's \<Rightarrow> expr \<times> 's"
and visit_item :: "'s visitor \<Rightarrow> select_item \<Rightarrow> 's \<Rightarrow> select_item \<times> 's"
and visit_source :: "'s visitor \<Rightarrow> table_source \<Rightarrow> 's \<Rightarrow> table_source \<times> 's"
and visit_join :: "'s visitor \<Rightarrow> join \<Rightarrow> 's \<Rightarrow> join \<times> 's"
and visit_order :: "'s visitor \<Rightarrow> order_by \<Rightarrow> 's \<Rightarrow> order_by \<times> 's"
and visit_cte :: "'s visitor \<Rightarrow> cte \<Rightarrow> 's \<Rightarrow> cte \<times> 's"
and visit_query :: "'s visitor \<Rightarrow> query \<Rightarrow> 's \<Rightarrow> query \<times> 's" where
  "visit_expr v (Parameter i) s = v i s"
| "visit_expr v (Binary left op right) s =
     (let (l, s1) = visit_expr v left s; (r, s2) = visit_expr v right s1 in (Binary l op r, s2))"
| "visit_expr v (Unary op e) s = (let (e', s1) = visit_expr v e s in (Unary op e', s1))"
| "visit_expr v (IsNull e negated) s = (let (e', s1) = visit_expr v e s in (IsNull e' negated, s1))"
| "visit_expr v (Like e p negated) s =
     (let (e', s1) = visit_expr v e s; (p', s2) = visit_expr v p s1 in (Like e' p' negated, s2))"
| "visit_expr v (InList e items negated) s =
     (let (e', s1) = visit_expr v e s; (items', s2) = map_state (visit_expr v) items s1
      in (InList e' items' negated, s2))"
| "visit_expr v (InSubquery e q negated) s =
     (let (e', s1) = visit_expr v e s; (q', s2) = visit_query v q s1 in (InSubquery e' q' negated, s2))"
| "visit_expr v (Exists q negated) s = (let (q', s1) = visit_query v q s in (Exists q' negated, s1))"
| "visit_expr v (ScalarSubquery q) s = (let (q', s1) = visit_query v q s in (ScalarSubquery q', s1))"
| "visit_expr v (Aggregate func e dedup) s =
     (let (e', s1) = option_state (visit_expr v) e s in (Aggregate func e' dedup, s1))"
| "visit_expr v (Column q name) s = (Column q name, s)"
| "visit_expr v (Literal w) s = (Literal w, s)"
| "visit_expr v (Incoming c) s = (Incoming c, s)"
| "visit_item v (SelectExpr e name) s = (let (e', s1) = visit_expr v e s in (SelectExpr e' name, s1))"
| "visit_item v (Wildcard q) s = (Wildcard q, s)"
| "visit_source v (Derived q name) s = (let (q', s1) = visit_query v q s in (Derived q' name, s1))"
| "visit_source v (TableRef name shown) s = (TableRef name shown, s)"
| "visit_join v (Join kind source on) s =
     (let (source', s1) = visit_source v source s; (on', s2) = option_state (visit_expr v) on s1
      in (Join kind source' on', s2))"
| "visit_order v (OrderBy e desc) s = (let (e', s1) = visit_expr v e s in (OrderBy e' desc, s1))"
| "visit_cte v (Cte name cols q) s = (let (q', s1) = visit_query v q s in (Cte name cols q', s1))"
| "visit_query v (Query ctes dist items src joins sel groups having obs lim) s =
     (let (ctes', s1) = map_state (visit_cte v) ctes s;
          (items', s2) = map_state (visit_item v) items s1;
          (src', s3) = option_state (visit_source v) src s2;
          (joins', s4) = map_state (visit_join v) joins s3;
          (sel', s5) = option_state (visit_expr v) sel s4;
          (groups', s6) = map_state (visit_expr v) groups s5;
          (having', s7) = option_state (visit_expr v) having s6;
          (obs', s8) = map_state (visit_order v) obs s7
      in (Query ctes' dist items' src' joins' sel' groups' having' obs' lim, s8))"

definition visit_constraint :: "'s visitor \<Rightarrow> table_constraint \<Rightarrow> 's \<Rightarrow> table_constraint \<times> 's" where
  "visit_constraint v c s = (case c of
     Check name e \<Rightarrow> (let (e', s1) = visit_expr v e s in (Check name e', s1)) | _ \<Rightarrow> (c, s))"

definition visit_column :: "'s visitor \<Rightarrow> column_def \<Rightarrow> 's \<Rightarrow> column_def \<times> 's" where
  "visit_column v c s = (let (checks, s1) = map_state (visit_expr v) (col_checks c) s
     in (c\<lparr>col_checks := checks\<rparr>, s1))"

definition visit_alter :: "'s visitor \<Rightarrow> alter_operation \<Rightarrow> 's \<Rightarrow> alter_operation \<times> 's" where
  "visit_alter v op s = (case op of
     AddColumn c cs b \<Rightarrow>
       (let (c', s1) = visit_column v c s; (cs', s2) = map_state (visit_constraint v) cs s1 in (AddColumn c' cs' b, s2))
   | ModifyColumn old c cs \<Rightarrow>
       (let (c', s1) = visit_column v c s; (cs', s2) = map_state (visit_constraint v) cs s1 in (ModifyColumn old c' cs', s2))
   | AddConstraint c \<Rightarrow> (let (c', s1) = visit_constraint v c s in (AddConstraint c', s1))
   | _ \<Rightarrow> (op, s))"

definition visit_assignment :: "'s visitor \<Rightarrow> string \<times> expr \<Rightarrow> 's \<Rightarrow> (string \<times> expr) \<times> 's" where
  "visit_assignment v a s = (let (e, s1) = visit_expr v (snd a) s in ((fst a, e), s1))"

fun visit_statement :: "'s visitor \<Rightarrow> statement \<Rightarrow> 's \<Rightarrow> statement \<times> 's" where
  "visit_statement v (CreateTable name columns constraints b) s =
     (let (columns', s1) = map_state (visit_column v) columns s;
          (constraints', s2) = map_state (visit_constraint v) constraints s1
      in (CreateTable name columns' constraints' b, s2))"
| "visit_statement v (AlterTable name operations) s =
     (let (ops, s1) = map_state (visit_alter v) operations s in (AlterTable name ops, s1))"
| "visit_statement v (Insert name columns source on_duplicate) s =
     (let (source', s1) = (case source of
             InsertValues rows \<Rightarrow> (let (rows', s1) = map_state (map_state (visit_expr v)) rows s in (InsertValues rows', s1))
           | InsertQuery q \<Rightarrow> (let (q', s1) = visit_query v q s in (InsertQuery q', s1)));
          (od, s2) = map_state (visit_assignment v) on_duplicate s1
      in (Insert name columns source' od, s2))"
| "visit_statement v (QueryStatement q) s = (let (q', s1) = visit_query v q s in (QueryStatement q', s1))"
| "visit_statement v (Update name assignments selection) s =
     (let (as, s1) = map_state (visit_assignment v) assignments s;
          (sel, s2) = option_state (visit_expr v) selection s1
      in (Update name as sel, s2))"
| "visit_statement v (Delete name selection) s =
     (let (sel, s1) = option_state (visit_expr v) selection s in (Delete name sel, s1))"
| "visit_statement v (Explain st) s = (let (st', s1) = visit_statement v st s in (Explain st', s1))"
| "visit_statement v other s = (other, s)"

section \<open>Numbering, counting and binding\<close>

definition assign_parameters :: "statement \<Rightarrow> statement" where
  "assign_parameters st = fst (visit_statement (\<lambda>i next. (Parameter next, next + 1)) st 0)"

definition parameter_count :: "statement \<Rightarrow> nat" where
  "parameter_count st =
     snd (visit_statement (\<lambda>i next. (Parameter i, max next (sat_add i 1))) st 0)"

definition bind_parameters :: "statement \<Rightarrow> val list \<Rightarrow> statement res" where
  "bind_parameters st vs =
     (let expected = parameter_count st in
      if length vs \<noteq> expected
      then Inl (Fail (''Expected '' @ show_nat expected @ '' parameters, got '' @ show_nat (length vs)))
      else Inr (fst (visit_statement (\<lambda>i s. (Literal (vs ! i), s)) st ())))"

section \<open>The parameters of a statement, in visiting order\<close>

definition parameters :: "statement \<Rightarrow> nat list" where
  "parameters st = snd (visit_statement (\<lambda>i acc. (Parameter i, acc @ [i])) st [])"

section \<open>What a visitor leaves behind\<close>

definition log_parameter :: "nat list visitor" where
  "log_parameter i acc = (Parameter i, acc @ [i])"

text \<open>
  \<open>f\<close> rewrites \<open>x\<close> from state \<open>s\<close> to \<open>s'\<close>, and collecting the parameters of what it leaves
  with \<open>g\<close> takes \<open>acc\<close> to \<open>acc'\<close>: the two runs are related.
\<close>

definition leaves_at ::
  "('s \<times> nat list \<Rightarrow> 's \<times> nat list \<Rightarrow> bool) \<Rightarrow> ('a \<Rightarrow> 's \<Rightarrow> 'b \<times> 's) \<Rightarrow>
   ('b \<Rightarrow> nat list \<Rightarrow> 'b \<times> nat list) \<Rightarrow> 'a \<Rightarrow> bool" where
  "leaves_at R f g x \<longleftrightarrow> (\<forall>s acc. fst (g (fst (f x s)) acc) = fst (f x s) \<and>
     R (s, acc) (snd (f x s), snd (g (fst (f x s)) acc)))"

definition pair_state ::
  "('a \<Rightarrow> 's \<Rightarrow> 'b \<times> 's) \<Rightarrow> ('c \<Rightarrow> 's \<Rightarrow> 'd \<times> 's) \<Rightarrow> 'a \<times> 'c \<Rightarrow> 's \<Rightarrow> ('b \<times> 'd) \<times> 's" where
  "pair_state f1 f2 x s = (let (y1, s1) = f1 (fst x) s; (y2, s2) = f2 (snd x) s1 in ((y1, y2), s2))"

lemma leaves_wrap:
  assumes "leaves_at R f g x" "\<And>s. F x' s = map_prod C id (f x s)"
    "\<And>y acc. G (C y) acc = map_prod C id (g y acc)"
  shows "leaves_at R F G x'"
  using assms by (simp add: leaves_at_def)

locale leaf_visitor =
  fixes v :: "'s visitor" and R :: "'s \<times> nat list \<Rightarrow> 's \<times> nat list \<Rightarrow> bool"
  assumes R_refl: "R p p"
    and R_trans: "R p q \<Longrightarrow> R q r \<Longrightarrow> R p r"
    and leaf: "leaves_at R v (visit_expr log_parameter) i"
begin

lemma leaves_pair:
  assumes "leaves_at R f1 g1 x1" "leaves_at R f2 g2 x2"
  shows "leaves_at R (pair_state f1 f2) (pair_state g1 g2) (x1, x2)"
  using assms unfolding leaves_at_def pair_state_def
  by (simp add: Let_def case_prod_beta) (blast intro: R_trans)

lemma leaves_map:
  assumes "\<And>x. x \<in> set xs \<Longrightarrow> leaves_at R f g x"
  shows "leaves_at R (map_state f) (map_state g) xs"
  using assms
proof (induction xs)
  case (Cons x xs)
  have "leaves_at R (pair_state f (map_state f)) (pair_state g (map_state g)) (x, xs)"
    using Cons by (intro leaves_pair) simp_all
  then show ?case
    by (rule leaves_wrap [where C = "\<lambda>(y, ys). y # ys"])
      (simp_all add: pair_state_def Let_def case_prod_beta)
qed (simp add: leaves_at_def R_refl)

lemma leaves_option:
  assumes "\<And>x. x \<in> set_option xs \<Longrightarrow> leaves_at R f g x"
  shows "leaves_at R (option_state f) (option_state g) xs"
  using assms by (cases xs) (auto simp: leaves_at_def R_refl Let_def case_prod_beta)

lemma leaves_id: "(\<And>s. f x s = (x, s)) \<Longrightarrow> (\<And>s. g x s = (x, s)) \<Longrightarrow> leaves_at R f g x"
  by (simp add: leaves_at_def R_refl)

lemmas leaves_intros = leaves_pair leaves_map leaves_option leaf

text \<open>A node with one or two visited parts.\<close>

lemma leaves_one:
  assumes "leaves_at R f g x" "\<And>s. F (C x) s = (let (y, s1) = f x s in (C y, s1))"
    "\<And>y acc. G (C y) acc = (let (z, s1) = g y acc in (C z, s1))"
  shows "leaves_at R F G (C x)"
proof (rule leaves_wrap [OF assms(1), where C = C])
  show "F (C x) s = map_prod C id (f x s)" for s
    unfolding assms(2) by (simp add: Let_def case_prod_beta prod_eq_iff)
  show "G (C y) acc = map_prod C id (g y acc)" for y acc
    unfolding assms(3) by (simp add: Let_def case_prod_beta prod_eq_iff)
qed

lemma leaves_two:
  assumes "leaves_at R f1 g1 x1" "leaves_at R f2 g2 x2"
    "\<And>s. F (C x1 x2) s = (let (y1, s1) = f1 x1 s; (y2, s2) = f2 x2 s1 in (C y1 y2, s2))"
    "\<And>y1 y2 s. G (C y1 y2) s = (let (z1, s1) = g1 y1 s; (z2, s2) = g2 y2 s1 in (C z1 z2, s2))"
  shows "leaves_at R F G (C x1 x2)"
  using leaves_pair [OF assms(1,2)]
  by (rule leaves_wrap [where C = "case_prod C"])
    (simp_all add: assms(3,4) pair_state_def Let_def case_prod_beta prod_eq_iff)

lemma leaves_query:
  fixes w :: "nat list visitor"
  defines "w \<equiv> log_parameter"
  assumes "leaves_at R (map_state (visit_cte v)) (map_state (visit_cte w)) ctes"
    "leaves_at R (map_state (visit_item v)) (map_state (visit_item w)) items"
    "leaves_at R (option_state (visit_source v)) (option_state (visit_source w)) src"
    "leaves_at R (map_state (visit_join v)) (map_state (visit_join w)) joins"
    "leaves_at R (option_state (visit_expr v)) (option_state (visit_expr w)) sel"
    "leaves_at R (map_state (visit_expr v)) (map_state (visit_expr w)) gs"
    "leaves_at R (option_state (visit_expr v)) (option_state (visit_expr w)) having"
    "leaves_at R (map_state (visit_order v)) (map_state (visit_order w)) obs"
  shows "leaves_at R (visit_query v) (visit_query w) (Query ctes dist items src joins sel gs having obs lim)"
  using leaves_pair [OF assms(2) leaves_pair [OF assms(3) leaves_pair [OF assms(4) leaves_pair [OF assms(5)
      leaves_pair [OF assms(6) leaves_pair [OF assms(7) leaves_pair [OF assms(8,9)]]]]]]]
  by (rule leaves_wrap [where C = "\<lambda>(ctes, items, src, joins, sel, gs, having, obs).
        Query ctes dist items src joins sel gs having obs lim"])
    (simp_all add: pair_state_def Let_def case_prod_beta prod_eq_iff)

lemma leaves_exprs:
  shows leaves_expr: "leaves_at R (visit_expr v) (visit_expr log_parameter) e"
    and leaves_item: "leaves_at R (visit_item v) (visit_item log_parameter) it"
    and leaves_source: "leaves_at R (visit_source v) (visit_source log_parameter) src"
    and leaves_join: "leaves_at R (visit_join v) (visit_join log_parameter) j"
    and leaves_order: "leaves_at R (visit_order v) (visit_order log_parameter) ob"
    and leaves_cte: "leaves_at R (visit_cte v) (visit_cte log_parameter) ct"
    and leaves_subquery: "leaves_at R (visit_query v) (visit_query log_parameter) q"
proof (induction e and it and src and j and ob and ct and q)
  case (Binary l op r)
  then show ?case by (rule leaves_two [where C = "\<lambda>l r. Binary l op r"]) simp_all
next
  case (Unary op e)
  then show ?case by (rule leaves_one [where C = "Unary op"]) simp_all
next
  case (IsNull e b)
  then show ?case by (rule leaves_one [where C = "\<lambda>e. IsNull e b"]) simp_all
next
  case (Like e p b)
  then show ?case by (rule leaves_two [where C = "\<lambda>l r. Like l r b"]) simp_all
next
  case (InList e es b)
  from InList.IH(1) leaves_map [OF InList.IH(2)] show ?case
    by (rule leaves_two [where C = "\<lambda>l r. InList l r b"]) simp_all
next
  case (InSubquery e q b)
  then show ?case by (rule leaves_two [where C = "\<lambda>l r. InSubquery l r b"]) simp_all
next
  case (Exists q b)
  then show ?case by (rule leaves_one [where C = "\<lambda>q. Exists q b"]) simp_all
next
  case (ScalarSubquery q)
  then show ?case by (rule leaves_one [where C = ScalarSubquery]) simp_all
next
  case (Aggregate f e d)
  from leaves_option [OF Aggregate.IH] show ?case
    by (rule leaves_one [where C = "\<lambda>e. Aggregate f e d"]) simp_all
next
  case (Parameter i)
  show ?case using leaf [of i] by (simp add: leaves_at_def)
next
  case (SelectExpr e n)
  then show ?case by (rule leaves_one [where C = "\<lambda>e. SelectExpr e n"]) simp_all
next
  case (Derived q n)
  then show ?case by (rule leaves_one [where C = "\<lambda>q. Derived q n"]) simp_all
next
  case (Join k t on)
  from Join.IH(1) leaves_option [OF Join.IH(2)] show ?case
    by (rule leaves_two [where C = "\<lambda>l r. Join k l r"]) simp_all
next
  case (OrderBy e d)
  then show ?case by (rule leaves_one [where C = "\<lambda>e. OrderBy e d"]) simp_all
next
  case (Cte n cs q)
  then show ?case by (rule leaves_one [where C = "Cte n cs"]) simp_all
next
  case (Query ctes dist items src joins sel gs having obs lim)
  then show ?case by (intro leaves_query leaves_map leaves_option)
qed (simp_all add: leaves_id)

lemma leaves_constraint: "leaves_at R (visit_constraint v) (visit_constraint log_parameter) c"
proof (cases c)
  case (Check n e)
  show ?thesis unfolding Check
    by (rule leaves_one [OF leaves_expr, where C = "Check n"]) (simp_all add: visit_constraint_def)
qed (simp_all add: leaves_id visit_constraint_def)

lemma leaves_column: "leaves_at R (visit_column v) (visit_column log_parameter) c"
proof -
  have "leaves_at R (map_state (visit_expr v)) (map_state (visit_expr log_parameter)) (col_checks c)"
    by (intro leaves_map leaves_expr)
  then show ?thesis
    by (rule leaves_wrap [where C = "\<lambda>ch. c\<lparr>col_checks := ch\<rparr>"])
      (simp_all add: visit_column_def Let_def case_prod_beta prod_eq_iff)
qed

lemma leaves_alter: "leaves_at R (visit_alter v) (visit_alter log_parameter) a"
proof (cases a)
  case (AddColumn c cs b)
  show ?thesis unfolding AddColumn
    by (rule leaves_two [OF leaves_column leaves_map, where C = "\<lambda>c cs. AddColumn c cs b"])
      (simp_all add: leaves_constraint visit_alter_def)
next
  case (ModifyColumn old c cs)
  show ?thesis unfolding ModifyColumn
    by (rule leaves_two [OF leaves_column leaves_map, where C = "ModifyColumn old"])
      (simp_all add: leaves_constraint visit_alter_def)
next
  case (AddConstraint c)
  show ?thesis unfolding AddConstraint
    by (rule leaves_one [OF leaves_constraint]) (simp_all add: visit_alter_def)
qed (simp_all add: leaves_id visit_alter_def)

lemma leaves_assignment: "leaves_at R (visit_assignment v) (visit_assignment log_parameter) a"
  using leaves_expr [of "snd a"]
  by (rule leaves_wrap [where C = "Pair (fst a)"])
    (simp_all add: visit_assignment_def Let_def case_prod_beta prod_eq_iff)

lemma leaves_statement: "leaves_at R (visit_statement v) (visit_statement log_parameter) st"
proof (induction st)
  case (CreateTable name columns constraints b)
  show ?case
    by (rule leaves_two [OF leaves_map leaves_map, where C = "\<lambda>c cs. CreateTable name c cs b"])
      (simp_all add: leaves_column leaves_constraint)
next
  case (AlterTable name ops)
  show ?case by (rule leaves_one [OF leaves_map, where C = "AlterTable name"]) (simp_all add: leaves_alter)
next
  case (Insert name cols source od)
  have od: "leaves_at R (map_state (visit_assignment v)) (map_state (visit_assignment log_parameter)) od"
    by (intro leaves_map leaves_assignment)
  show ?case
  proof (cases source)
    case (InsertValues rows)
    have "leaves_at R (map_state (map_state (visit_expr v))) (map_state (map_state (visit_expr log_parameter))) rows"
      by (intro leaves_map leaves_expr)
    from this od show ?thesis unfolding InsertValues
      by (rule leaves_two [where C = "\<lambda>rows od. Insert name cols (InsertValues rows) od"])
        (simp_all add: Let_def case_prod_beta)
  next
    case (InsertQuery q)
    from leaves_subquery od show ?thesis unfolding InsertQuery
      by (rule leaves_two [where C = "\<lambda>q od. Insert name cols (InsertQuery q) od"])
        (simp_all add: Let_def case_prod_beta)
  qed
next
  case (QueryStatement q)
  show ?case by (rule leaves_one [OF leaves_subquery]) simp_all
next
  case (Update name as sel)
  show ?case
    by (rule leaves_two [OF leaves_map leaves_option, where C = "Update name"])
      (simp_all add: leaves_assignment leaves_expr)
next
  case (Delete name sel)
  show ?case by (rule leaves_one [OF leaves_option, where C = "Delete name"]) (simp_all add: leaves_expr)
next
  case (Explain st)
  then show ?case by (rule leaves_one [where C = Explain]) simp_all
qed (simp_all add: leaves_id)

end

section \<open>Numbering and binding\<close>

lemma upt_append: "i \<le> j \<Longrightarrow> j \<le> k \<Longrightarrow> [i..<j] @ [j..<k] = [i..<k]"
  using upt_add_eq_append [of i j "k - j"] by simp

interpretation numbering: leaf_visitor "\<lambda>i next. (Parameter next, next + 1)"
  "\<lambda>p q. fst p \<le> fst q \<and> snd q = snd p @ [fst p..<fst q]"
  by unfold_locales (auto simp: leaves_at_def log_parameter_def upt_append)

interpretation binding: leaf_visitor "\<lambda>i s. (Literal (vs ! i), s)" "\<lambda>p q. snd q = snd p" for vs
  by unfold_locales (simp_all add: leaves_at_def)

interpretation collecting: leaf_visitor "\<lambda>i s. (Parameter i, g i s)"
  "\<lambda>p q. \<exists>ps. snd q = snd p @ ps \<and> fst q = fold g ps (fst p)" for g
proof
  fix p q r :: "'a \<times> nat list"
  assume "\<exists>ps. snd q = snd p @ ps \<and> fst q = fold g ps (fst p)" "\<exists>ps. snd r = snd q @ ps \<and> fst r = fold g ps (fst q)"
  then obtain ps qs where "snd q = snd p @ ps" "fst q = fold g ps (fst p)" "snd r = snd q @ qs" "fst r = fold g qs (fst q)"
    by blast
  then have "snd r = snd p @ (ps @ qs) \<and> fst r = fold g (ps @ qs) (fst p)" by simp
  then show "\<exists>ps. snd r = snd p @ ps \<and> fst r = fold g ps (fst p)" by blast
next
  fix i
  show "leaves_at (\<lambda>p q. \<exists>ps. snd q = snd p @ ps \<and> fst q = fold g ps (fst p)) (\<lambda>i s. (Parameter i, g i s))
      (visit_expr log_parameter) i"
    by (auto simp: leaves_at_def log_parameter_def intro: exI [of _ "[i]"])
qed simp

lemma parameters_log: "parameters st = snd (visit_statement log_parameter st [])"
  by (simp add: parameters_def log_parameter_def [abs_def])

text \<open>A visitor that puts every parameter back leaves the statement as it is.\<close>

lemma map_state_same: "(\<And>x s. x \<in> set xs \<Longrightarrow> fst (f x s) = x) \<Longrightarrow> fst (map_state f xs s) = xs"
  by (induction xs arbitrary: s) (auto simp: Let_def case_prod_beta)

lemma option_state_same: "(\<And>x s. xs = Some x \<Longrightarrow> fst (f x s) = x) \<Longrightarrow> fst (option_state f xs s) = xs"
  by (cases xs) (auto simp: Let_def case_prod_beta)

lemmas same_simps = Let_def case_prod_beta map_state_same option_state_same

lemma visit_exprs_same:
  fixes g :: "nat \<Rightarrow> 's \<Rightarrow> 's"
  defines "v \<equiv> \<lambda>i s. (Parameter i, g i s)"
  shows "\<And>s. fst (visit_expr v e s) = e" and "\<And>s. fst (visit_item v it s) = it"
    and "\<And>s. fst (visit_source v src s) = src" and "\<And>s. fst (visit_join v j s) = j"
    and "\<And>s. fst (visit_order v ob s) = ob" and "\<And>s. fst (visit_cte v ct s) = ct"
    and "\<And>s. fst (visit_query v q s) = q"
  by (induction e and it and src and j and ob and ct and q)
    (auto simp: v_def Let_def case_prod_beta intro!: map_state_same option_state_same)

lemma visit_statement_same: "fst (visit_statement (\<lambda>i s. (Parameter i, g i s)) st s) = st"
proof -
  have constraint: "fst (visit_constraint (\<lambda>i s. (Parameter i, g i s)) c s) = c" for c s
    by (cases c) (simp_all add: visit_constraint_def same_simps visit_exprs_same)
  have column: "fst (visit_column (\<lambda>i s. (Parameter i, g i s)) c s) = c" for c s
    by (simp add: visit_column_def same_simps visit_exprs_same)
  have alter: "fst (visit_alter (\<lambda>i s. (Parameter i, g i s)) a s) = a" for a s
    by (cases a) (simp_all add: visit_alter_def same_simps constraint column)
  have assignment: "fst (visit_assignment (\<lambda>i s. (Parameter i, g i s)) a s) = a" for a s
    by (simp add: visit_assignment_def same_simps visit_exprs_same)
  show ?thesis
    by (induction st arbitrary: s)
      (simp_all add: same_simps visit_exprs_same constraint column alter assignment split: insert_source.split)
qed

lemma visit_fold:
  "snd (visit_statement (\<lambda>i s. (Parameter i, g i s)) st s) = fold g (parameters st) s"
  using collecting.leaves_statement [of g st, unfolded leaves_at_def] unfolding parameters_log
  by (metis append_Nil fst_conv snd_conv visit_statement_same)

lemma parameter_count_fold: "parameter_count st = fold (\<lambda>i n. max n (sat_add i 1)) (parameters st) 0"
  by (simp add: parameter_count_def visit_fold)

lemma fold_max_ge: "n \<le> fold (\<lambda>i n. max n (sat_add i 1)) ps n"
proof (induction ps arbitrary: n)
  case (Cons p ps)
  show ?case using Cons [of "max n (sat_add p 1)"] by simp
qed simp

lemma fold_max_mem: "i \<in> set ps \<Longrightarrow> sat_add i 1 \<le> fold (\<lambda>i n. max n (sat_add i 1)) ps n"
proof (induction ps arbitrary: n)
  case (Cons p ps)
  then show ?case using fold_max_ge [of "max n (sat_add p 1)" ps] by auto
qed simp

text \<open>Every parameter has a value to be bound to, so that binding cannot index out of bounds.\<close>

lemma parameter_in_range: "i \<in> set (parameters st) \<Longrightarrow> i < u64_max \<Longrightarrow> i < parameter_count st"
  using fold_max_mem [of i "parameters st" 0] by (simp add: parameter_count_fold sat_add_def)

lemma assigned_parameters: "parameters (assign_parameters st) = [0..<length (parameters (assign_parameters st))]"
proof -
  from numbering.leaves_statement [of st, unfolded leaves_at_def]
  have "parameters (assign_parameters st) = [0..<snd (visit_statement (\<lambda>i next. (Parameter next, next + 1)) st 0)]"
    unfolding parameters_log assign_parameters_def by (metis append_Nil fst_conv snd_conv)
  then show ?thesis by simp
qed

lemma bound_no_parameters: "bind_parameters st vs = Inr st' \<Longrightarrow> parameters st' = []"
  using binding.leaves_statement [of vs st, unfolded leaves_at_def]
  by (auto simp: bind_parameters_def parameters_log Let_def split: if_splits)


lemma count_upt: "n \<le> u64_max \<Longrightarrow> fold (\<lambda>i n. max n (sat_add i 1)) [0..<n] 0 = n"
  by (induction n) (simp_all add: sat_add_def)

lemma assigned_count:
  "length (parameters (assign_parameters st)) \<le> u64_max \<Longrightarrow>
   parameter_count (assign_parameters st) = length (parameters (assign_parameters st))"
  by (metis assigned_parameters count_upt parameter_count_fold)

end
