(* ===== verification/SqlText.thy ===== *)
theory SqlText
  imports Params
begin

text \<open>
  The text side of \<^verbatim>\<open>src/src/sql/parser.rs\<close> (lines 139 to 273 and 440 to 477): \<open>parse_sql\<close>
  with its trimming, the statements RustyDB recognises itself, and the literals of user
  variables; \<open>Value::parse\<close> of \<^verbatim>\<open>src/src/sql/types.rs\<close>; the \<open>str\<close> functions they use. The
  rest of the grammar is the argument \<open>front\<close>: the \<open>sqlparser\<close> package and the conversion
  of its syntax tree, which is \<open>sql_front\<close> of \<open>Convert\<close>. The lemmas show that \<open>parse_sql\<close> does not depend on the blanks and
  semicolons around a statement, that quoting and \<open>parse_quoted_string\<close> are inverse, that
  decimal integers read back, and where slicing a string panics.
\<close>

section \<open>Functions on strings\<close>

text \<open>\<open>char::is_whitespace\<close> on the ASCII range.\<close>

definition is_white :: "char \<Rightarrow> bool" where
  "is_white c \<longleftrightarrow> (of_char c :: nat) \<in> {9, 10, 11, 12, 13, 32}"

definition trim_start :: "(char \<Rightarrow> bool) \<Rightarrow> string \<Rightarrow> string" where
  "trim_start p s = dropWhile p s"

definition trim_end :: "(char \<Rightarrow> bool) \<Rightarrow> string \<Rightarrow> string" where
  "trim_end p s = rev (dropWhile p (rev s))"

definition trim :: "string \<Rightarrow> string" where
  "trim s = trim_end is_white (trim_start is_white s)"

definition trim_matches :: "(char \<Rightarrow> bool) \<Rightarrow> string \<Rightarrow> string" where
  "trim_matches p s = trim_end p (trim_start p s)"

function split_words :: "string \<Rightarrow> string list" where
  "split_words s = (case dropWhile is_white s of [] \<Rightarrow> []
     | c # cs \<Rightarrow> (c # takeWhile (\<lambda>x. \<not> is_white x) cs) # split_words (dropWhile (\<lambda>x. \<not> is_white x) cs))"
  by pat_completeness auto
termination
proof (relation "measure length")
  fix s :: string and c cs
  assume "dropWhile is_white s = c # cs"
  then have "length (c # cs) \<le> length s" by (metis length_dropWhile_le)
  then show "(dropWhile (\<lambda>x. \<not> is_white x) cs, s) \<in> measure length"
    using length_dropWhile_le [of "\<lambda>x. \<not> is_white x" cs] by simp
qed simp

declare split_words.simps [simp del]

fun find_from :: "nat \<Rightarrow> string \<Rightarrow> string \<Rightarrow> nat option" where
  "find_from n pat [] = (if pat = [] then Some n else None)"
| "find_from n pat (c # cs) =
     (if take (length pat) (c # cs) = pat then Some n else find_from (Suc n) pat cs)"

definition find_str :: "string \<Rightarrow> string \<Rightarrow> nat option" where
  "find_str pat s = find_from 0 pat s"

fun split_char :: "char \<Rightarrow> string \<Rightarrow> string list" where
  "split_char d [] = [[]]"
| "split_char d (c # cs) =
     (if c = d then [] # split_char d cs
      else case split_char d cs of [] \<Rightarrow> [[c]] | p # ps \<Rightarrow> (c # p) # ps)"

fun replace_quotes :: "string \<Rightarrow> string" where
  "replace_quotes (a # b # s) = (if a = CHR 0x27 \<and> b = CHR 0x27 then a # replace_quotes s else a # replace_quotes (b # s))"
| "replace_quotes s = s"

definition char_upper :: "char \<Rightarrow> char" where
  "char_upper c = (let n = of_char c :: nat in if 97 \<le> n \<and> n \<le> 122 then char_of (n - 32) else c)"

definition to_ascii_uppercase :: "string \<Rightarrow> string" where
  "to_ascii_uppercase s = map char_upper s"

text \<open>
  \<open>&s[..n]\<close> and \<open>&s[n..]\<close>: a panic unless \<open>n\<close> is the start of a character, which in UTF-8
  every byte is but the continuation bytes \<open>0x80\<close> to \<open>0xBF\<close>.
\<close>

definition is_char_boundary :: "string \<Rightarrow> nat \<Rightarrow> bool" where
  "is_char_boundary s n \<longleftrightarrow> n = 0 \<or> n = length s \<or>
     n < length s \<and> ((of_char (s ! n) :: nat) < 128 \<or> 192 \<le> (of_char (s ! n) :: nat))"

definition slice_to :: "string \<Rightarrow> nat \<Rightarrow> string res" where
  "slice_to s n = (if is_char_boundary s n then Inr (take n s) else Inl (Panic ''byte index is not a char boundary''))"

definition slice_from :: "string \<Rightarrow> nat \<Rightarrow> string res" where
  "slice_from s n = (if is_char_boundary s n then Inr (drop n s) else Inl (Panic ''byte index is not a char boundary''))"

section \<open>Reading numbers\<close>

definition i64_in_range :: "int \<Rightarrow> bool" where
  "i64_in_range i \<longleftrightarrow> - (2 ^ 63) \<le> i \<and> i < 2 ^ 63"

definition read_sign :: "string \<Rightarrow> bool \<times> string" where
  "read_sign s = (case s of [] \<Rightarrow> (False, [])
     | c # cs \<Rightarrow> if c = CHR ''-'' then (True, cs) else if c = CHR ''+'' then (False, cs) else (False, s))"

definition all_digits :: "string \<Rightarrow> bool" where
  "all_digits s \<longleftrightarrow> s \<noteq> [] \<and> list_all is_digit s"

text \<open>\<open>str::parse::<i64>\<close>.\<close>

definition parse_i64 :: "string \<Rightarrow> i64 option" where
  "parse_i64 s = (case read_sign s of (neg, ds) \<Rightarrow>
     if \<not> all_digits ds then None
     else let i = (if neg then - int (read_nat ds) else int (read_nat ds)) in
       if i64_in_range i then Some (of_int i) else None)"

text \<open>\<open>str::parse::<f64>\<close>: the nearest double of the decimal, or a named special value.\<close>

definition parse_exponent :: "string \<Rightarrow> int option" where
  "parse_exponent s = (case s of [] \<Rightarrow> Some 0
     | c # cs \<Rightarrow> if c = CHR ''e'' \<or> c = CHR ''E'' then
         (case read_sign cs of (neg, ds) \<Rightarrow> if all_digits ds
            then Some (if neg then - int (read_nat ds) else int (read_nat ds)) else None)
       else None)"

definition decimal_f64 :: "bool \<Rightarrow> string \<Rightarrow> int \<Rightarrow> f64" where
  "decimal_f64 neg digits ex = (let n = read_nat digits; q = scale10 ex (n, 1) in
     if n = 0 then f64_make neg 0 else f64_round neg (fst q) (snd q))"

definition parse_f64 :: "string \<Rightarrow> f64 option" where
  "parse_f64 s = (case read_sign s of (neg, r) \<Rightarrow>
     let low = to_ascii_lowercase r;
         whole = takeWhile is_digit r;
         r1 = dropWhile is_digit r;
         dot = (case r1 of c # _ \<Rightarrow> c = CHR ''.'' | [] \<Rightarrow> False);
         r2 = (if dot then tl r1 else r1);
         frac = (if dot then takeWhile is_digit r2 else []);
         r3 = (if dot then dropWhile is_digit r2 else r2)
     in if low = ''inf'' \<or> low = ''infinity'' then Some (f64_inf neg)
        else if low = ''nan'' then Some (if neg then f64_neg f64_nan else f64_nan)
        else if whole = [] \<and> frac = [] then None
        else map_option (\<lambda>ex. decimal_f64 neg (whole @ frac) (ex - int (length frac))) (parse_exponent r3))"

text \<open>\<open>Value::parse\<close>.\<close>

definition value_parse :: "string \<Rightarrow> data_type \<Rightarrow> val option" where
  "value_parse s dt = (case dt of
     DInteger \<Rightarrow> map_option VInteger (parse_i64 s)
   | DFloat \<Rightarrow> map_option VFloat (parse_f64 s)
   | DText \<Rightarrow> Some (VText s)
   | DBoolean \<Rightarrow> (let low = to_ascii_lowercase s in
       if low = ''true'' \<or> low = ''1'' \<or> low = ''yes'' then Some (VBoolean True)
       else if low = ''false'' \<or> low = ''0'' \<or> low = ''no'' then Some (VBoolean False) else None)
   | DNull \<Rightarrow> Some VNull)"

section \<open>RustyDB's own statements\<close>

definition clean_identifier :: "string \<Rightarrow> string" where
  "clean_identifier s = to_ascii_lowercase
     (trim_matches (\<lambda>c. c = CHR 0x60 \<or> c = CHR 0x22 \<or> c = CHR 0x27 \<or> c = CHR '';'') s)"

definition clean_variable :: "string \<Rightarrow> string" where
  "clean_variable s = to_ascii_lowercase
     (trim (trim_end (\<lambda>c. c = CHR '':'') (trim_start (\<lambda>c. c = CHR ''@'') (trim s))))"

definition parse_quoted_string :: "string \<Rightarrow> string res" where
  "parse_quoted_string s = (let v = trim s in
     if length v < 2 \<or> hd v \<noteq> CHR 0x27 \<or> last v \<noteq> CHR 0x27
     then Inl (Fail ''Expected a single-quoted SQL string'')
     else Inr (replace_quotes (butlast (tl v))))"

definition parse_user_literal :: "string \<Rightarrow> val res" where
  "parse_user_literal s =
     (if eq_ignore_ascii_case s ''NULL'' then Inr VNull
      else if eq_ignore_ascii_case s ''TRUE'' then Inr (VBoolean True)
      else if eq_ignore_ascii_case s ''FALSE'' then Inr (VBoolean False)
      else if s \<noteq> [] \<and> hd s = CHR 0x27 then rbind (parse_quoted_string s) (\<lambda>t. Inr (VText t))
      else if CHR ''.'' \<in> set s \<or> CHR ''e'' \<in> set s \<or> CHR ''E'' \<in> set s
      then ok_or (map_option VFloat (parse_f64 s)) ''SET user variables require a literal value''
      else ok_or (map_option VInteger (parse_i64 s)) ''SET user variables require a literal value'')"

definition word_is :: "string list \<Rightarrow> nat \<Rightarrow> string \<Rightarrow> bool" where
  "word_is ws i w \<longleftrightarrow> i < length ws \<and> eq_ignore_ascii_case (ws ! i) w"

definition has_prefix :: "string \<Rightarrow> string \<Rightarrow> bool res" where
  "has_prefix sql prefix =
     (if length prefix \<le> length sql
      then rbind (slice_to sql (length prefix)) (\<lambda>s. Inr (eq_ignore_ascii_case s prefix))
      else Inr False)"

definition mysql_drop_constraint :: "string list \<Rightarrow> bool" where
  "mysql_drop_constraint ws \<longleftrightarrow> 6 \<le> length ws \<and> word_is ws 0 ''ALTER'' \<and> word_is ws 1 ''TABLE'' \<and>
     word_is ws 3 ''DROP'' \<and>
     (length ws = 7 \<and> word_is ws 4 ''FOREIGN'' \<and> word_is ws 5 ''KEY'' \<or>
      length ws = 6 \<and> (word_is ws 4 ''CHECK'' \<or> word_is ws 4 ''INDEX''))"

definition split_once :: "char \<Rightarrow> string \<Rightarrow> (string \<times> string) option" where
  "split_once d s = (if d \<in> set s
     then Some (takeWhile (\<lambda>c. c \<noteq> d) s, tl (dropWhile (\<lambda>c. c \<noteq> d) s)) else None)"

definition parse_set_variable :: "string \<Rightarrow> statement option res" where
  "parse_set_variable sql = (case split_once CHR ''='' (trim (drop 4 sql)) of
     None \<Rightarrow> Inr None
   | Some (name, v) \<Rightarrow>
       if trim name \<noteq> [] \<and> hd (trim name) = CHR ''@''
       then rbind (parse_user_literal (trim v)) (\<lambda>w. Inr (Some (SetVariable (clean_variable name) w)))
       else Inr None)"

definition parse_prepare :: "string \<Rightarrow> statement res" where
  "parse_prepare sql = (let rest = trim (drop 8 sql) in
     rbind (ok_or (find_str '' FROM '' (to_ascii_uppercase rest)) ''PREPARE requires FROM'') (\<lambda>offset.
       let name = clean_identifier (trim (take offset rest));
           source = trim (drop (offset + 6) rest)
       in if source \<noteq> [] \<and> hd source = CHR ''@''
          then Inr (Prepare name (PrepareVariable (clean_variable source)))
          else rbind (parse_quoted_string source) (\<lambda>s. Inr (Prepare name (PrepareSql s)))))"

definition parse_execute :: "string \<Rightarrow> statement" where
  "parse_execute sql = (let rest = trim (drop 8 sql) in
     case find_str '' USING '' (to_ascii_uppercase rest) of
       Some offset \<Rightarrow> ExecutePrepared (clean_identifier (take offset rest))
         (map clean_variable (split_char CHR '','' (drop (offset + 7) rest)))
     | None \<Rightarrow> ExecutePrepared (clean_identifier rest) [])"

definition parse_show_or_drop_index :: "string list \<Rightarrow> statement option res" where
  "parse_show_or_drop_index ws =
     (if 3 \<le> length ws \<and> word_is ws 0 ''SHOW'' \<and>
         (word_is ws 1 ''INDEX'' \<or> word_is ws 1 ''INDEXES'' \<or> word_is ws 1 ''KEYS'') \<and>
         (word_is ws 2 ''FROM'' \<or> word_is ws 2 ''ON'')
      then rbind (ok_or (get ws 3) ''SHOW INDEXES requires a table name'') (\<lambda>t.
             Inr (Some (ShowIndexes (clean_identifier t))))
      else if 5 \<le> length ws \<and> word_is ws 0 ''DROP'' \<and> word_is ws 1 ''INDEX''
      then let if_exists = (word_is ws 2 ''IF'' \<and> word_is ws 3 ''EXISTS'');
               offset = (if if_exists then 4 else 2)
           in rbind (ok_or (get ws offset) ''DROP INDEX requires an index name'') (\<lambda>name.
                if \<not> word_is ws (offset + 1) ''ON'' then Inr None
                else rbind (ok_or (get ws (offset + 2)) ''DROP INDEX requires ON <table>'') (\<lambda>t.
                       Inr (Some (DropIndex (clean_identifier name) (clean_identifier t) if_exists))))
      else Inr None)"

definition parse_rustydb_extension :: "string \<Rightarrow> statement option res" where
  "parse_rustydb_extension sql = (let ws = split_words sql in
     if mysql_drop_constraint ws
     then Inr (Some (AlterTable (clean_identifier (ws ! 2)) [DropConstraint (clean_identifier (last ws)) False]))
     else rbind (has_prefix sql ''SET '') (\<lambda>is_set.
       rbind (if is_set then parse_set_variable sql else Inr None) (\<lambda>found.
         if found \<noteq> None then Inr found
         else rbind (has_prefix sql ''PREPARE '') (\<lambda>is_prepare.
           if is_prepare then rbind (parse_prepare sql) (\<lambda>s. Inr (Some s))
           else rbind (has_prefix sql ''EXECUTE '') (\<lambda>is_execute.
             if is_execute then Inr (Some (parse_execute sql))
             else rbind (has_prefix sql ''DEALLOCATE PREPARE '') (\<lambda>is_deallocate.
               if is_deallocate then Inr (Some (DeallocatePrepared (clean_identifier (drop 19 sql))))
               else rbind (has_prefix sql ''DROP PREPARE '') (\<lambda>is_drop.
                 if is_drop then Inr (Some (DeallocatePrepared (clean_identifier (drop 13 sql))))
                 else parse_show_or_drop_index ws)))))))"

definition normalize_sql :: "string \<Rightarrow> string" where
  "normalize_sql s = trim (trim_end (\<lambda>c. c = CHR '';'') (trim s))"

definition parse_sql :: "(string \<Rightarrow> statement res) \<Rightarrow> string \<Rightarrow> statement res" where
  "parse_sql front input = (let trimmed = normalize_sql input in
     if trimmed = [] then Inl (Fail ''Empty statement'')
     else rbind (parse_rustydb_extension trimmed) (\<lambda>ext. case ext of
       Some st \<Rightarrow> Inr st
     | None \<Rightarrow> rbind (front trimmed) (\<lambda>st. Inr (assign_parameters st))))"

section \<open>Trimming\<close>

lemma dropWhile_all_append: "(\<And>c. c \<in> set w \<Longrightarrow> p c) \<Longrightarrow> dropWhile p (w @ s) = dropWhile p s"
  by (induction w) auto

lemma trim_end_append: "(\<And>c. c \<in> set w \<Longrightarrow> p c) \<Longrightarrow> trim_end p (s @ w) = trim_end p s"
  using dropWhile_all_append [of "rev w" p "rev s"] by (simp add: trim_end_def)

lemma trim_end_id: "s = [] \<or> \<not> p (last s) \<Longrightarrow> trim_end p s = s"
  by (cases s rule: rev_cases) (auto simp: trim_end_def)

lemma trim_start_id: "s = [] \<or> \<not> p (hd s) \<Longrightarrow> trim_start p s = s"
  by (cases s) (auto simp: trim_start_def)

definition blank :: "string \<Rightarrow> bool" where
  "blank s \<longleftrightarrow> (\<forall>c \<in> set s. is_white c)"

lemma trim_core:
  assumes "blank w1" "blank w2" "core \<noteq> []" "\<not> is_white (hd core)" "\<not> is_white (last core)"
  shows "trim (w1 @ core @ w2) = core"
proof -
  have "trim_start is_white (w1 @ core @ w2) = core @ w2"
    using assms by (cases core) (auto simp: trim_start_def blank_def dropWhile_all_append)
  with assms show ?thesis by (simp add: trim_def trim_end_append blank_def trim_end_id)
qed

lemma semicolon_not_white: "\<not> is_white CHR '';''"
  by (simp add: is_white_def)

text \<open>A statement between blanks, with semicolons after it.\<close>

lemma normalize_core:
  assumes "blank w1" "blank w2" "blank w3" "core \<noteq> []" "\<not> is_white (hd core)"
    "\<not> is_white (last core)" "last core \<noteq> CHR '';''"
  shows "normalize_sql (w1 @ core @ w2 @ replicate n CHR '';'' @ w3) = core"
proof (cases "n = 0")
  case True
  with assms have "trim (w1 @ core @ w2 @ replicate n CHR '';'' @ w3) = core"
    using trim_core [of w1 "w2 @ w3" core] by (auto simp: blank_def)
  with assms show ?thesis
    using trim_core [of "[]" "[]" core] by (simp add: normalize_sql_def trim_end_id blank_def)
next
  case False
  then have last: "last (core @ w2 @ replicate n CHR '';'') = CHR '';''" by (cases n) (auto simp: replicate_append_same [symmetric])
  have "trim (w1 @ core @ w2 @ replicate n CHR '';'' @ w3) = core @ w2 @ replicate n CHR '';''"
    using assms last trim_core [of w1 w3 "core @ w2 @ replicate n CHR '';''"] by (simp add: semicolon_not_white)
  moreover have "trim (trim_end (\<lambda>c. c = CHR '';'') ((core @ w2) @ replicate n CHR '';'')) = core"
  proof -
    have "last (core @ w2) \<noteq> CHR '';''"
      using assms semicolon_not_white by (cases w2 rule: rev_cases) (auto simp: blank_def)
    then have "trim_end (\<lambda>c. c = CHR '';'') ((core @ w2) @ replicate n CHR '';'') = core @ w2"
      using assms by (subst trim_end_append) (auto intro: trim_end_id)
    with assms show ?thesis using trim_core [of "[]" w2 core] by (simp add: blank_def)
  qed
  ultimately show ?thesis by (simp add: normalize_sql_def)
qed

lemma parse_sql_core:
  assumes "blank w1" "blank w2" "blank w3" "core \<noteq> []" "\<not> is_white (hd core)"
    "\<not> is_white (last core)" "last core \<noteq> CHR '';''"
  shows "parse_sql front (w1 @ core @ w2 @ replicate n CHR '';'' @ w3) = parse_sql front core"
proof -
  have "normalize_sql core = core"
    using normalize_core [of "[]" "[]" "[]" core 0] assms by (simp add: blank_def)
  with normalize_core [OF assms, of n] show ?thesis by (simp add: parse_sql_def)
qed

lemma trim_idem [simp]: "trim (trim s) = trim s"
proof (cases "trim s = []")
  case True
  moreover have "trim [] = []" by (simp add: trim_def trim_start_def trim_end_def)
  ultimately show ?thesis by simp
next
  case False
  let ?a = "dropWhile is_white s"
  have split: "trim s = rev (dropWhile is_white (rev ?a))" by (simp add: trim_def trim_start_def trim_end_def)
  with False have ne: "dropWhile is_white (rev ?a) \<noteq> []" by auto
  then have last: "\<not> is_white (last (trim s))"
    unfolding split by (simp add: last_rev hd_dropWhile)
  have "?a = trim s @ rev (takeWhile is_white (rev ?a))"
    unfolding split by (metis rev_append rev_rev_ident takeWhile_dropWhile_id)
  then have "hd (trim s) = hd ?a" using False by (metis hd_append2)
  moreover have "?a \<noteq> []" using ne by (metis dropWhile.simps(1) rev.simps(1))
  ultimately have "\<not> is_white (hd (trim s))" by (metis hd_dropWhile)
  with last False show ?thesis using trim_core [of "[]" "[]" "trim s"] by (simp add: blank_def)
qed

lemma trim_empty_iff: "trim s = [] \<longleftrightarrow> blank s"
proof
  assume "trim s = []"
  then have "\<forall>c \<in> set (dropWhile is_white s). is_white c"
    by (auto simp: trim_def trim_start_def trim_end_def dropWhile_eq_Nil_conv)
  moreover have "dropWhile is_white s \<noteq> [] \<Longrightarrow> \<not> is_white (hd (dropWhile is_white s))" by (rule hd_dropWhile)
  ultimately have "dropWhile is_white s = []" by (cases "dropWhile is_white s") simp_all
  then show "blank s" by (simp add: blank_def dropWhile_eq_Nil_conv)
qed (auto simp: blank_def trim_def trim_start_def trim_end_def dropWhile_eq_Nil_conv dest: set_dropWhileD)

lemma parse_sql_trim: "parse_sql front (trim s) = parse_sql front s"
  by (simp add: parse_sql_def normalize_sql_def)

section \<open>Literals\<close>

definition quote_string :: "string \<Rightarrow> string" where
  "quote_string s = CHR 0x27 # concat (map (\<lambda>c. if c = CHR 0x27 then [c, c] else [c]) s) @ [CHR 0x27]"

lemma replace_quotes_doubled:
  "replace_quotes (concat (map (\<lambda>c. if c = CHR 0x27 then [c, c] else [c]) s)) = s"
proof (induction s)
  case (Cons c s)
  show ?case
  proof (cases "c = CHR 0x27")
    case False
    with Cons show ?thesis
      by (cases "concat (map (\<lambda>c. if c = CHR 0x27 then [c, c] else [c]) s)") simp_all
  qed (use Cons in simp)
qed simp

lemma parse_quoted_roundtrip: "parse_quoted_string (quote_string s) = Inr s"
proof -
  have "trim (quote_string s) = quote_string s"
    using trim_core [of "[]" "[]" "quote_string s"] by (simp add: blank_def quote_string_def is_white_def)
  then show ?thesis by (simp add: parse_quoted_string_def quote_string_def replace_quotes_doubled)
qed

lemma parse_i64_roundtrip: "parse_i64 (show_int (sint i)) = Some i"
proof -
  have range: "i64_in_range (sint i)"
    using sint_ge [of i] sint_less [of i] by (simp add: i64_in_range_def)
  have digits: "all_digits (show_nat n)" for n
    by (auto simp: all_digits_def list_all_iff intro: show_nat_digits)
  have head: "read_sign (show_nat n) = (False, show_nat n)" for n
  proof -
    obtain c cs where n: "show_nat n = c # cs" by (cases "show_nat n") simp_all
    then have "is_digit c" using show_nat_digits [of c n] by simp
    then have "c \<noteq> CHR ''-''" "c \<noteq> CHR ''+''" by (auto simp: is_digit_def)
    with n show ?thesis by (simp add: read_sign_def)
  qed
  show ?thesis
  proof (cases "sint i < 0")
    case True
    with range show ?thesis
      by (simp add: parse_i64_def show_int_def read_sign_def digits Let_def)
  next
    case False
    with range show ?thesis by (simp add: parse_i64_def show_int_def head digits Let_def)
  qed
qed

lemma parse_literal_integer: "parse_user_literal (show_int (sint i)) = Inr (VInteger i)"
proof -
  let ?s = "show_int (sint i)"
  have chars: "c = CHR ''-'' \<or> is_digit c" if "c \<in> set ?s" for c using show_int_chars [OF that] by blast
  then have plain: "c \<notin> set ?s" if "\<not> is_digit c" "c \<noteq> CHR ''-''" for c using that by blast
  have lower: "to_ascii_lowercase ?s = ?s"
    unfolding to_ascii_lowercase_def by (rule map_idI, drule chars) (auto simp: char_lower_def is_digit_def Let_def)
  have words: "to_ascii_lowercase ''NULL'' = ''null''" "to_ascii_lowercase ''TRUE'' = ''true''" "to_ascii_lowercase ''FALSE'' = ''false''"
    by code_simp+
  have "CHR ''l'' \<notin> set ?s" "CHR ''e'' \<notin> set ?s" "CHR ''E'' \<notin> set ?s" "CHR ''.'' \<notin> set ?s" "CHR 0x27 \<notin> set ?s"
    by (rule plain; simp add: is_digit_def)+
  moreover from this have "\<not> eq_ignore_ascii_case ?s ''NULL''" "\<not> eq_ignore_ascii_case ?s ''TRUE''" "\<not> eq_ignore_ascii_case ?s ''FALSE''"
    unfolding eq_ignore_ascii_case_def lower words by auto
  moreover have "hd ?s \<noteq> CHR 0x27" if "?s \<noteq> []" using calculation(5) that by (metis list.set_sel(1))
  ultimately show ?thesis by (auto simp: parse_user_literal_def parse_i64_roundtrip)
qed
text \<open>A statement whose fourth byte lies inside a character stops the thread.\<close>

lemma has_prefix_panics:
  assumes "4 < length sql" "128 \<le> (of_char (sql ! 4) :: nat)" "(of_char (sql ! 4) :: nat) < 192"
  shows "has_prefix sql ''SET '' = Inl (Panic ''byte index is not a char boundary'')"
proof -
  from assms have "\<not> is_char_boundary sql 4" by (simp add: is_char_boundary_def)
  then show ?thesis using assms(1) by (simp add: has_prefix_def slice_to_def eval_nat_numeral)
qed

lemma parse_sql_slice_panics:
  assumes "normalize_sql sql = sql" "4 < length sql" "128 \<le> (of_char (sql ! 4) :: nat)"
    "(of_char (sql ! 4) :: nat) < 192" "\<not> mysql_drop_constraint (split_words sql)"
  shows "parse_sql front sql = Inl (Panic ''byte index is not a char boundary'')"
proof -
  from assms have "parse_rustydb_extension sql = Inl (Panic ''byte index is not a char boundary'')"
    by (simp add: parse_rustydb_extension_def has_prefix_panics)
  with assms show ?thesis by (auto simp: parse_sql_def)
qed

end
