(* ===== verification/KeyIndex.thy ===== *)
theory KeyIndex
  imports SqlTypes "HOL-Library.Product_Lexorder"
begin

text \<open>
  The index structures of \<^verbatim>\<open>src/src/sql/executor.rs\<close> (lines 11 to 114): ordered key
  parts, the Bloom filter and the B-tree index. The B-tree is a finite map from keys to sets
  of row ids. The lemmas show that key parts are linearly ordered and that the order of
  float keys is the numeric order, that the filter has no false negatives, and that an
  index answers exactly with the ids that were added and not removed.
\<close>

unbundle bit_operations_syntax

section \<open>Key parts\<close>

datatype key_part = KNull | KBoolean bool | KInteger i64 | KFloat "64 word" | KText string

type_synonym index_key = "key_part list"

definition float_key_bits :: "f64 \<Rightarrow> 64 word" where
  "float_key_bits bits = (if bits AND push_bit 63 1 \<noteq> 0 then NOT bits else bits XOR push_bit 63 1)"

fun key_part_of :: "val \<Rightarrow> key_part" where
  "key_part_of VNull = KNull"
| "key_part_of (VBoolean b) = KBoolean b"
| "key_part_of (VInteger i) = KInteger i"
| "key_part_of (VFloat f) = KFloat (float_key_bits f)"
| "key_part_of (VText s) = KText s"

text \<open>The derived \<open>Ord\<close>: the variant decides first, then the payload.\<close>

fun key_rank :: "key_part \<Rightarrow> nat \<times> int \<times> string" where
  "key_rank KNull = (0, 0, [])"
| "key_rank (KBoolean b) = (1, of_bool b, [])"
| "key_rank (KInteger i) = (2, sint i, [])"
| "key_rank (KFloat f) = (3, uint f, [])"
| "key_rank (KText s) = (4, 0, s)"

lemma sint_inject: "sint a = sint b \<longleftrightarrow> a = b"
  for a b :: "'a::len word"
  using signed_word_eqI by blast

lemma uint_inject: "uint a = uint b \<longleftrightarrow> a = b"
  for a b :: "'a::len word"
  using unsigned_word_eqI by blast

lemma key_rank_inject: "key_rank a = key_rank b \<longleftrightarrow> a = b"
  by (cases a; cases b) (auto simp: sint_inject uint_inject simp del: signed_word_eqI)

instantiation key_part :: linorder
begin

definition less_eq_key_part :: "key_part \<Rightarrow> key_part \<Rightarrow> bool" where
  "a \<le> b \<longleftrightarrow> key_rank a \<le> key_rank b"

definition less_key_part :: "key_part \<Rightarrow> key_part \<Rightarrow> bool" where
  "a < b \<longleftrightarrow> key_rank a < key_rank b"

instance
proof
  fix x y z :: key_part
  show "x < y \<longleftrightarrow> x \<le> y \<and> \<not> y \<le> x" "x \<le> x" "x \<le> y \<or> y \<le> x"
    unfolding less_eq_key_part_def less_key_part_def by auto
  show "x \<le> y \<Longrightarrow> y \<le> z \<Longrightarrow> x \<le> z"
    unfolding less_eq_key_part_def by (rule order.trans)
  show "x \<le> y \<Longrightarrow> y \<le> x \<Longrightarrow> x = y"
    unfolding less_eq_key_part_def using key_rank_inject order.antisym by blast
qed

end

section \<open>The Bloom filter\<close>

record bloom_filter =
  bl_bits :: "64 word list"
  bl_hashes :: nat

definition f64_ln_2 :: f64 where
  "f64_ln_2 = 0x3FE62E42FEFA39EF"

definition default_bloom_false_positive_rate :: f64 where
  "default_bloom_false_positive_rate = f64_of_frac False 1 100"

definition clamp_rate :: "f64 \<Rightarrow> f64" where
  "clamp_rate rate = f64_clamp rate (f64_of_frac False 1 1000000) (f64_of_frac False 1 2)"

text \<open>\<open>ln\<close> is the natural logarithm of the platform's mathematical library.\<close>

definition bloom_new :: "(f64 \<Rightarrow> f64) \<Rightarrow> nat \<Rightarrow> f64 \<Rightarrow> bloom_filter" where
  "bloom_new ln expected_items false_positive_rate =
     (let expected = f64_of_int (int (max expected_items 1));
          rate = clamp_rate false_positive_rate;
          bit_count = f64_to_usize (f64_max
            (f64_ceil (f64_div (f64_neg (f64_mul expected (ln rate))) (f64_mul f64_ln_2 f64_ln_2)))
            (f64_of_int 64));
          hashes = f64_to_usize (f64_clamp
            (f64_round_half_away (f64_mul (f64_div (f64_of_int (int bit_count)) expected) f64_ln_2))
            (f64_of_int 1) (f64_of_int 16))
      in \<lparr>bl_bits = replicate ((bit_count + 63) div 64) 0, bl_hashes = hashes\<rparr>)"

definition fnv1a :: "string \<Rightarrow> 64 word \<Rightarrow> 64 word" where
  "fnv1a bytes seed = foldl (\<lambda>hash byte. (hash XOR of_char byte) * 0x100000001b3) seed bytes"

text \<open>The text of \<open>{key:?}\<close>, the derived \<open>Debug\<close> output, for ASCII strings.\<close>

definition debug_char :: "char \<Rightarrow> string" where
  "debug_char c = (let n = of_char c :: nat in
     if n = 34 then [CHR 0x5C, CHR 0x22]
     else if n = 92 then [CHR 0x5C, CHR 0x5C]
     else if n = 9 then [CHR 0x5C, CHR ''t'']
     else if n = 10 then [CHR 0x5C, CHR ''n'']
     else if n = 13 then [CHR 0x5C, CHR ''r'']
     else if n = 0 then [CHR 0x5C, CHR ''0'']
     else if n < 16 then [CHR 0x5C] @ ''u{'' @ show_hex 1 n @ ''}''
     else if n < 32 \<or> n = 127 then [CHR 0x5C] @ ''u{'' @ show_hex 2 n @ ''}''
     else [c])"

fun debug_key_part :: "key_part \<Rightarrow> string" where
  "debug_key_part KNull = ''Null''"
| "debug_key_part (KBoolean b) = ''Boolean('' @ show_bool b @ '')''"
| "debug_key_part (KInteger i) = ''Integer('' @ show_int (sint i) @ '')''"
| "debug_key_part (KFloat f) = ''Float('' @ show_nat (unat f) @ '')''"
| "debug_key_part (KText s) = ''Text('' @ [CHR 0x22] @ concat (map debug_char s) @ [CHR 0x22] @ '')''"

definition debug_key :: "index_key \<Rightarrow> string" where
  "debug_key key = ''['' @ join_with '', '' (map debug_key_part key) @ '']''"

definition bloom_positions :: "bloom_filter \<Rightarrow> index_key \<Rightarrow> nat list" where
  "bloom_positions b key =
     (let text = debug_key key;
          first = fnv1a text 0xcbf29ce484222325;
          second = fnv1a text 0x84222325cbf29ce4 OR 1;
          bit_count = length (bl_bits b) * 64
      in map (\<lambda>index. unat (first + of_nat index * second) mod bit_count) [0..<bl_hashes b])"

definition set_bit_at :: "64 word list \<Rightarrow> nat \<Rightarrow> 64 word list" where
  "set_bit_at bits pos =
     bits[pos div 64 := bits ! (pos div 64) OR push_bit (pos mod 64) 1]"

definition bloom_insert :: "bloom_filter \<Rightarrow> index_key \<Rightarrow> bloom_filter" where
  "bloom_insert b key = b\<lparr>bl_bits := foldl set_bit_at (bl_bits b) (bloom_positions b key)\<rparr>"

definition might_contain :: "bloom_filter \<Rightarrow> index_key \<Rightarrow> bool" where
  "might_contain b key \<longleftrightarrow>
     list_all (\<lambda>pos. bl_bits b ! (pos div 64) AND push_bit (pos mod 64) 1 \<noteq> 0)
       (bloom_positions b key)"

section \<open>The B-tree index\<close>

record btree_index =
  bt_definition :: index_def
  bt_entries :: "(index_key, nat set) hmap"
  bt_bloom :: bloom_filter

definition btree_index_empty :: "(f64 \<Rightarrow> f64) \<Rightarrow> index_def \<Rightarrow> nat \<Rightarrow> f64 \<Rightarrow> btree_index" where
  "btree_index_empty ln definition expected_items rate =
     \<lparr>bt_definition = definition, bt_entries = [], bt_bloom = bloom_new ln expected_items rate\<rparr>"

text \<open>\<open>entries.entry(key).or_default().insert(row_id)\<close> with \<open>bloom.insert(&key)\<close>.\<close>

definition entries_get :: "(index_key, nat set) hmap \<Rightarrow> index_key \<Rightarrow> nat set" where
  "entries_get es key = (case map_of es key of None \<Rightarrow> {} | Some ids \<Rightarrow> ids)"

definition btree_add :: "btree_index \<Rightarrow> index_key \<Rightarrow> nat \<Rightarrow> btree_index" where
  "btree_add ix key row_id =
     ix\<lparr>bt_entries := AList.update key (insert row_id (entries_get (bt_entries ix) key)) (bt_entries ix),
        bt_bloom := bloom_insert (bt_bloom ix) key\<rparr>"

text \<open>Removing an id drops the whole entry when its set becomes empty.\<close>

definition btree_remove :: "btree_index \<Rightarrow> index_key \<Rightarrow> nat \<Rightarrow> btree_index" where
  "btree_remove ix key row_id =
     (case map_of (bt_entries ix) key of
        None \<Rightarrow> ix
      | Some ids \<Rightarrow>
          (let ids' = ids - {row_id} in
           ix\<lparr>bt_entries := (if ids' = {} then AList.delete key (bt_entries ix)
                            else AList.update key ids' (bt_entries ix))\<rparr>))"

section \<open>Bloom filter: no false negatives\<close>

text \<open>What the index relies on: a filter that never forgets an inserted key.\<close>

locale membership_filter =
  fixes finsert :: "'f \<Rightarrow> 'k \<Rightarrow> 'f"
    and fmember :: "'f \<Rightarrow> 'k \<Rightarrow> bool"
    and fok :: "'f \<Rightarrow> bool"
  assumes insert_ok: "fok f \<Longrightarrow> fok (finsert f k)"
    and insert_same: "fok f \<Longrightarrow> fmember (finsert f k) k"
    and insert_keeps: "fok f \<Longrightarrow> fmember f k' \<Longrightarrow> fmember (finsert f k) k'"
begin

lemma foldl_insert_ok: "fok f \<Longrightarrow> fok (foldl finsert f ks)"
  by (induction ks arbitrary: f) (auto intro: insert_ok)

lemma foldl_insert_keeps: "fok f \<Longrightarrow> fmember f k \<Longrightarrow> fmember (foldl finsert f ks) k"
  by (induction ks arbitrary: f) (auto intro: insert_ok insert_keeps)

lemma foldl_insert_member: "fok f \<Longrightarrow> k \<in> set ks \<Longrightarrow> fmember (foldl finsert f ks) k"
proof (induction ks arbitrary: f)
  case (Cons x ks)
  then show ?case
    by (auto intro: insert_ok insert_same foldl_insert_keeps)
qed simp

end

definition bloom_ok :: "bloom_filter \<Rightarrow> bool" where
  "bloom_ok b \<longleftrightarrow> bl_bits b \<noteq> []"

definition bit_at :: "64 word list \<Rightarrow> nat \<Rightarrow> bool" where
  "bit_at bits pos \<longleftrightarrow> bit (bits ! (pos div 64)) (pos mod 64)"

lemma and_push_bit_iff: "n < 64 \<Longrightarrow> (w :: 64 word) AND push_bit n 1 \<noteq> 0 \<longleftrightarrow> bit w n"
  by (auto simp: and_exp_eq_0_iff_not_bit)

lemma bit_set_bit_at:
  assumes "pos < 64 * length bits" "p < 64 * length bits"
  shows "bit_at (set_bit_at bits pos) p \<longleftrightarrow> p = pos \<or> bit_at bits p"
proof (cases "p div 64 = pos div 64")
  case True
  have "p mod 64 = pos mod 64 \<longleftrightarrow> p = pos" using True by (metis mod_div_mult_eq)
  moreover have "pos div 64 < length bits" using assms by auto
  moreover have "pos mod 64 < LENGTH(64)" "p mod 64 < LENGTH(64)" by simp_all
  ultimately show ?thesis
    using True by (auto simp: bit_at_def set_bit_at_def bit_or_iff bit_exp_iff)
next
  case False
  then show ?thesis by (auto simp: bit_at_def set_bit_at_def)
qed

lemma length_foldl_set_bit [simp]: "length (foldl set_bit_at bits ps) = length bits"
  by (induction ps arbitrary: bits) (auto simp: set_bit_at_def)

lemma bit_foldl_set_bit:
  assumes "\<forall>pos \<in> set ps. pos < 64 * length bits" "p < 64 * length bits"
  shows "bit_at (foldl set_bit_at bits ps) p \<longleftrightarrow> p \<in> set ps \<or> bit_at bits p"
  using assms
proof (induction ps arbitrary: bits)
  case (Cons x ps)
  have "length (set_bit_at bits x) = length bits" by (simp add: set_bit_at_def)
  with Cons show ?case by (auto simp: bit_set_bit_at)
qed simp

lemma bloom_positions_bound:
  "bloom_ok b \<Longrightarrow> pos \<in> set (bloom_positions b key) \<Longrightarrow> pos < 64 * length (bl_bits b)"
  by (auto simp: bloom_ok_def bloom_positions_def Let_def mult.commute)

lemma bloom_positions_insert [simp]: "bloom_positions (bloom_insert b k) = bloom_positions b"
  by (rule ext) (simp add: bloom_positions_def bloom_insert_def Let_def)

lemma might_contain_iff:
  "might_contain b key \<longleftrightarrow> (\<forall>pos \<in> set (bloom_positions b key). bit_at (bl_bits b) pos)"
  using and_push_bit_iff by (auto simp: might_contain_def list_all_iff bit_at_def)

lemma bit_at_bloom_insert:
  assumes "bloom_ok b" "p < 64 * length (bl_bits b)"
  shows "bit_at (bl_bits (bloom_insert b k)) p \<longleftrightarrow>
     p \<in> set (bloom_positions b k) \<or> bit_at (bl_bits b) p"
  using assms bloom_positions_bound [OF assms(1)]
  by (simp add: bloom_insert_def bit_foldl_set_bit)

lemma bloom_insert_length [simp]: "length (bl_bits (bloom_insert b k)) = length (bl_bits b)"
  by (simp add: bloom_insert_def)

interpretation bloom: membership_filter bloom_insert might_contain bloom_ok
proof
  fix b k k'
  assume ok: "bloom_ok b"
  show "bloom_ok (bloom_insert b k)"
    using ok bloom_insert_length [of b k] unfolding bloom_ok_def by fastforce
  show "might_contain (bloom_insert b k) k"
    using ok bloom_positions_bound [OF ok] bit_at_bloom_insert [OF ok]
    by (simp add: might_contain_iff)
  show "might_contain (bloom_insert b k) k'" if "might_contain b k'"
    using that bloom_positions_bound [OF ok] bit_at_bloom_insert [OF ok]
    by (simp add: might_contain_iff)
qed

section \<open>A new filter is usable\<close>

text \<open>Every size computation ends with at least one word of bits, whatever \<open>ln\<close> returns.\<close>

lemmas f64_of_int_eval = f64_of_int_def f64_of_frac_def f64_round_def round_mag_def frac_log2_def
  log2_floor.simps scale2_def div_rne_def f64_inf_mag_def

lemma f64_of_int_64: "f64_of_int 64 = f64_make False (1029 * 2 ^ 52)"
  by (simp add: f64_of_int_eval)

lemma f64_mag_64:
  "f64_sign (f64_of_int 64) = False" "f64_mag (f64_of_int 64) = 1029 * 2 ^ 52"
  "f64_key (f64_of_int 64) = 1029 * 2 ^ 52"
  unfolding f64_of_int_64 f64_key_def by simp_all

lemma f64_64_not_nan: "\<not> f64_is_nan (f64_of_int 64)"
  by (simp add: f64_is_nan_def f64_mag_64 f64_inf_mag_def)

lemma f64_to_usize_max_64: "0 < f64_to_usize (f64_max x (f64_of_int 64))"
proof -
  define y where "y = f64_max x (f64_of_int 64)"
  have "\<not> f64_is_nan y" and key: "1029 * 2 ^ 52 \<le> f64_key y"
    using f64_mag_64 f64_64_not_nan
    by (auto simp: y_def f64_max_def f64_lt_def f64_partial_cmp_def)
  have pos: "\<not> f64_sign y" and mag: "1029 * 2 ^ 52 \<le> f64_mag y"
    using key by (auto simp: f64_key_def split: if_splits)
  let ?q = "mag_frac (f64_mag y)"
  have "1029 * 2 ^ 52 div 2 ^ 52 \<le> f64_mag y div 2 ^ 52"
    by (rule div_le_mono [OF mag])
  then have e: "- 46 \<le> mag_exp (f64_mag y)" and m: "2 ^ 52 \<le> mag_mant (f64_mag y)"
    using mag by (simp_all add: mag_exp_def mag_mant_def)
  have "snd ?q \<le> fst ?q \<and> 0 < snd ?q"
  proof (cases "0 \<le> mag_exp (f64_mag y)")
    case True
    with m show ?thesis by (simp add: mag_frac_def scale2_def Suc_le_eq)
  next
    case False
    have "(2::nat) ^ nat (- mag_exp (f64_mag y)) \<le> 2 ^ 52"
      by (rule power_increasing) (use e in auto)
    with m False show ?thesis by (simp add: mag_frac_def scale2_def)
  qed
  then have "1 \<le> f64_trunc_int y"
    using pos by (simp add: f64_trunc_int_def f64_num_def f64_den_def sgn_if)
      (metis div_greater_zero_iff int_one_le_iff_zero_less of_nat_0_less_iff zdiv_int)
  then show ?thesis
    using pos \<open>\<not> f64_is_nan y\<close> unfolding y_def [symmetric]
    by (auto simp: f64_to_usize_def u64_max_def)
qed

lemma bloom_new_ok [simp]: "bloom_ok (bloom_new ln n rate)"
  using f64_to_usize_max_64 by (auto simp: bloom_ok_def bloom_new_def Let_def Suc_le_eq div_greater_zero_iff)

section \<open>The index as a relation between keys and ids\<close>

text \<open>What a table relies on: adding and removing one id changes one key's answer by that id.\<close>

locale id_index =
  fixes lookup :: "'x \<Rightarrow> 'k \<Rightarrow> nat set"
    and add :: "'x \<Rightarrow> 'k \<Rightarrow> nat \<Rightarrow> 'x"
    and remove :: "'x \<Rightarrow> 'k \<Rightarrow> nat \<Rightarrow> 'x"
    and ok :: "'x \<Rightarrow> bool"
  assumes ok_add: "ok x \<Longrightarrow> ok (add x k i)"
    and ok_remove: "ok x \<Longrightarrow> ok (remove x k i)"
    and lookup_add: "ok x \<Longrightarrow>
          lookup (add x k i) k' = (if k' = k then insert i (lookup x k) else lookup x k')"
    and lookup_remove: "ok x \<Longrightarrow>
          lookup (remove x k i) k' = (if k' = k then lookup x k - {i} else lookup x k')"
begin

lemma lookup_add_option:
  assumes "ok x"
  shows "lookup (case ko of Some k \<Rightarrow> add x k i | None \<Rightarrow> x) k' =
           lookup x k' \<union> (if ko = Some k' then {i} else {})"
    and "ok (case ko of Some k \<Rightarrow> add x k i | None \<Rightarrow> x)"
  using assms by (auto simp: lookup_add ok_add split: option.splits)

lemma fold_add_option:
  assumes "ok x"
  shows "ok (foldl (\<lambda>x p. case fst p of Some k \<Rightarrow> add x k (snd p) | None \<Rightarrow> x) x ps) \<and>
         lookup (foldl (\<lambda>x p. case fst p of Some k \<Rightarrow> add x k (snd p) | None \<Rightarrow> x) x ps) k' =
           lookup x k' \<union> {i. (Some k', i) \<in> set ps}"
  using assms
proof (induction ps arbitrary: x)
  case (Cons p ps)
  let ?y = "case fst p of Some k \<Rightarrow> add x k (snd p) | None \<Rightarrow> x"
  have "ok ?y" and "lookup ?y k' = lookup x k' \<union> (if fst p = Some k' then {snd p} else {})"
    using lookup_add_option [OF Cons.prems] by auto
  with Cons.IH [of ?y] show ?case by (cases p) (auto split: if_splits)
qed simp

text \<open>Moving one id from key \<open>old\<close> to key \<open>new\<close>.\<close>

lemma move_option:
  assumes "ok x" and "y = (case old of Some k \<Rightarrow> remove x k i | None \<Rightarrow> x)"
  shows "ok (case new of Some k \<Rightarrow> add y k i | None \<Rightarrow> y)"
    and "lookup (case new of Some k \<Rightarrow> add y k i | None \<Rightarrow> y) k' =
           (lookup x k' - (if old = Some k' then {i} else {})) \<union> (if new = Some k' then {i} else {})"
proof -
  have "ok y" using assms by (auto simp: ok_remove split: option.splits)
  then show "ok (case new of Some k \<Rightarrow> add y k i | None \<Rightarrow> y)"
    by (rule lookup_add_option(2))
  show "lookup (case new of Some k \<Rightarrow> add y k i | None \<Rightarrow> y) k' =
          (lookup x k' - (if old = Some k' then {i} else {})) \<union> (if new = Some k' then {i} else {})"
    unfolding lookup_add_option(1) [OF \<open>ok y\<close>]
    using assms by (auto simp: lookup_remove split: option.splits)
qed

end

definition btree_lookup :: "btree_index \<Rightarrow> index_key \<Rightarrow> nat set" where
  "btree_lookup ix key = entries_get (bt_entries ix) key"

definition btree_ok :: "btree_index \<Rightarrow> bool" where
  "btree_ok ix \<longleftrightarrow> wf_map (bt_entries ix) \<and> bloom_ok (bt_bloom ix) \<and>
     (\<forall>key ids. map_of (bt_entries ix) key = Some ids \<longrightarrow>
        ids \<noteq> {} \<and> might_contain (bt_bloom ix) key)"

lemma btree_ok_empty [simp]: "btree_ok (btree_index_empty ln d n r)"
  by (simp add: btree_ok_def btree_index_empty_def)

lemma btree_lookup_empty [simp]: "btree_lookup (btree_index_empty ln d n r) key = {}"
  by (simp add: btree_lookup_def btree_index_empty_def entries_get_def)

lemma btree_definition_simps [simp]:
  "bt_definition (btree_index_empty ln d n r) = d"
  "bt_definition (btree_add ix key i) = bt_definition ix"
  "bt_definition (btree_remove ix key i) = bt_definition ix"
  by (auto simp: btree_index_empty_def btree_add_def btree_remove_def Let_def split: option.splits)

interpretation btree: id_index btree_lookup btree_add btree_remove btree_ok
proof
  fix ix k k' i
  assume ok: "btree_ok ix"
  then have wf: "wf_map (bt_entries ix)" and bl: "bloom_ok (bt_bloom ix)"
    by (auto simp: btree_ok_def)
  show "btree_ok (btree_add ix k i)"
    using ok wf bl by (auto simp: btree_ok_def btree_add_def bloom.insert_ok
        bloom.insert_same bloom.insert_keeps)
  show "btree_ok (btree_remove ix k i)"
    using ok wf by (auto simp: btree_ok_def btree_remove_def Let_def split: option.splits if_splits)
  show "btree_lookup (btree_add ix k i) k' =
      (if k' = k then insert i (btree_lookup ix k) else btree_lookup ix k')"
    by (auto simp: btree_lookup_def btree_add_def entries_get_def)
  show "btree_lookup (btree_remove ix k i) k' =
      (if k' = k then btree_lookup ix k - {i} else btree_lookup ix k')"
    by (auto simp: btree_lookup_def btree_remove_def entries_get_def Let_def split: option.splits)
qed

text \<open>The filter in front of the entries never hides an entry.\<close>

lemma btree_filtered_lookup:
  assumes "btree_ok ix"
  shows "(if might_contain (bt_bloom ix) key then entries_get (bt_entries ix) key else {}) =
           btree_lookup ix key"
proof (cases "map_of (bt_entries ix) key")
  case None
  then show ?thesis by (simp add: btree_lookup_def entries_get_def)
next
  case (Some ids)
  with assms show ?thesis by (auto simp: btree_ok_def btree_lookup_def)
qed

lemma btree_entry_iff:
  assumes "btree_ok ix"
  shows "i \<in> btree_lookup ix key \<longleftrightarrow> (\<exists>ids. (key, ids) \<in> set (bt_entries ix) \<and> i \<in> ids)"
  using assms by (auto simp: btree_ok_def btree_lookup_def entries_get_def wf_map_in_iff split: option.splits)

section \<open>The order of float keys\<close>

lemma bit_63_iff_sign: "bit x 63 \<longleftrightarrow> f64_sign x"
proof -
  have "unat x div 2 ^ 63 < 2" using unat_f64_bound [of x] by (simp add: less_mult_imp_div_less)
  then have "odd (unat x div 2 ^ 63) \<longleftrightarrow> 0 < unat x div 2 ^ 63" 
    by (auto simp: less_2_cases_iff)
  then have "bit (unat x) 63 \<longleftrightarrow> 2 ^ 63 \<le> unat x"
    by (simp add: bit_iff_odd div_greater_zero_iff)
  then show ?thesis
    by (simp add: bit_unsigned_iff f64_sign_def)
qed

lemma unat_float_key_bits:
  "unat (float_key_bits x) = (if f64_sign x then 2 ^ 64 - 1 - unat x else unat x + 2 ^ 63)"
proof (cases "f64_sign x")
  case True
  have "uint x < 2 ^ 64" using uint_lt2p [of x] by simp
  moreover have "0 \<le> uint x" by (rule unsigned_greater_eq)
  ultimately have "(2 ^ 64 - 1 - uint x) mod 2 ^ 64 = 2 ^ 64 - 1 - uint x"
    by (intro mod_pos_pos_trivial) linarith+
  then have m: "(- uint x - 1) mod 2 ^ 64 = 2 ^ 64 - 1 - uint x"
    using mod_add_self2 [of "- uint x - 1" "2 ^ 64"] by simp
  have "uint (NOT x) = 2 ^ 64 - 1 - uint x"
    using m by (simp add: unsigned_not_eq not_int_def take_bit_eq_mod)
  then have "int (unat (NOT x) + unat x) = int 18446744073709551615" by simp
  then have "unat (NOT x) + unat x = 18446744073709551615" by (simp only: of_nat_eq_iff)
  then have "unat (NOT x) = 2 ^ 64 - 1 - unat x" by simp
  moreover have "float_key_bits x = NOT x"
    using True and_push_bit_iff [of 63 x] by (simp add: float_key_bits_def bit_63_iff_sign)
  ultimately show ?thesis using True by simp
next
  case False
  then have "float_key_bits x = x XOR push_bit 63 1" and "x AND push_bit 63 1 = 0"
    using and_push_bit_iff [of 63 x] by (simp_all add: float_key_bits_def bit_63_iff_sign)
  then have "float_key_bits x = x + 2 ^ 63"
    by (simp add: disjunctive_add_eq_xor)
  moreover have "unat x + 2 ^ 63 < 2 ^ 64" using False by (simp add: f64_sign_def)
  ultimately show ?thesis using False by (simp add: unat_word_ariths)
qed

text \<open>Away from NaN and the two zeros, the order of float keys is the order of the floats.\<close>

lemma float_key_order:
  assumes "\<not> f64_is_nan a" "\<not> f64_is_nan b" "\<not> (f64_is_zero a \<and> f64_is_zero b)"
  shows "f64_partial_cmp a b = Some (cmp (key_part_of (VFloat a)) (key_part_of (VFloat b)))"
proof -
  have bits: "unat (float_key_bits x) =
      (if f64_sign x then 2 ^ 63 - 1 - f64_mag x else 2 ^ 63 + f64_mag x)" for x
    using unat_f64_make [OF f64_mag_bound [of x], of "f64_sign x"]
    by (simp add: unat_float_key_bits)
  have keys: "key_part_of (VFloat x) < key_part_of (VFloat y) \<longleftrightarrow>
      unat (float_key_bits x) < unat (float_key_bits y)" for x y
    by (simp add: less_key_part_def word_less_def word_less_nat_alt [symmetric])
  have lt: "key_part_of (VFloat x) < key_part_of (VFloat y) \<longleftrightarrow> f64_key x < f64_key y"
    if "\<not> (f64_is_zero x \<and> f64_is_zero y)" for x y
    using that f64_mag_bound [of x] f64_mag_bound [of y]
    unfolding keys bits f64_key_def f64_is_zero_def by (cases "f64_sign x"; cases "f64_sign y") auto
  show ?thesis using assms lt [of a b] lt [of b a]
    by (auto simp: f64_partial_cmp_def cmp_def)
qed

end
