(* ===== verification/TableStore.thy ===== *)
theory TableStore
  imports KeyIndex
begin

text \<open>
  \<open>Table\<close> of \<^verbatim>\<open>src/src/sql/executor.rs\<close> (lines 116 to 500): rows with stable row ids, the
  indexes that are maintained on every insert and replace, the unique-conflict search and
  the choice of candidate rows for a selection. The lemmas show that the incremental
  maintenance keeps every index equal to what a rebuild computes, that the conflict search
  is exact and that the candidates contain every row the indexed predicates accept.
\<close>

section \<open>State\<close>

record table =
  tb_schema :: table_schema
  tb_rows :: "row list"
  tb_row_ids :: "nat list"
  tb_next_row_id :: nat
  tb_primary_key_index :: "(string, nat) hmap"
  tb_indexes :: "(string, btree_index) hmap"
  tb_bloom_rate :: f64

section \<open>Index definitions implied by a schema\<close>

definition constraint_index :: "string \<Rightarrow> table_constraint \<Rightarrow> index_def list" where
  "constraint_index name c = (case c of
     PrimaryKey n cols \<Rightarrow>
       [\<lparr>ix_name = (case n of Some x \<Rightarrow> x | None \<Rightarrow> name @ ''_pk''),
         ix_columns = cols, ix_unique = True, ix_automatic = True\<rparr>]
   | Unique n cols \<Rightarrow>
       [\<lparr>ix_name = (case n of Some x \<Rightarrow> x | None \<Rightarrow> name @ ''_'' @ join_with ''_'' cols @ ''_uk''),
         ix_columns = cols, ix_unique = True, ix_automatic = True\<rparr>]
   | ForeignKey fk \<Rightarrow>
       [\<lparr>ix_name = (case fk_name fk of Some x \<Rightarrow> x
                     | None \<Rightarrow> name @ ''_'' @ join_with ''_'' (fk_columns fk) @ ''_fk''),
         ix_columns = fk_columns fk, ix_unique = False, ix_automatic = True\<rparr>]
   | Check _ _ \<Rightarrow> [])"

definition column_index_def :: "string \<Rightarrow> index_def list \<Rightarrow> column_def \<Rightarrow> index_def list" where
  "column_index_def name ixs c =
     (let covered = list_ex (\<lambda>ix. ix_columns ix = [col_name c]) ixs in
      if col_primary_key c \<and> \<not> covered then
        ixs @ [\<lparr>ix_name = name @ ''_'' @ col_name c @ ''_pk'', ix_columns = [col_name c],
                ix_unique = True, ix_automatic = True\<rparr>]
      else if col_unique c \<and> \<not> covered then
        ixs @ [\<lparr>ix_name = name @ ''_'' @ col_name c @ ''_uk'', ix_columns = [col_name c],
                ix_unique = True, ix_automatic = True\<rparr>]
      else ixs)"

definition automatic_indexes :: "table_schema \<Rightarrow> index_def list" where
  "automatic_indexes s =
     foldl (column_index_def (sch_name s))
       (concat (map (constraint_index (sch_name s)) (sch_constraints s))) (sch_columns s)"

section \<open>Keys and rebuilding\<close>

definition index_key :: "table_schema \<Rightarrow> row \<Rightarrow> string list \<Rightarrow> index_key option" where
  "index_key s row columns = those (map (\<lambda>column.
     Option.bind (column_index s column) (\<lambda>i. map_option key_part_of (get row i))) columns)"

definition row_id_at :: "nat list \<Rightarrow> nat \<Rightarrow> nat" where
  "row_id_at ids pos = (case get ids pos of Some i \<Rightarrow> i | None \<Rightarrow> pos + 1)"

definition add_key :: "btree_index \<Rightarrow> index_key option \<times> nat \<Rightarrow> btree_index" where
  "add_key ix p = (case fst p of Some key \<Rightarrow> btree_add ix key (snd p) | None \<Rightarrow> ix)"

definition build_index :: "(f64 \<Rightarrow> f64) \<Rightarrow> table \<Rightarrow> index_def \<Rightarrow> btree_index" where
  "build_index ln t def =
     foldl (\<lambda>ix (pos, row). add_key ix (index_key (tb_schema t) row (ix_columns def),
                                        row_id_at (tb_row_ids t) pos))
       (btree_index_empty ln def (length (tb_rows t)) (tb_bloom_rate t))
       (enumerate 0 (tb_rows t))"

definition primary_text :: "table_schema \<Rightarrow> row \<Rightarrow> string option" where
  "primary_text s row =
     Option.bind (primary_key_index s) (\<lambda>i. map_option value_to_string (get row i))"

definition rebuild_primary :: "table \<Rightarrow> (string, nat) hmap" where
  "rebuild_primary t =
     foldl (\<lambda>m (pos, row). case primary_text (tb_schema t) row of
              Some text \<Rightarrow> AList.update text pos m | None \<Rightarrow> m) [] (enumerate 0 (tb_rows t))"

definition rebuild_index :: "(f64 \<Rightarrow> f64) \<Rightarrow> table \<Rightarrow> table" where
  "rebuild_index ln t =
     t\<lparr>tb_primary_key_index := rebuild_primary t,
       tb_indexes := foldl (\<lambda>m def. AList.update (ix_name def) (build_index ln t def) m) []
                       (sch_indexes (tb_schema t))\<rparr>"

definition table_new :: "(f64 \<Rightarrow> f64) \<Rightarrow> table_schema \<Rightarrow> table" where
  "table_new ln s = rebuild_index ln
     \<lparr>tb_schema = s, tb_rows = [], tb_row_ids = [], tb_next_row_id = 1,
      tb_primary_key_index = [], tb_indexes = [],
      tb_bloom_rate = default_bloom_false_positive_rate\<rparr>"

definition legacy_constraint :: "column_def \<Rightarrow> table_constraint list" where
  "legacy_constraint c =
     (if col_primary_key c then [PrimaryKey None [col_name c]]
      else if col_unique c then [Unique None [col_name c]] else [])"

definition migrate_legacy_rows :: "(f64 \<Rightarrow> f64) \<Rightarrow> table \<Rightarrow> table" where
  "migrate_legacy_rows ln t =
     (let s = tb_schema t;
          s1 = (if sch_constraints s = []
                then s\<lparr>sch_constraints := concat (map legacy_constraint (sch_columns s))\<rparr> else s);
          s2 = (if sch_indexes s1 = [] then s1\<lparr>sch_indexes := automatic_indexes s1\<rparr> else s1);
          ids = (if length (tb_row_ids t) \<noteq> length (tb_rows t)
                 then [1..<length (tb_rows t) + 1] else tb_row_ids t)
      in rebuild_index ln
           (t\<lparr>tb_schema := s2, tb_row_ids := ids,
              tb_next_row_id := sat_add (foldl max 0 ids) 1\<rparr>))"

definition set_bloom_false_positive_rate :: "(f64 \<Rightarrow> f64) \<Rightarrow> table \<Rightarrow> f64 \<Rightarrow> table" where
  "set_bloom_false_positive_rate ln t rate = rebuild_index ln (t\<lparr>tb_bloom_rate := clamp_rate rate\<rparr>)"

section \<open>Insert and replace\<close>

text \<open>The names of \<open>tb_indexes\<close> are distinct, so the update by name is a map over the entries.\<close>

definition insert_row_indexed :: "table \<Rightarrow> row \<Rightarrow> table res" where
  "insert_row_indexed t row =
     rbind (validate_row (tb_schema t) row) (\<lambda>_.
       let pos = length (tb_rows t);
           row_id = tb_next_row_id t
       in Inr (t\<lparr>tb_rows := tb_rows t @ [row],
                 tb_row_ids := tb_row_ids t @ [row_id],
                 tb_next_row_id := sat_add row_id 1,
                 tb_primary_key_index := (case primary_text (tb_schema t) row of
                     Some text \<Rightarrow> AList.update text pos (tb_primary_key_index t)
                   | None \<Rightarrow> tb_primary_key_index t),
                 tb_indexes := map (\<lambda>(name, ix).
                     (name, add_key ix (index_key (tb_schema t) row (ix_columns (bt_definition ix)),
                                        row_id))) (tb_indexes t)\<rparr>))"

definition replace_key ::
  "btree_index \<Rightarrow> index_key option \<Rightarrow> index_key option \<Rightarrow> nat \<Rightarrow> btree_index" where
  "replace_key ix previous next row_id =
     (if previous = next then ix
      else add_key (case previous of Some key \<Rightarrow> btree_remove ix key row_id | None \<Rightarrow> ix)
             (next, row_id))"

definition replace_primary ::
  "string option \<Rightarrow> string option \<Rightarrow> nat \<Rightarrow> (string, nat) hmap \<Rightarrow> (string, nat) hmap" where
  "replace_primary previous next pos m =
     (if previous = next then m
      else let m1 = (case previous of
                 Some p \<Rightarrow> if map_of m p = Some pos then AList.delete p m else m
               | None \<Rightarrow> m)
           in case next of Some n \<Rightarrow> AList.update n pos m1 | None \<Rightarrow> m1)"

definition replace_row_indexed :: "table \<Rightarrow> nat \<Rightarrow> row \<Rightarrow> table res" where
  "replace_row_indexed t pos row =
     rbind (validate_row (tb_schema t) row) (\<lambda>_.
     rbind (ok_or (get (tb_rows t) pos) ''Row position is out of bounds'') (\<lambda>previous.
     rbind (ok_or (get (tb_row_ids t) pos) ''Row ID is unavailable'') (\<lambda>row_id.
       Inr (t\<lparr>tb_rows := (tb_rows t)[pos := row],
              tb_primary_key_index := replace_primary (primary_text (tb_schema t) previous)
                 (primary_text (tb_schema t) row) pos (tb_primary_key_index t),
              tb_indexes := map (\<lambda>(name, ix).
                 (name, replace_key ix
                    (index_key (tb_schema t) previous (ix_columns (bt_definition ix)))
                    (index_key (tb_schema t) row (ix_columns (bt_definition ix))) row_id))
                 (tb_indexes t)\<rparr>))))"

section \<open>Unique conflicts\<close>

text \<open>\<open>slice::binary_search\<close> of the standard library.\<close>

function bsearch_base :: "nat list \<Rightarrow> nat \<Rightarrow> nat \<Rightarrow> nat \<Rightarrow> nat" where
  "bsearch_base xs x base sz =
     (if sz \<le> 1 then base
      else let half = sz div 2; mid = base + half
           in bsearch_base xs x (if x < xs ! mid then base else mid) (sz - half))"
  by pat_completeness auto
termination
  by (relation "measure (\<lambda>(xs, x, base, sz). sz)") auto

declare bsearch_base.simps [simp del]

definition binary_search :: "nat list \<Rightarrow> nat \<Rightarrow> nat option" where
  "binary_search xs x =
     (if xs = [] then None
      else let base = bsearch_base xs x 0 (length xs) in
           if xs ! base = x then Some base else None)"

definition index_conflicts :: "table \<Rightarrow> row \<Rightarrow> btree_index \<Rightarrow> nat set" where
  "index_conflicts t row ix =
     (case index_key (tb_schema t) row (ix_columns (bt_definition ix)) of
        None \<Rightarrow> {}
      | Some key \<Rightarrow>
          if KNull \<in> set key \<or> \<not> might_contain (bt_bloom ix) key then {}
          else case map_of (bt_entries ix) key of
             None \<Rightarrow> {}
           | Some ids \<Rightarrow> \<Union> ((\<lambda>i. set_option (binary_search (tb_row_ids t) i)) ` ids))"

definition unique_conflict_positions :: "table \<Rightarrow> row \<Rightarrow> nat set" where
  "unique_conflict_positions t row =
     foldl (\<lambda>acc (name, ix). acc \<union> index_conflicts t row ix) {}
       (filter (\<lambda>(name, ix). ix_unique (bt_definition ix)) (tb_indexes t))"

section \<open>Candidate rows for a selection\<close>

definition compare_key_part :: "key_part \<Rightarrow> key_part \<Rightarrow> comparison_op \<Rightarrow> bool" where
  "compare_key_part left right op = (let ord = cmp left right in case op of
     OpEqual \<Rightarrow> ord = Equal
   | OpNotEqual \<Rightarrow> ord \<noteq> Equal
   | OpLessThan \<Rightarrow> ord = Less
   | OpLessThanOrEqual \<Rightarrow> ord \<noteq> Greater
   | OpGreaterThan \<Rightarrow> ord = Greater
   | OpGreaterThanOrEqual \<Rightarrow> ord \<noteq> Less
   | OpLike \<Rightarrow> False)"

record index_predicate =
  ip_column :: string
  ip_operator :: comparison_op
  ip_value :: val

fun reverse_comparison :: "comparison_op \<Rightarrow> comparison_op" where
  "reverse_comparison OpLessThan = OpGreaterThan"
| "reverse_comparison OpLessThanOrEqual = OpGreaterThanOrEqual"
| "reverse_comparison OpGreaterThan = OpLessThan"
| "reverse_comparison OpGreaterThanOrEqual = OpLessThanOrEqual"
| "reverse_comparison op = op"

fun collect_index_predicates :: "expr \<Rightarrow> index_predicate list" where
  "collect_index_predicates (Binary left BAnd right) =
     collect_index_predicates left @ collect_index_predicates right"
| "collect_index_predicates (Binary (Column q name) (BCompare op) (Literal v)) =
     [\<lparr>ip_column = name, ip_operator = op, ip_value = v\<rparr>]"
| "collect_index_predicates (Binary (Literal v) (BCompare op) (Column q name)) =
     [\<lparr>ip_column = name, ip_operator = reverse_comparison op, ip_value = v\<rparr>]"
| "collect_index_predicates _ = []"

definition is_range_op :: "comparison_op \<Rightarrow> bool" where
  "is_range_op op \<longleftrightarrow>
     op \<in> {OpLessThan, OpLessThanOrEqual, OpGreaterThan, OpGreaterThanOrEqual}"

text \<open>
  The loop over an index's columns: equalities extend the prefix, one range predicate ends
  it, anything else stops. (\<open>range\<close> is still \<open>None\<close> whenever the loop body runs.)
\<close>

fun scan_prefix :: "index_predicate list \<Rightarrow> string list \<Rightarrow> index_key
    \<Rightarrow> index_key \<times> (comparison_op \<times> key_part) option" where
  "scan_prefix preds [] prefix = (prefix, None)"
| "scan_prefix preds (column # columns) prefix =
     (case find (\<lambda>p. eq_ignore_ascii_case (ip_column p) column) preds of
        None \<Rightarrow> (prefix, None)
      | Some p \<Rightarrow>
          if ip_operator p = OpEqual
          then scan_prefix preds columns (prefix @ [key_part_of (ip_value p)])
          else if is_range_op (ip_operator p)
          then (prefix, Some (ip_operator p, key_part_of (ip_value p)))
          else (prefix, None))"

definition starts_with :: "'a list \<Rightarrow> 'a list \<Rightarrow> bool" where
  "starts_with key prefix \<longleftrightarrow> take (length prefix) key = prefix"

definition range_matches ::
  "(comparison_op \<times> key_part) option \<Rightarrow> nat \<Rightarrow> index_key \<Rightarrow> bool" where
  "range_matches rng n key = (case rng of
     None \<Rightarrow> True
   | Some (op, v) \<Rightarrow> (case get key n of Some part \<Rightarrow> compare_key_part part v op | None \<Rightarrow> False))"

definition scan_ids ::
  "btree_index \<Rightarrow> index_key \<Rightarrow> (comparison_op \<times> key_part) option \<Rightarrow> nat set" where
  "scan_ids ix prefix rng =
     (if length prefix = length (ix_columns (bt_definition ix)) \<and> rng = None
      then (if might_contain (bt_bloom ix) prefix then entries_get (bt_entries ix) prefix else {})
      else \<Union> (set (map snd (filter (\<lambda>(key, found).
             starts_with key prefix \<and> range_matches rng (length prefix) key) (bt_entries ix)))))"

definition scan_index :: "index_predicate list \<Rightarrow> btree_index \<Rightarrow> (nat set \<times> nat) option" where
  "scan_index preds ix =
     (case scan_prefix preds (ix_columns (bt_definition ix)) [] of (prefix, rng) \<Rightarrow>
        if prefix = [] \<and> rng = None then None
        else Some (scan_ids ix prefix rng,
                   length prefix * 2 + (if rng = None then 0 else 1)))"

definition pick_candidate :: "index_predicate list \<Rightarrow> (nat set \<times> string \<times> nat) option
    \<Rightarrow> string \<times> btree_index \<Rightarrow> (nat set \<times> string \<times> nat) option" where
  "pick_candidate preds best x =
     (case scan_index preds (snd x) of
        None \<Rightarrow> best
      | Some (ids, score) \<Rightarrow>
          (if (case best of None \<Rightarrow> True | Some (ids', name', current) \<Rightarrow> current < score)
           then Some (ids, ix_name (bt_definition (snd x)), score) else best))"

definition candidate_row_ids :: "table \<Rightarrow> expr option \<Rightarrow> (nat set \<times> string) option" where
  "candidate_row_ids t selection =
     (case selection of
        None \<Rightarrow> None
      | Some e \<Rightarrow>
          map_option (\<lambda>(ids, name, score). (ids, name))
            (foldl (pick_candidate (collect_index_predicates e)) None (tb_indexes t)))"

definition best_index_name :: "table \<Rightarrow> expr option \<Rightarrow> string option" where
  "best_index_name t selection = map_option snd (candidate_row_ids t selection)"

section \<open>The table invariant\<close>

text \<open>The ids of the rows whose key over \<open>columns\<close> is \<open>key\<close>: what an index has to answer.\<close>

definition ids_with :: "table \<Rightarrow> string list \<Rightarrow> index_key \<Rightarrow> nat set" where
  "ids_with t columns key =
     {tb_row_ids t ! p | p. p < length (tb_rows t) \<and>
        index_key (tb_schema t) (tb_rows t ! p) columns = Some key}"

definition index_ok :: "table \<Rightarrow> btree_index \<Rightarrow> bool" where
  "index_ok t ix \<longleftrightarrow> btree_ok ix \<and>
     (\<forall>key. btree_lookup ix key = ids_with t (ix_columns (bt_definition ix)) key)"

definition index_defs :: "table_schema \<Rightarrow> (string, index_def) hmap" where
  "index_defs s = foldl (\<lambda>m def. AList.update (ix_name def) def m) [] (sch_indexes s)"

definition ids_ok :: "table \<Rightarrow> bool" where
  "ids_ok t \<longleftrightarrow> length (tb_row_ids t) = length (tb_rows t) \<and> sorted_wrt (<) (tb_row_ids t) \<and>
     (\<forall>i \<in> set (tb_row_ids t). i < tb_next_row_id t)"

definition table_ok :: "table \<Rightarrow> bool" where
  "table_ok t \<longleftrightarrow> ids_ok t \<and>
     map (map_prod id bt_definition) (tb_indexes t) = index_defs (tb_schema t) \<and>
     (\<forall>(name, ix) \<in> set (tb_indexes t). index_ok t ix)"

lemma wf_index_defs: "wf_map (index_defs s)"
proof -
  have "wf_map m \<Longrightarrow> wf_map (foldl (\<lambda>m def. AList.update (ix_name def) def m) m ds)"
    for m and ds :: "index_def list"
    by (induction ds arbitrary: m) auto
  then show ?thesis by (simp add: index_defs_def)
qed

lemma keys_map_prod [simp]: "map fst (map (map_prod id g) m) = map fst m"
  by (induction m) auto

lemma table_ok_wf: "table_ok t \<Longrightarrow> wf_map (tb_indexes t)"
  using wf_index_defs [of "tb_schema t"] unfolding table_ok_def wf_map_def
  by (metis keys_map_prod)

lemma enumerate_map_nth: "enumerate 0 xs = map (\<lambda>i. (i, xs ! i)) [0..<length xs]"
  by (rule nth_equalityI) (simp_all add: nth_enumerate_eq)

lemma set_map_enumerate:
  "set (map (\<lambda>(p, x). f p x) (enumerate 0 xs)) = {f p (xs ! p) | p. p < length xs}"
  by (auto simp: enumerate_map_nth)

section \<open>Rebuilding establishes the invariant\<close>

lemma build_index_fold:
  "build_index ln t def =
     foldl add_key (btree_index_empty ln def (length (tb_rows t)) (tb_bloom_rate t))
       (map (\<lambda>(pos, row). (index_key (tb_schema t) row (ix_columns def), row_id_at (tb_row_ids t) pos))
          (enumerate 0 (tb_rows t)))"
  by (simp add: build_index_def foldl_map case_prod_beta')

lemma bt_definition_add_key [simp]: "bt_definition (add_key ix p) = bt_definition ix"
  by (simp add: add_key_def split: option.splits)

lemma bt_definition_fold_add_key [simp]: "bt_definition (foldl add_key ix ps) = bt_definition ix"
  by (induction ps arbitrary: ix) auto

lemma bt_definition_build [simp]: "bt_definition (build_index ln t def) = def"
  by (simp add: build_index_fold)

lemma build_index_ok:
  assumes "length (tb_row_ids t) = length (tb_rows t)"
  shows "index_ok t (build_index ln t def)"
proof -
  let ?ps = "map (\<lambda>(pos, row). (index_key (tb_schema t) row (ix_columns def), row_id_at (tb_row_ids t) pos))
          (enumerate 0 (tb_rows t))"
  have "{i. (Some key, i) \<in> set ?ps} = ids_with t (ix_columns def) key" for key
  proof -
    have "p < length (tb_rows t) \<Longrightarrow> row_id_at (tb_row_ids t) p = tb_row_ids t ! p" for p
      using assms by (simp add: row_id_at_def)
    then show ?thesis
      unfolding set_map_enumerate ids_with_def by (intro set_eqI) (simp, metis)
  qed
  moreover have "btree_ok (build_index ln t def)"
    and "btree_lookup (build_index ln t def) key = {i. (Some key, i) \<in> set ?ps}" for key
    using btree.fold_add_option [OF btree_ok_empty, of _ _ _ _ ?ps]
    unfolding build_index_fold add_key_def [abs_def] by simp_all
  ultimately show ?thesis by (simp add: index_ok_def)
qed

lemma rebuild_fold:
  "set (foldl (\<lambda>m def. AList.update (ix_name def) (f def) m) m ds) \<subseteq> set m \<union> {(ix_name d, f d) | d. d \<in> set ds}"
proof (induction ds arbitrary: m)
  case (Cons d ds)
  have "set (AList.update (ix_name d) (f d) m) \<subseteq> set m \<union> {(ix_name d, f d)}"
    by (induction m) auto
  with Cons [of "AList.update (ix_name d) (f d) m"] show ?case by auto
qed simp

lemma map_prod_update:
  "map (map_prod id g) (AList.update k v m) = AList.update k (g v) (map (map_prod id g) m)"
  by (induction m) auto

lemma rebuild_defs:
  "map (map_prod id bt_definition) (foldl (\<lambda>m def. AList.update (ix_name def) (build_index ln t def) m) m ds) =
   foldl (\<lambda>m def. AList.update (ix_name def) def m) (map (map_prod id bt_definition) m) ds"
  by (induction ds arbitrary: m) (simp_all add: map_prod_update)

lemma index_ok_cong:
  "tb_schema t = tb_schema t' \<Longrightarrow> tb_rows t = tb_rows t' \<Longrightarrow> tb_row_ids t = tb_row_ids t' \<Longrightarrow>
   index_ok t ix = index_ok t' ix"
  by (simp add: index_ok_def ids_with_def)

lemma rebuild_index_simps [simp]:
  "tb_schema (rebuild_index ln t) = tb_schema t"
  "tb_rows (rebuild_index ln t) = tb_rows t"
  "tb_row_ids (rebuild_index ln t) = tb_row_ids t"
  "tb_next_row_id (rebuild_index ln t) = tb_next_row_id t"
  by (simp_all add: rebuild_index_def)

lemma rebuild_index_ok [rdb_inv]:
  assumes "ids_ok t"
  shows "table_ok (rebuild_index ln t)"
proof -
  have "ids_ok (rebuild_index ln t)" using assms by (simp add: ids_ok_def)
  moreover have "map (map_prod id bt_definition) (tb_indexes (rebuild_index ln t)) =
      index_defs (tb_schema t)"
    by (simp add: rebuild_index_def rebuild_defs index_defs_def)
  moreover have "index_ok (rebuild_index ln t) ix" if "(name, ix) \<in> set (tb_indexes (rebuild_index ln t))"
    for name ix
  proof -
    from that obtain def where "ix = build_index ln t def"
      using rebuild_fold [of "build_index ln t" "[]"] by (auto simp: rebuild_index_def)
    then have "index_ok t ix" using assms by (simp add: build_index_ok ids_ok_def)
    then show ?thesis by (subst index_ok_cong [of _ t]) simp_all
  qed
  ultimately show ?thesis by (auto simp: table_ok_def)
qed

section \<open>Insert and replace keep the invariant\<close>

lemma ids_with_append:
  assumes "length (tb_row_ids t) = length (tb_rows t)"
    and "tb_rows t' = tb_rows t @ [row]" "tb_row_ids t' = tb_row_ids t @ [i]" "tb_schema t' = tb_schema t"
  shows "ids_with t' cols key =
     ids_with t cols key \<union> (if index_key (tb_schema t) row cols = Some key then {i} else {})"
proof -
  have "{f p | p. p < Suc n \<and> Q p} = {f p | p. p < n \<and> Q p} \<union> (if Q n then {f n} else {})"
    for f :: "nat \<Rightarrow> nat" and n Q
    by (auto simp: less_Suc_eq)
  then show ?thesis using assms by (auto simp: ids_with_def nth_append less_Suc_eq)
qed

lemma map_defs_update:
  assumes "\<And>ix. bt_definition (g ix) = bt_definition ix"
  shows "map (map_prod id bt_definition) (map (\<lambda>(name, ix). (name, g ix)) m) =
         map (map_prod id bt_definition) m"
  by (auto simp: assms)

lemma add_key_lookup:
  assumes "btree_ok ix"
  shows "btree_ok (add_key ix (ko, i))"
    and "btree_lookup (add_key ix (ko, i)) key = btree_lookup ix key \<union> (if ko = Some key then {i} else {})"
  using btree.lookup_add_option [OF assms] by (simp_all add: add_key_def)

lemma index_ok_add_key:
  assumes "index_ok t ix" "length (tb_row_ids t) = length (tb_rows t)"
    and "tb_rows t' = tb_rows t @ [row]" "tb_row_ids t' = tb_row_ids t @ [i]" "tb_schema t' = tb_schema t"
  shows "index_ok t' (add_key ix (index_key (tb_schema t) row (ix_columns (bt_definition ix)), i))"
  using assms(1) by (simp add: index_ok_def ids_with_append [OF assms(2-5)] add_key_lookup)

lemma insert_row_indexed_ok [rdb_inv]:
  assumes "table_ok t" "tb_next_row_id t < u64_max" "insert_row_indexed t row = Inr t'"
  shows "table_ok t'"
proof -
  have valid: "validate_row (tb_schema t) row = Inr ()" and t': "tb_rows t' = tb_rows t @ [row]"
    "tb_row_ids t' = tb_row_ids t @ [tb_next_row_id t]" "tb_schema t' = tb_schema t"
    "tb_next_row_id t' = tb_next_row_id t + 1"
    "tb_indexes t' = map (\<lambda>(name, ix). (name, add_key ix
        (index_key (tb_schema t) row (ix_columns (bt_definition ix)), tb_next_row_id t))) (tb_indexes t)"
    using assms(2,3) by (auto simp: insert_row_indexed_def rbind_Inr_iff Let_def sat_add_exact)
  have len: "length (tb_row_ids t) = length (tb_rows t)" using assms(1) by (simp add: table_ok_def ids_ok_def)
  have "ids_ok t'" using assms(1) t'
    by (auto simp: table_ok_def ids_ok_def sorted_wrt_append less_SucI)
  moreover have "map (map_prod id bt_definition) (tb_indexes t') = index_defs (tb_schema t')"
    using assms(1) unfolding t'(5) by (subst map_defs_update) (simp_all add: table_ok_def t'(3))
  moreover have "index_ok t' ix" if "(name, ix) \<in> set (tb_indexes t')" for name ix
    using that assms(1) by (auto simp: t'(5) table_ok_def intro!: index_ok_add_key [OF _ len t'(1-3)])
  ultimately show ?thesis by (auto simp: table_ok_def)
qed

lemma ids_with_replace:
  assumes "distinct (tb_row_ids t)" "length (tb_row_ids t) = length (tb_rows t)"
    and "pos < length (tb_rows t)" "tb_rows t' = (tb_rows t)[pos := row]" "tb_row_ids t' = tb_row_ids t"
    and "tb_schema t' = tb_schema t"
  shows "ids_with t' cols key =
     (ids_with t cols key - (if index_key (tb_schema t) (tb_rows t ! pos) cols = Some key
                             then {tb_row_ids t ! pos} else {}))
     \<union> (if index_key (tb_schema t) row cols = Some key then {tb_row_ids t ! pos} else {})"
  using assms by (auto simp: ids_with_def nth_list_update nth_eq_iff_index_eq split: if_splits)

lemma replace_key_lookup:
  assumes "btree_ok ix" "\<And>k. old = Some k \<Longrightarrow> i \<in> btree_lookup ix k"
  shows "btree_ok (replace_key ix old new i)"
    and "btree_lookup (replace_key ix old new i) key =
           (btree_lookup ix key - (if old = Some key then {i} else {})) \<union> (if new = Some key then {i} else {})"
proof (atomize (full), cases "old = new")
  case True
  then show "btree_ok (replace_key ix old new i) \<and> btree_lookup (replace_key ix old new i) key =
     (btree_lookup ix key - (if old = Some key then {i} else {})) \<union> (if new = Some key then {i} else {})"
    using assms by (auto simp: replace_key_def)
next
  case False
  then show "btree_ok (replace_key ix old new i) \<and> btree_lookup (replace_key ix old new i) key =
     (btree_lookup ix key - (if old = Some key then {i} else {})) \<union> (if new = Some key then {i} else {})"
    unfolding replace_key_def add_key_def fst_conv snd_conv
    by (simp only: if_False btree.move_option [OF assms(1) refl] simp_thms)
qed

lemma bt_definition_replace_key [simp]: "bt_definition (replace_key ix old new i) = bt_definition ix"
  by (auto simp: replace_key_def split: option.splits)

lemma index_ok_replace_key:
  assumes "index_ok t ix" "distinct (tb_row_ids t)" "length (tb_row_ids t) = length (tb_rows t)"
    and "pos < length (tb_rows t)" "tb_rows t' = (tb_rows t)[pos := row]" "tb_row_ids t' = tb_row_ids t"
    and "tb_schema t' = tb_schema t"
  shows "index_ok t' (replace_key ix
     (index_key (tb_schema t) (tb_rows t ! pos) (ix_columns (bt_definition ix)))
     (index_key (tb_schema t) row (ix_columns (bt_definition ix))) (tb_row_ids t ! pos))"
proof -
  let ?cols = "ix_columns (bt_definition ix)"
  have "tb_row_ids t ! pos \<in> btree_lookup ix k"
    if "index_key (tb_schema t) (tb_rows t ! pos) ?cols = Some k" for k
    using that assms(1,4) by (auto simp: index_ok_def ids_with_def)
  then show ?thesis
    using assms(1) replace_key_lookup [of ix]
    by (simp add: index_ok_def ids_with_replace [OF assms(2-7)])
qed

lemma replace_row_indexed_ok [rdb_inv]:
  assumes "table_ok t" "replace_row_indexed t pos row = Inr t'"
  shows "table_ok t'"
proof -
  have ids: "ids_ok t" using assms(1) by (simp add: table_ok_def)
  then have len: "length (tb_row_ids t) = length (tb_rows t)" and dist: "distinct (tb_row_ids t)"
    by (auto simp: ids_ok_def strict_sorted_iff)
  have pos: "pos < length (tb_rows t)" and t': "tb_rows t' = (tb_rows t)[pos := row]"
    "tb_row_ids t' = tb_row_ids t" "tb_schema t' = tb_schema t" "tb_next_row_id t' = tb_next_row_id t"
    "tb_indexes t' = map (\<lambda>(name, ix). (name, replace_key ix
        (index_key (tb_schema t) (tb_rows t ! pos) (ix_columns (bt_definition ix)))
        (index_key (tb_schema t) row (ix_columns (bt_definition ix))) (tb_row_ids t ! pos))) (tb_indexes t)"
    using assms(2) by (auto simp: replace_row_indexed_def rbind_Inr_iff ok_or_def get_def
        split: if_splits option.splits)
  have "ids_ok t'" using ids t' by (simp add: ids_ok_def)
  moreover have "map (map_prod id bt_definition) (tb_indexes t') = index_defs (tb_schema t')"
    using assms(1) unfolding t'(5) by (subst map_defs_update) (simp_all add: table_ok_def t'(3))
  moreover have "index_ok t' ix" if "(name, ix) \<in> set (tb_indexes t')" for name ix
    using that assms(1)
    by (auto simp: t'(5) table_ok_def intro!: index_ok_replace_key [OF _ dist len pos t'(1-3)])
  ultimately show ?thesis by (auto simp: table_ok_def)
qed

text \<open>A maintained index answers like a rebuilt one.\<close>

definition index_answers :: "table \<Rightarrow> string \<Rightarrow> (index_def \<times> (index_key \<Rightarrow> nat set)) option" where
  "index_answers t name =
     map_option (\<lambda>ix. (bt_definition ix, btree_lookup ix)) (map_of (tb_indexes t) name)"

lemma index_answers_eq:
  assumes "table_ok t"
  shows "index_answers t name =
     map_option (\<lambda>d. (d, ids_with t (ix_columns d))) (map_of (index_defs (tb_schema t)) name)"
proof -
  have "map_of (map (map_prod id bt_definition) (tb_indexes t)) name =
      map_option bt_definition (map_of (tb_indexes t) name)"
    by (simp add: map_prod_def map_of_map)
  moreover have "btree_lookup ix = ids_with t (ix_columns (bt_definition ix))"
    if "map_of (tb_indexes t) name = Some ix" for ix
    using assms map_of_SomeD [OF that] by (intro ext) (auto simp: table_ok_def index_ok_def)
  ultimately show ?thesis using assms
    by (cases "map_of (tb_indexes t) name") (auto simp: index_answers_def table_ok_def)
qed

lemma table_ok_answers_rebuild:
  assumes "table_ok t"
  shows "index_answers t = index_answers (rebuild_index ln t)"
proof
  fix name
  have "table_ok (rebuild_index ln t)" using assms by (intro rebuild_index_ok) (simp add: table_ok_def)
  then show "index_answers t name = index_answers (rebuild_index ln t) name"
    using assms by (simp add: index_answers_eq ids_with_def [abs_def])
qed

section \<open>Binary search\<close>

lemma sorted_wrt_nth_mono: "sorted_wrt (<) (xs :: nat list) \<Longrightarrow> i \<le> j \<Longrightarrow> j < length xs \<Longrightarrow> xs ! i \<le> xs ! j"
  by (cases "i = j") (auto dest: sorted_wrt_nth_less [of "(<)" xs i j])

lemma bsearch_base_bounds:
  assumes "sorted_wrt (<) xs" "p < length xs" "xs ! p = x"
    and "base \<le> p" "p < base + sz" "base + sz \<le> length xs"
  shows "bsearch_base xs x base sz = p"
  using assms(4-6)
proof (induction sz arbitrary: base rule: less_induct)
  case (less sz)
  show ?case
  proof (cases "sz \<le> 1")
    case True
    with less.prems show ?thesis by (subst bsearch_base.simps) simp
  next
    case False
    let ?mid = "base + sz div 2"
    have mid: "?mid < length xs" and small: "sz - sz div 2 < sz" using False less.prems by auto
    have cut: "x < xs ! ?mid \<longleftrightarrow> p < ?mid"
      using assms(1-3) mid sorted_wrt_nth_less [OF assms(1), of p ?mid]
        sorted_wrt_nth_mono [OF assms(1), of ?mid p] by (cases "p < ?mid") auto
    have "bsearch_base xs x (if p < ?mid then base else ?mid) (sz - sz div 2) = p"
      using less.prems False by (intro less.IH [OF small]) auto
    with False cut show ?thesis by (subst bsearch_base.simps) (simp add: Let_def)
  qed
qed

lemma bsearch_base_less:
  "0 < sz \<Longrightarrow> base + sz \<le> length xs \<Longrightarrow> bsearch_base xs x base sz < length xs"
proof (induction xs x base sz rule: bsearch_base.induct)
  case (1 xs x base sz)
  show ?case
  proof (cases "sz \<le> 1")
    case True
    with 1 show ?thesis by (subst bsearch_base.simps) simp
  next
    case False
    then have "0 < sz - sz div 2" "base + sz div 2 + (sz - sz div 2) \<le> length xs"
      "base + (sz - sz div 2) \<le> length xs"
      using 1 by auto
    with False show ?thesis
      using 1(1) [OF False refl refl] by (subst bsearch_base.simps) (simp add: Let_def)
  qed
qed

lemma binary_search_iff:
  assumes "sorted_wrt (<) xs"
  shows "binary_search xs x = Some p \<longleftrightarrow> p < length xs \<and> xs ! p = x"
proof
  assume "binary_search xs x = Some p"
  then show "p < length xs \<and> xs ! p = x"
    using bsearch_base_less [of "length xs" 0 xs x]
    by (auto simp: binary_search_def Let_def split: if_splits)
next
  assume "p < length xs \<and> xs ! p = x"
  then show "binary_search xs x = Some p"
    using bsearch_base_bounds [OF assms, of p x 0 "length xs"]
    by (auto simp: binary_search_def Let_def)
qed

section \<open>The conflict search is exact\<close>

text \<open>Two rows clash when a unique index gives them the same key, without a null in it.\<close>

definition unique_clash :: "table \<Rightarrow> row \<Rightarrow> row \<Rightarrow> bool" where
  "unique_clash t row other \<longleftrightarrow>
     list_ex (\<lambda>(name, d). ix_unique d \<and>
        (case index_key (tb_schema t) row (ix_columns d) of
           Some key \<Rightarrow> KNull \<notin> set key \<and> index_key (tb_schema t) other (ix_columns d) = Some key
         | None \<Rightarrow> False)) (index_defs (tb_schema t))"

lemma foldl_union: "foldl (\<lambda>acc x. acc \<union> f x) A xs = A \<union> (\<Union>x\<in>set xs. f x)"
  by (induction xs arbitrary: A) auto

lemma index_conflicts_iff:
  assumes "ids_ok t" "index_ok t ix"
  shows "p \<in> index_conflicts t row ix \<longleftrightarrow>
     (\<exists>key. index_key (tb_schema t) row (ix_columns (bt_definition ix)) = Some key \<and> KNull \<notin> set key \<and>
        p < length (tb_rows t) \<and>
        index_key (tb_schema t) (tb_rows t ! p) (ix_columns (bt_definition ix)) = Some key)"
proof (cases "index_key (tb_schema t) row (ix_columns (bt_definition ix))")
  case None
  then show ?thesis by (simp add: index_conflicts_def)
next
  case (Some key)
  have sorted: "sorted_wrt (<) (tb_row_ids t)" and len: "length (tb_row_ids t) = length (tb_rows t)"
    using assms(1) by (auto simp: ids_ok_def)
  then have dist: "distinct (tb_row_ids t)" by (simp add: strict_sorted_iff)
  have bt: "btree_ok ix" and lk: "btree_lookup ix key = ids_with t (ix_columns (bt_definition ix)) key"
    using assms(2) by (auto simp: index_ok_def)
  have "index_conflicts t row ix = (if KNull \<in> set key then {} else
      \<Union> ((\<lambda>i. set_option (binary_search (tb_row_ids t) i)) ` btree_lookup ix key))"
    using btree_filtered_lookup [OF bt, of key] Some
    by (auto simp: index_conflicts_def entries_get_def btree_lookup_def split: option.splits if_splits)
  also have "\<dots> = (if KNull \<in> set key then {} else
      {p. p < length (tb_rows t) \<and> index_key (tb_schema t) (tb_rows t ! p) (ix_columns (bt_definition ix)) = Some key})"
    using dist len unfolding lk ids_with_def
    by (auto simp: binary_search_iff [OF sorted] nth_eq_iff_index_eq)
  finally show ?thesis using Some by auto
qed

lemma unique_conflict_positions_iff:
  assumes "table_ok t"
  shows "p \<in> unique_conflict_positions t row \<longleftrightarrow>
     p < length (tb_rows t) \<and> unique_clash t row (tb_rows t ! p)"
proof -
  have ids: "ids_ok t" and ix: "\<And>name ix. (name, ix) \<in> set (tb_indexes t) \<Longrightarrow> index_ok t ix"
    and defs: "index_defs (tb_schema t) = map (map_prod id bt_definition) (tb_indexes t)"
    using assms by (auto simp: table_ok_def)
  have "p \<in> unique_conflict_positions t row \<longleftrightarrow>
      (\<exists>(name, ix) \<in> set (tb_indexes t). ix_unique (bt_definition ix) \<and> p \<in> index_conflicts t row ix)"
    by (force simp: unique_conflict_positions_def case_prod_beta' foldl_union)
  also have "\<dots> \<longleftrightarrow> p < length (tb_rows t) \<and> unique_clash t row (tb_rows t ! p)"
    using index_conflicts_iff [OF ids ix]
    by (fastforce simp: unique_clash_def defs list_ex_iff split: option.splits)
  finally show ?thesis .
qed

section \<open>Candidates contain every matching row\<close>

text \<open>
  What an indexed predicate means on the key part of a row. Only equalities and ranges are
  ever looked up.
\<close>

definition key_pred_holds :: "table_schema \<Rightarrow> row \<Rightarrow> index_predicate \<Rightarrow> bool" where
  "key_pred_holds s row p = (case column_index s (ip_column p) of
     None \<Rightarrow> True
   | Some i \<Rightarrow> (case get row i of
        Some v \<Rightarrow> ip_operator p = OpEqual \<or> is_range_op (ip_operator p) \<longrightarrow>
          compare_key_part (key_part_of v) (key_part_of (ip_value p)) (ip_operator p)
      | None \<Rightarrow> True))"

lemma column_index_ci: "eq_ignore_ascii_case a b \<Longrightarrow> column_index s a = column_index s b"
  by (simp add: column_index_def eq_ignore_ascii_case_def)

lemma compare_key_part_Equal [simp]: "compare_key_part a b OpEqual \<longleftrightarrow> a = b"
  by (simp add: compare_key_part_def)

lemma index_key_Cons:
  "index_key s row (c # cs) = Some key \<longleftrightarrow>
     (\<exists>i v rest. column_index s c = Some i \<and> get row i = Some v \<and> key = key_part_of v # rest \<and>
        index_key s row cs = Some rest)"
  by (auto simp: index_key_def split: option.splits) (auto simp: bind_eq_Some_conv)

lemma index_key_length: "index_key s row cols = Some key \<Longrightarrow> length key = length cols"
proof (induction cols arbitrary: key)
  case Nil
  then show ?case by (simp add: index_key_def)
qed (auto simp: index_key_Cons)

lemma scan_prefix_row:
  assumes "scan_prefix preds cols pre = (prefix, rng)" "index_key s row cols = Some key"
    and "\<forall>p \<in> set preds. key_pred_holds s row p"
  shows "\<exists>m \<le> length key. prefix = pre @ take m key \<and>
           (\<forall>op v. rng = Some (op, v) \<longrightarrow> m < length key \<and> compare_key_part (key ! m) v op)"
  using assms(1,2)
proof (induction cols arbitrary: pre key)
  case Nil
  then show ?case by (auto intro: exI [of _ 0])
next
  case (Cons c cols)
  from Cons.prems(2) obtain i v rest where key: "column_index s c = Some i" "get row i = Some v"
    "key = key_part_of v # rest" "index_key s row cols = Some rest"
    by (auto simp: index_key_Cons)
  show ?case
  proof (cases "find (\<lambda>p. eq_ignore_ascii_case (ip_column p) c) preds")
    case None
    with Cons.prems show ?thesis by (auto intro: exI [of _ 0])
  next
    case (Some p)
    then have "p \<in> set preds" "eq_ignore_ascii_case (ip_column p) c"
      by (auto simp: find_Some_iff)
    with assms(3) have cmp: "ip_operator p = OpEqual \<or> is_range_op (ip_operator p) \<Longrightarrow> compare_key_part (key_part_of v) (key_part_of (ip_value p)) (ip_operator p)"
      using key column_index_ci [of "ip_column p" c s] by (fastforce simp: key_pred_holds_def)
    show ?thesis
    proof (cases "ip_operator p = OpEqual")
      case True
      with cmp have "key_part_of (ip_value p) = key_part_of v" by simp
      with Some True Cons.prems(1) have "scan_prefix preds cols (pre @ [key_part_of v]) = (prefix, rng)"
        by simp
      from Cons.IH [OF this key(4)] obtain m where "m \<le> length rest" "prefix = pre @ [key_part_of v] @ take m rest"
        "\<forall>op v. rng = Some (op, v) \<longrightarrow> m < length rest \<and> compare_key_part (rest ! m) v op"
        by auto
      then show ?thesis by (intro exI [of _ "Suc m"]) (simp add: key(3))
    next
      case False
      with Some Cons.prems(1) cmp key(3) show ?thesis by (auto intro!: exI [of _ 0] split: if_splits)
    qed
  qed
qed

lemma scan_ids_row:
  assumes "index_ok t ix" "p < length (tb_rows t)"
    and "index_key (tb_schema t) (tb_rows t ! p) (ix_columns (bt_definition ix)) = Some key"
    and "m \<le> length key" "prefix = take m key"
    and "\<forall>op v. rng = Some (op, v) \<longrightarrow> m < length key \<and> compare_key_part (key ! m) v op"
  shows "tb_row_ids t ! p \<in> scan_ids ix prefix rng"
proof -
  have bt: "btree_ok ix" and mem: "tb_row_ids t ! p \<in> btree_lookup ix key"
    using assms(1-3) by (auto simp: index_ok_def ids_with_def)
  have len: "length key = length (ix_columns (bt_definition ix))" by (rule index_key_length [OF assms(3)])
  show ?thesis
  proof (cases "length prefix = length (ix_columns (bt_definition ix)) \<and> rng = None")
    case True
    with assms(4,5) len have "prefix = key" by simp
    with True mem btree_filtered_lookup [OF bt, of key] show ?thesis by (simp add: scan_ids_def)
  next
    case False
    from mem obtain ids where "(key, ids) \<in> set (bt_entries ix)" "tb_row_ids t ! p \<in> ids"
      using btree_entry_iff [OF bt] by blast
    moreover have "starts_with key prefix \<and> range_matches rng (length prefix) key"
      using assms(4-6) by (auto simp: starts_with_def range_matches_def split: option.splits)
    ultimately show ?thesis using False by (auto simp: scan_ids_def)
  qed
qed

lemma candidate_fold_mem:
  assumes "foldl (pick_candidate preds) best ixs = Some (ids, name, score)"
  shows "best = Some (ids, name, score) \<or>
     (\<exists>x \<in> set ixs. scan_index preds (snd x) = Some (ids, score) \<and> name = ix_name (bt_definition (snd x)))"
  using assms
proof (induction ixs arbitrary: best)
  case (Cons x ixs)
  from Cons.IH [of "pick_candidate preds best x"] Cons.prems
  have "pick_candidate preds best x = Some (ids, name, score) \<or> (\<exists>x \<in> set ixs.
      scan_index preds (snd x) = Some (ids, score) \<and> name = ix_name (bt_definition (snd x)))" by simp
  then show ?case by (auto simp: pick_candidate_def split: option.splits if_splits)
qed simp

lemma candidate_row_ids_SomeD:
  assumes "candidate_row_ids t (Some e) = Some (ids, name)"
  obtains n ix score where "(n, ix) \<in> set (tb_indexes t)" "name = ix_name (bt_definition ix)"
    "scan_index (collect_index_predicates e) ix = Some (ids, score)"
proof -
  from assms obtain score where
    "foldl (pick_candidate (collect_index_predicates e)) None (tb_indexes t) = Some (ids, name, score)"
    by (auto simp: candidate_row_ids_def)
  from candidate_fold_mem [OF this] that show ?thesis by auto
qed

lemma candidate_row_ids_complete:
  assumes "table_ok t" "candidate_row_ids t (Some e) = Some (ids, name)" "p < length (tb_rows t)"
    and "\<And>d. d \<in> set (sch_indexes (tb_schema t)) \<Longrightarrow> index_key (tb_schema t) (tb_rows t ! p) (ix_columns d) \<noteq> None"
    and "\<forall>q \<in> set (collect_index_predicates e). key_pred_holds (tb_schema t) (tb_rows t ! p) q"
  shows "tb_row_ids t ! p \<in> ids"
proof -
  from candidate_row_ids_SomeD [OF assms(2)] obtain n ix score where ix: "(n, ix) \<in> set (tb_indexes t)"
    "scan_index (collect_index_predicates e) ix = Some (ids, score)" by metis
  then obtain prefix rng where scan:
    "scan_prefix (collect_index_predicates e) (ix_columns (bt_definition ix)) [] = (prefix, rng)"
    "ids = scan_ids ix prefix rng"
    by (auto simp: scan_index_def split: prod.splits if_splits)
  have "(n, bt_definition ix) \<in> set (index_defs (tb_schema t))"
    using assms(1) ix(1) unfolding table_ok_def by (metis (no_types, lifting) id_apply image_eqI list.set_map map_prod_simp)
  then have "bt_definition ix \<in> set (sch_indexes (tb_schema t))"
    using rebuild_fold [of "\<lambda>d. d" "[]" "sch_indexes (tb_schema t)"] by (auto simp: index_defs_def)
  then obtain key where key:
    "index_key (tb_schema t) (tb_rows t ! p) (ix_columns (bt_definition ix)) = Some key"
    using assms(4) by blast
  from scan_prefix_row [OF scan(1) key assms(5)] obtain m where "m \<le> length key" "prefix = take m key"
    "\<forall>op v. rng = Some (op, v) \<longrightarrow> m < length key \<and> compare_key_part (key ! m) v op" by auto
  moreover have "index_ok t ix" using assms(1) ix(1) by (auto simp: table_ok_def)
  ultimately show ?thesis unfolding scan(2) using scan_ids_row [OF _ assms(3) key] by blast
qed

end
