(* ===== verification/ExprEval.thy ===== *)
theory ExprEval
  imports TableStore
begin

text \<open>
  The catalog, relations and the expression evaluator of \<^verbatim>\<open>src/src/sql/executor.rs\<close> (lines
  502 to 585, 1841 to 1869 and 2397 to 2773): column resolution, arithmetic, three-valued
  logic, \<open>IN\<close>, subquery expressions and aggregates. Subqueries are run by an argument of the
  evaluator, which \<open>execute_query\<close> ties to itself. The lemmas show that the keys used for
  \<open>DISTINCT\<close> and \<open>GROUP BY\<close> are injective and that removing duplicates by them keeps the
  first occurrences; \<open>Aggregates\<close> shows where a sum of integers is exact.
\<close>

section \<open>Catalog and relations\<close>

text \<open>
  The scratch pool and the subquery cache of \<open>Catalog\<close> hold no data a result depends on:
  buffers are handed out empty, and a cached subquery is what running it again returns.
\<close>

record catalog =
  cat_version :: nat
  cat_schema_version :: nat
  cat_tables :: "(string, table) hmap"

definition catalog_default :: catalog where
  "catalog_default = \<lparr>cat_version = 0, cat_schema_version = 0, cat_tables = []\<rparr>"

definition catalog_from_tables :: "(f64 \<Rightarrow> f64) \<Rightarrow> (string, table) hmap \<Rightarrow> catalog" where
  "catalog_from_tables ln tables =
     \<lparr>cat_version = 0, cat_schema_version = 0,
      cat_tables = foldl (\<lambda>m (name, t). AList.update (to_ascii_lowercase name) (migrate_legacy_rows ln t) m)
        [] tables\<rparr>"

definition configure_bloom_false_positive_rate :: "(f64 \<Rightarrow> f64) \<Rightarrow> catalog \<Rightarrow> f64 \<Rightarrow> catalog" where
  "configure_bloom_false_positive_rate ln cat rate =
     cat\<lparr>cat_tables := map (\<lambda>(name, t). (name, set_bloom_false_positive_rate ln t rate)) (cat_tables cat)\<rparr>"

record scratch_pool =
  sp_capacity :: nat
  sp_buffers :: "val list list"

definition pool_acquire :: "scratch_pool \<Rightarrow> val list \<times> scratch_pool" where
  "pool_acquire p = (case sp_buffers p of [] \<Rightarrow> ([], p)
     | bs \<Rightarrow> (last bs, p\<lparr>sp_buffers := butlast bs\<rparr>))"

definition pool_release :: "scratch_pool \<Rightarrow> val list \<Rightarrow> scratch_pool" where
  "pool_release p buffer =
     (if length (sp_buffers p) < sp_capacity p then p\<lparr>sp_buffers := sp_buffers p @ [[]]\<rparr> else p)"

record bound_column =
  bc_table :: string
  bc_name :: string

record relation =
  rel_columns :: "bound_column list"
  rel_rows :: "row list"

type_synonym ctes = "(string, relation) hmap"

definition relation_to_result :: "relation \<Rightarrow> result_set" where
  "relation_to_result r = \<lparr>rs_columns = map bc_name (rel_columns r), rs_rows = rel_rows r\<rparr>"

definition set_table :: "string \<Rightarrow> bound_column list \<Rightarrow> bound_column list" where
  "set_table name cols = map (\<lambda>c. c\<lparr>bc_table := name\<rparr>) cols"

section \<open>Columns, keys and values\<close>

definition column_matches :: "string option \<Rightarrow> string \<Rightarrow> bound_column \<Rightarrow> bool" where
  "column_matches qualifier name c \<longleftrightarrow> eq_ignore_ascii_case (bc_name c) name \<and>
     (case qualifier of None \<Rightarrow> True | Some q \<Rightarrow> eq_ignore_ascii_case (bc_table c) q)"

definition resolve_column :: "bound_column list \<Rightarrow> string option \<Rightarrow> string \<Rightarrow> nat res" where
  "resolve_column columns qualifier name =
     (case filter (\<lambda>i. column_matches qualifier name (columns ! i)) [0..<length columns] of
        [i] \<Rightarrow> Inr i
      | [] \<Rightarrow> Inl (Fail (''Unknown column '' @ quoted
               ((case qualifier of Some q \<Rightarrow> q @ ''.'' | None \<Rightarrow> []) @ name)))
      | _ \<Rightarrow> Inl (Fail (''Ambiguous column '' @ quoted name)))"

fun truth_value :: "sql_truth \<Rightarrow> val" where
  "truth_value STrue = VBoolean True"
| "truth_value SFalse = VBoolean False"
| "truth_value SUnknown = VNull"

fun numeric_binary :: "(i64 \<Rightarrow> i64 \<Rightarrow> i64 res) \<Rightarrow> (f64 \<Rightarrow> f64 \<Rightarrow> f64) \<Rightarrow> val \<Rightarrow> val \<Rightarrow> val res" where
  "numeric_binary integer flt VNull _ = Inr VNull"
| "numeric_binary integer flt _ VNull = Inr VNull"
| "numeric_binary integer flt (VInteger a) (VInteger b) = rbind (integer a b) (\<lambda>c. Inr (VInteger c))"
| "numeric_binary integer flt (VInteger a) (VFloat b) = Inr (VFloat (flt (f64_of_i64 a) b))"
| "numeric_binary integer flt (VFloat a) (VInteger b) = Inr (VFloat (flt a (f64_of_i64 b)))"
| "numeric_binary integer flt (VFloat a) (VFloat b) = Inr (VFloat (flt a b))"
| "numeric_binary integer flt _ _ = Inl (Fail ''Arithmetic requires numeric values'')"

text \<open>\<open>a / b\<close> on \<open>i64\<close>, \<open>b\<close> not zero: truncation, and a panic when the quotient overflows.\<close>

definition i64_div :: "i64 \<Rightarrow> i64 \<Rightarrow> i64 res" where
  "i64_div a b =
     (if sint a = - (2 ^ 63) \<and> sint b = - 1 then Inl (Panic ''attempt to divide with overflow'')
      else Inr (of_int (sgn (sint a) * sgn (sint b) * (\<bar>sint a\<bar> div \<bar>sint b\<bar>))))"

fun is_zero_number :: "val \<Rightarrow> bool" where
  "is_zero_number (VInteger i) = (i = 0)"
| "is_zero_number (VFloat f) = f64_eq f f64_zero"
| "is_zero_number _ = False"

definition arith :: "binary_op \<Rightarrow> val \<Rightarrow> val \<Rightarrow> val res" where
  "arith op left right = (case op of
     BCompare operator \<Rightarrow> Inr (truth_value (compare_sql left right operator))
   | BAdd \<Rightarrow> numeric_binary (\<lambda>a b. Inr (a + b)) f64_add left right
   | BSubtract \<Rightarrow> numeric_binary (\<lambda>a b. Inr (a - b)) f64_sub left right
   | BMultiply \<Rightarrow> numeric_binary (\<lambda>a b. Inr (a * b)) f64_mul left right
   | BDivide \<Rightarrow> (if is_zero_number right then Inl (Fail ''Division by zero'')
                 else numeric_binary i64_div f64_div left right)
   | _ \<Rightarrow> Inl (Panic ''entered unreachable code''))"

fun unary :: "unary_op \<Rightarrow> val \<Rightarrow> val res" where
  "unary UNot v = Inr (truth_value (truth_negate (truth v)))"
| "unary _ VNull = Inr VNull"
| "unary UNegate (VInteger i) = Inr (VInteger (- i))"
| "unary UNegate (VFloat f) = Inr (VFloat (f64_neg f))"
| "unary UPlus (VInteger i) = Inr (VInteger i)"
| "unary UPlus (VFloat f) = Inr (VFloat f)"
| "unary _ _ = Inl (Fail ''Unary operator requires a numeric/boolean value'')"

fun in_loop :: "val \<Rightarrow> bool \<Rightarrow> val list \<Rightarrow> bool \<Rightarrow> sql_truth" where
  "in_loop v negated [] unknown =
     (let result = (if unknown then SUnknown else SFalse) in
      if negated then truth_negate result else result)"
| "in_loop v negated (c # cs) unknown =
     (case compare_sql v c OpEqual of
        STrue \<Rightarrow> if negated then SFalse else STrue
      | SUnknown \<Rightarrow> in_loop v negated cs True
      | SFalse \<Rightarrow> in_loop v negated cs unknown)"

definition in_values :: "val \<Rightarrow> val list \<Rightarrow> bool \<Rightarrow> sql_truth" where
  "in_values v vs negated = (if is_null v then SUnknown else in_loop v negated vs False)"

fun value_key :: "val \<Rightarrow> string" where
  "value_key VNull = ''n''"
| "value_key (VBoolean b) = ''b:'' @ show_bool b"
| "value_key (VInteger i) = ''i:'' @ show_int (sint i)"
| "value_key (VFloat f) = ''f:'' @ show_hex 16 (unat f)"
| "value_key (VText s) = ''s:'' @ show_nat (length s) @ '':'' @ s"

definition row_key :: "row \<Rightarrow> string" where
  "row_key row = join_with [CHR 0x1F] (map value_key row)"

fun hash_join_key :: "val \<Rightarrow> string" where
  "hash_join_key (VInteger i) = ''number:'' @ show_hex 16 (unat (f64_of_i64 i))"
| "hash_join_key (VFloat f) = ''number:'' @ show_hex 16 (unat f)"
| "hash_join_key v = value_key v"

section \<open>Aggregates\<close>

text \<open>\<open>retain(|x| seen.insert(key(x)))\<close>.\<close>

fun retain_first :: "('a \<Rightarrow> string) \<Rightarrow> string set \<Rightarrow> 'a list \<Rightarrow> 'a list" where
  "retain_first key seen [] = []"
| "retain_first key seen (x # xs) =
     (if key x \<in> seen then retain_first key seen xs
      else x # retain_first key (insert (key x) seen) xs)"

definition value_ordering :: "val \<Rightarrow> val \<Rightarrow> ordering" where
  "value_ordering a b = (case value_partial_cmp a b of Some o' \<Rightarrow> o' | None \<Rightarrow> Equal)"

definition sum_step :: "f64 \<times> bool \<Rightarrow> val \<Rightarrow> (f64 \<times> bool) res" where
  "sum_step s v = (case v of
     VInteger i \<Rightarrow> Inr (f64_add (fst s) (f64_of_i64 i), snd s)
   | VFloat f \<Rightarrow> Inr (f64_add (fst s) f, False)
   | _ \<Rightarrow> Inl (Fail ''SUM/AVG requires numeric values''))"

definition aggregate_values :: "aggregate_function \<Rightarrow> bool \<Rightarrow> val list \<Rightarrow> val res" where
  "aggregate_values function dedup values0 =
     (let values1 = (if dedup then retain_first value_key {} values0 else values0) in
      if function = AggCount then
        Inr (VInteger (of_nat (length (filter (\<lambda>v. \<not> is_null v) values1))))
      else
        let values = filter (\<lambda>v. \<not> is_null v) values1 in
        if values = [] then Inr VNull
        else (case function of
           AggMin \<Rightarrow> Inr (foldl (\<lambda>x y. if value_ordering x y = Greater then y else x) (hd values) (tl values))
         | AggMax \<Rightarrow> Inr (foldl (\<lambda>x y. if value_ordering x y = Greater then x else y) (hd values) (tl values))
         | _ \<Rightarrow> rbind (res_fold sum_step (f64_zero, True) values) (\<lambda>(sum, all_integer).
                  if function = AggAvg
                  then Inr (VFloat (f64_div sum (f64_of_int (int (length values)))))
                  else if all_integer then Inr (VInteger (f64_to_i64 sum))
                  else Inr (VFloat sum))))"

section \<open>Expressions\<close>

record cached_subquery =
  cs_relation :: relation
  cs_first_column_keys :: "string set"
  cs_first_column_has_null :: bool

definition cache_subquery :: "relation \<Rightarrow> cached_subquery" where
  "cache_subquery r =
     (let firsts = concat (map (\<lambda>row. case row of v # _ \<Rightarrow> [v] | [] \<Rightarrow> []) (rel_rows r)) in
      \<lparr>cs_relation = r,
       cs_first_column_keys = set (map hash_join_key (filter (\<lambda>v. \<not> is_null v) firsts)),
       cs_first_column_has_null = list_ex is_null firsts\<rparr>)"

definition execute_subquery :: "(query \<Rightarrow> relation res) \<Rightarrow> query \<Rightarrow> cached_subquery res" where
  "execute_subquery runq q = rbind (runq q) (\<lambda>r. Inr (cache_subquery r))"

definition in_subquery :: "val \<Rightarrow> bool \<Rightarrow> cached_subquery \<Rightarrow> val res" where
  "in_subquery v negated cached =
     (if length (rel_columns (cs_relation cached)) \<noteq> 1
      then Inl (Fail ''IN subquery must return one column'')
      else let truth = (if is_null v then SUnknown
                else if hash_join_key v \<in> cs_first_column_keys cached then STrue
                else if cs_first_column_has_null cached then SUnknown else SFalse)
           in Inr (truth_value (if negated then truth_negate truth else truth)))"

definition scalar_subquery :: "cached_subquery \<Rightarrow> val res" where
  "scalar_subquery cached =
     (if length (rel_columns (cs_relation cached)) \<noteq> 1
      then Inl (Fail ''Scalar subquery must return one column'')
      else case rel_rows (cs_relation cached) of
         [] \<Rightarrow> Inr VNull
       | [row] \<Rightarrow> idx row 0
       | _ \<Rightarrow> Inl (Fail ''Scalar subquery returned more than one row''))"

text \<open>
  \<open>runq\<close> runs a subquery against the catalog and the CTEs in scope. A group is \<open>None\<close>
  outside aggregation.
\<close>

fun eval_expr :: "(query \<Rightarrow> relation res) \<Rightarrow> expr \<Rightarrow> bound_column list \<Rightarrow> row \<Rightarrow> row list option \<Rightarrow> val res" where
  "eval_expr runq (Literal v) columns row grp = Inr v"
| "eval_expr runq (Parameter i) columns row grp =
     Inl (Fail (''Unbound prepared-statement parameter '' @ show_nat i))"
| "eval_expr runq (Incoming column) columns row grp =
     Inl (Fail (''Incoming value '' @ quoted column @ '' is only valid in ON DUPLICATE KEY UPDATE''))"
| "eval_expr runq (Column qualifier name) columns row grp =
     rbind (resolve_column columns qualifier name) (\<lambda>i.
       ok_or (get row i) (''Column '' @ quoted name @ '' is unavailable''))"
| "eval_expr runq (Unary op e) columns row grp =
     rbind (eval_expr runq e columns row grp) (\<lambda>v. unary op v)"
| "eval_expr runq (Binary left op right) columns row grp =
     (if op = BAnd then
        rbind (eval_expr runq left columns row grp) (\<lambda>l.
          if truth l = SFalse then Inr (VBoolean False)
          else rbind (eval_expr runq right columns row grp) (\<lambda>r.
            Inr (truth_value (truth_and (truth l) (truth r)))))
      else if op = BOr then
        rbind (eval_expr runq left columns row grp) (\<lambda>l.
          if truth l = STrue then Inr (VBoolean True)
          else rbind (eval_expr runq right columns row grp) (\<lambda>r.
            Inr (truth_value (truth_or (truth l) (truth r)))))
      else
        rbind (eval_expr runq left columns row grp) (\<lambda>l.
          rbind (eval_expr runq right columns row grp) (\<lambda>r. arith op l r)))"
| "eval_expr runq (IsNull e negated) columns row grp =
     rbind (eval_expr runq e columns row grp) (\<lambda>v.
       Inr (VBoolean (if negated then \<not> is_null v else is_null v)))"
| "eval_expr runq (Like e pattern negated) columns row grp =
     rbind (eval_expr runq e columns row grp) (\<lambda>v.
       rbind (eval_expr runq pattern columns row grp) (\<lambda>p.
         let t = compare_sql v p OpLike in
         Inr (truth_value (if negated then truth_negate t else t))))"
| "eval_expr runq (InList e items negated) columns row grp =
     rbind (eval_expr runq e columns row grp) (\<lambda>v.
       rbind (res_map (\<lambda>item. eval_expr runq item columns row grp) items) (\<lambda>vs.
         Inr (truth_value (in_values v vs negated))))"
| "eval_expr runq (InSubquery e q negated) columns row grp =
     rbind (eval_expr runq e columns row grp) (\<lambda>v.
       rbind (execute_subquery runq q) (\<lambda>cached. in_subquery v negated cached))"
| "eval_expr runq (Exists q negated) columns row grp =
     rbind (execute_subquery runq q) (\<lambda>cached.
       let exists = rel_rows (cs_relation cached) \<noteq> [] in
       Inr (VBoolean (if negated then \<not> exists else exists)))"
| "eval_expr runq (ScalarSubquery q) columns row grp =
     rbind (execute_subquery runq q) scalar_subquery"
| "eval_expr runq (Aggregate function e dedup) columns row grp =
     rbind (ok_or grp ''Aggregate used outside grouping'') (\<lambda>rows.
       rbind (case e of
                Some e' \<Rightarrow> res_map (\<lambda>r. eval_expr runq e' columns r None) rows
              | None \<Rightarrow> Inr (replicate (length rows) (VInteger 1))) (\<lambda>vs.
         aggregate_values function dedup vs))"

section \<open>Keys of values and rows are injective\<close>

abbreviation key_sep :: char where
  "key_sep \<equiv> CHR 0x1F"

definition sep_rest :: "string \<Rightarrow> bool" where
  "sep_rest r \<longleftrightarrow> r = [] \<or> hd r = key_sep"

lemma takeWhile_sep:
  assumes "key_sep \<notin> set xs" "sep_rest r"
  shows "takeWhile (\<lambda>c. c \<noteq> key_sep) (xs @ r) = xs"
proof -
  have "takeWhile (\<lambda>c. c \<noteq> key_sep) r = []" using assms(2) by (cases r) (auto simp: sep_rest_def)
  then show ?thesis using assms(1) by (subst takeWhile_append2) auto
qed

lemma append_sep_inject:
  assumes "key_sep \<notin> set xs" "key_sep \<notin> set ys" "sep_rest r" "sep_rest r'" "xs @ r = ys @ r'"
  shows "xs = ys \<and> r = r'"
  using takeWhile_sep [OF assms(1,3)] takeWhile_sep [OF assms(2,4)] assms(5) by auto

lemma append_colon_inject:
  assumes "c \<notin> set xs" "c \<notin> set ys" "xs @ c # r = ys @ c # r'"
  shows "xs = ys \<and> r = r'"
  using assms
proof (induction xs arbitrary: ys)
  case Nil
  then show ?case by (cases ys) auto
next
  case (Cons x xs)
  then show ?case by (cases ys) auto
qed

lemma show_int_no_sep: "key_sep \<notin> set (show_int i)"
  using show_int_chars [of key_sep i] by (auto simp: is_digit_def)

lemma show_nat_no_colon: "CHR '':'' \<notin> set (show_nat n)"
  using show_nat_digits [of "CHR '':''" n] by (auto simp: is_digit_def)

lemma unat_less_16: "unat (f :: f64) < 16 ^ 16"
  using unat_f64_bound [of f] by simp

lemma value_key_inject:
  assumes "value_key a @ r = value_key b @ r'" "sep_rest r" "sep_rest r'"
  shows "a = b \<and> r = r'"
proof (cases "\<exists>s t. a = VText s \<and> b = VText t")
  case True
  then obtain s t where ab: "a = VText s" "b = VText t" by auto
  with assms(1) have "show_nat (length s) @ CHR '':'' # (s @ r) = show_nat (length t) @ CHR '':'' # (t @ r')"
    by simp
  from append_colon_inject [OF show_nat_no_colon show_nat_no_colon this]
  have "length s = length t" "s @ r = t @ r'" by auto
  then show ?thesis by (simp add: ab)
next
  case False
  show ?thesis
  proof (cases "\<exists>i j. a = VInteger i \<and> b = VInteger j")
    case True
    then obtain i j where ab: "a = VInteger i" "b = VInteger j" by auto
    have "show_int (sint i) = show_int (sint j) \<and> r = r'"
      using assms(1) by (intro append_sep_inject [OF show_int_no_sep show_int_no_sep assms(2,3)])
        (simp add: ab)
    then show ?thesis by (simp add: ab sint_inject)
  next
    case False
    with \<open>\<not> (\<exists>s t. a = VText s \<and> b = VText t)\<close> assms show ?thesis
      by (cases a; cases b) (auto simp: show_bool_def append_eq_append_conv
          intro: unsigned_word_eqI dest: show_hex_inj [OF unat_less_16 unat_less_16] split: if_splits)
  qed
qed

lemma value_key_inj [simp]: "value_key a = value_key b \<longleftrightarrow> a = b"
  using value_key_inject [of a "[]" b "[]"] by (auto simp: sep_rest_def)

lemma value_key_nonempty [simp]: "value_key a \<noteq> []"
  by (cases a) auto

lemma row_key_Cons: "row_key (v # row) = value_key v @ (if row = [] then [] else key_sep # row_key row)"
  by (cases row) (simp_all add: row_key_def)

lemma row_key_inj [simp]: "row_key r = row_key s \<longleftrightarrow> r = s"
proof
  show "row_key r = row_key s \<Longrightarrow> r = s"
  proof (induction r arbitrary: s)
    case Nil
    then show ?case by (cases s) (auto simp: row_key_Cons, simp add: row_key_def)
  next
    case (Cons v r)
    then obtain w s' where s: "s = w # s'"
      by (cases s) (auto simp: row_key_Cons, simp add: row_key_def)
    let ?rest = "\<lambda>row. if row = [] then [] else key_sep # row_key row"
    have "v = w \<and> ?rest r = ?rest s'"
      by (rule value_key_inject) (use Cons.prems s in \<open>auto simp: row_key_Cons sep_rest_def\<close>)
    with Cons.IH s show ?case by (auto split: if_splits)
  qed
qed simp

text \<open>Retaining the first row of every key then keeps the first occurrence of every row.\<close>

fun first_occurrences :: "'a set \<Rightarrow> 'a list \<Rightarrow> 'a list" where
  "first_occurrences seen [] = []"
| "first_occurrences seen (x # xs) =
     (if x \<in> seen then first_occurrences seen xs else x # first_occurrences (insert x seen) xs)"

lemma retain_first_inj:
  assumes "\<And>x y. key x = key y \<longleftrightarrow> x = y"
  shows "retain_first key (key ` seen) xs = first_occurrences seen xs"
proof (induction xs arbitrary: seen)
  case (Cons x xs)
  have "key x \<in> key ` seen \<longleftrightarrow> x \<in> seen" using assms by auto
  then show ?case using Cons [of seen] Cons [of "insert x seen"] by simp
qed simp

lemma first_occurrences_props:
  "set (first_occurrences seen xs) = set xs - seen \<and> distinct (first_occurrences seen xs)"
  by (induction xs arbitrary: seen) auto

end
