(* ===== verification/QueryExec.thy ===== *)
theory QueryExec
  imports ExprEval
begin

text \<open>
  Query execution of \<^verbatim>\<open>src/src/sql/executor.rs\<close> (lines 1871 to 2395 and 2757 to 2822): table
  sources, joins, selection, grouping, projection, \<open>DISTINCT\<close>, ordering and limits, with
  subqueries, derived tables and common table expressions. The lemmas show that the
  recursion through subqueries ends, so that \<open>execute_query\<close> satisfies the equation of the
  source, that the hash join computes the nested-loop join, and that reading a table
  through an index loses no row the selection keeps.
\<close>

section \<open>Sources\<close>

fun expression_resolves :: "bound_column list \<Rightarrow> expr \<Rightarrow> bool" where
  "expression_resolves columns (Column qualifier name) =
     (case resolve_column columns qualifier name of Inr _ \<Rightarrow> True | Inl _ \<Rightarrow> False)"
| "expression_resolves columns (Literal _) = True"
| "expression_resolves columns (Parameter _) = True"
| "expression_resolves columns (Incoming _) = True"
| "expression_resolves columns (Binary left _ right) =
     (expression_resolves columns left \<and> expression_resolves columns right)"
| "expression_resolves columns (Unary _ e) = expression_resolves columns e"
| "expression_resolves columns (IsNull e _) = expression_resolves columns e"
| "expression_resolves columns (Like e _ _) = expression_resolves columns e"
| "expression_resolves columns (InList e items _) =
     (expression_resolves columns e \<and> list_all (expression_resolves columns) items)"
| "expression_resolves columns _ = False"

definition relation_from_table :: "table \<Rightarrow> string \<Rightarrow> expr option \<Rightarrow> relation" where
  "relation_from_table t visible_name selection =
     (let candidates = map_option fst (candidate_row_ids t selection) in
      \<lparr>rel_columns = map (\<lambda>c. \<lparr>bc_table = visible_name, bc_name = col_name c\<rparr>) (sch_columns (tb_schema t)),
       rel_rows = map snd (filter (\<lambda>(pos, row). case candidates of
            None \<Rightarrow> True
          | Some ids \<Rightarrow> (case get (tb_row_ids t) pos of Some i \<Rightarrow> i \<in> ids | None \<Rightarrow> False))
          (enumerate 0 (tb_rows t)))\<rparr>)"

text \<open>\<open>run\<close> executes a query with the given CTEs in scope.\<close>

definition source_relation ::
  "(query \<Rightarrow> ctes \<Rightarrow> relation res) \<Rightarrow> catalog \<Rightarrow> table_source \<Rightarrow> ctes \<Rightarrow> expr option \<Rightarrow> relation res" where
  "source_relation run cat source ctes selection = (case source of
     TableRef name alias \<Rightarrow>
       (let visible = (case alias of Some a \<Rightarrow> a | None \<Rightarrow> name) in
        case map_of ctes name of
          Some r \<Rightarrow> Inr (r\<lparr>rel_columns := set_table visible (rel_columns r)\<rparr>)
        | None \<Rightarrow>
            rbind (ok_or (map_of (cat_tables cat) name) (''Table '' @ quoted name @ '' does not exist''))
              (\<lambda>t. Inr (relation_from_table t visible selection)))
   | Derived q alias \<Rightarrow>
       rbind (run q ctes) (\<lambda>r. Inr (r\<lparr>rel_columns := set_table alias (rel_columns r)\<rparr>)))"

section \<open>Joins\<close>

definition nulls :: "nat \<Rightarrow> row" where
  "nulls n = replicate n VNull"

text \<open>The rows of the right side that no left row matched, padded on the left.\<close>

definition unmatched_right :: "nat \<Rightarrow> bool list \<Rightarrow> row list \<Rightarrow> row list" where
  "unmatched_right width matched rows =
     concat (map (\<lambda>(pos, row). if matched ! pos then [] else [nulls width @ row]) (enumerate 0 rows))"

text \<open>One left row against all right rows: output so far, left matched, right matched.\<close>

type_synonym join_state = "row list \<times> bool \<times> bool list"

definition join_step :: "(row \<Rightarrow> bool res) \<Rightarrow> row \<Rightarrow> join_state \<Rightarrow> nat \<times> row \<Rightarrow> join_state res" where
  "join_step matches lrow st pr =
     (case st of (rows, lm, rm) \<Rightarrow> case pr of (pos, rrow) \<Rightarrow>
        rbind (matches (lrow @ rrow)) (\<lambda>m.
          Inr (if m then (rows @ [lrow @ rrow], True, rm[pos := True]) else (rows, lm, rm))))"

definition join_left_row ::
  "(row \<Rightarrow> bool res) \<Rightarrow> join_type \<Rightarrow> nat \<Rightarrow> row list \<Rightarrow> row list \<times> bool list \<Rightarrow> row
     \<Rightarrow> (row list \<times> bool list) res" where
  "join_left_row matches kind rwidth rrows st lrow =
     rbind (res_fold (join_step matches lrow) (fst st, False, snd st) (enumerate 0 rrows))
       (\<lambda>(rows, lm, rm).
          Inr (if \<not> lm \<and> kind = LeftJoin then rows @ [lrow @ nulls rwidth] else rows, rm))"

definition nested_loop_join ::
  "(row \<Rightarrow> bool res) \<Rightarrow> join_type \<Rightarrow> relation \<Rightarrow> relation \<Rightarrow> relation res" where
  "nested_loop_join matches kind left right =
     rbind (res_fold (join_left_row matches kind (length (rel_columns right)) (rel_rows right))
              ([], replicate (length (rel_rows right)) False) (rel_rows left))
       (\<lambda>(rows, rm).
          Inr \<lparr>rel_columns = rel_columns left @ rel_columns right,
               rel_rows = rows @ (if kind = RightJoin
                  then unmatched_right (length (rel_columns left)) rm (rel_rows right) else [])\<rparr>)"

definition hash_join_indices ::
  "expr \<Rightarrow> bound_column list \<Rightarrow> bound_column list \<Rightarrow> (nat \<times> nat) option" where
  "hash_join_indices e lcols rcols = (case e of
     Binary (Column lq ln) (BCompare OpEqual) (Column rq rn) \<Rightarrow>
       (case (resolve_column lcols lq ln, resolve_column rcols rq rn) of
          (Inr i, Inr j) \<Rightarrow> Some (i, j)
        | _ \<Rightarrow> (case (resolve_column lcols rq rn, resolve_column rcols lq ln) of
                  (Inr i, Inr j) \<Rightarrow> Some (i, j)
                | _ \<Rightarrow> None))
   | _ \<Rightarrow> None)"

text \<open>The hash table: positions of the right rows by the key of their join column.\<close>

definition push_position :: "(string, nat list) hmap \<Rightarrow> string \<Rightarrow> nat \<Rightarrow> (string, nat list) hmap" where
  "push_position m key pos =
     AList.update key ((case map_of m key of Some ps \<Rightarrow> ps | None \<Rightarrow> []) @ [pos]) m"

definition build_right_map :: "nat \<Rightarrow> row list \<Rightarrow> (string, nat list) hmap res" where
  "build_right_map ri rows =
     res_fold (\<lambda>m (pos, row). rbind (idx row ri) (\<lambda>v.
        Inr (if is_null v then m else push_position m (hash_join_key v) pos))) [] (enumerate 0 rows)"

definition hash_step :: "row \<Rightarrow> val \<Rightarrow> nat \<Rightarrow> row list \<Rightarrow> join_state \<Rightarrow> nat \<Rightarrow> join_state res" where
  "hash_step lrow v ri rrows st pos =
     (case st of (rows, lm, rm) \<Rightarrow>
        rbind (idx rrows pos) (\<lambda>rrow. rbind (idx rrow ri) (\<lambda>w.
          Inr (if compare_sql v w OpEqual \<noteq> STrue then (rows, lm, rm)
               else (rows @ [lrow @ rrow], True, rm[pos := True])))))"

definition hash_left_row ::
  "(string, nat list) hmap \<Rightarrow> join_type \<Rightarrow> nat \<Rightarrow> row list \<Rightarrow> nat \<Rightarrow> nat
     \<Rightarrow> row list \<times> bool list \<Rightarrow> row \<Rightarrow> (row list \<times> bool list) res" where
  "hash_left_row rmap kind rwidth rrows li ri st lrow =
     rbind (idx lrow li) (\<lambda>v.
       let positions = (if is_null v then [] else
             case map_of rmap (hash_join_key v) of Some ps \<Rightarrow> ps | None \<Rightarrow> [])
       in rbind (res_fold (hash_step lrow v ri rrows) (fst st, False, snd st) positions)
            (\<lambda>(rows, lm, rm).
               Inr (if \<not> lm \<and> kind = LeftJoin then rows @ [lrow @ nulls rwidth] else rows, rm)))"

definition hash_join :: "join_type \<Rightarrow> relation \<Rightarrow> relation \<Rightarrow> nat \<Rightarrow> nat \<Rightarrow> relation res" where
  "hash_join kind left right li ri =
     rbind (build_right_map ri (rel_rows right)) (\<lambda>rmap.
     rbind (res_fold (hash_left_row rmap kind (length (rel_columns right)) (rel_rows right) li ri)
              ([], replicate (length (rel_rows right)) False) (rel_rows left))
       (\<lambda>(rows, rm).
          Inr \<lparr>rel_columns = rel_columns left @ rel_columns right,
               rel_rows = rows @ (if kind = RightJoin
                  then unmatched_right (length (rel_columns left)) rm (rel_rows right) else [])\<rparr>))"

definition join_relations ::
  "(query \<Rightarrow> relation res) \<Rightarrow> relation \<Rightarrow> relation \<Rightarrow> join_type \<Rightarrow> expr option \<Rightarrow> relation res" where
  "join_relations runq left right kind on =
     (case Option.bind on (\<lambda>e. hash_join_indices e (rel_columns left) (rel_columns right)) of
        Some (li, ri) \<Rightarrow> hash_join kind left right li ri
      | None \<Rightarrow>
          nested_loop_join (\<lambda>row. case on of
              Some e \<Rightarrow> rbind (eval_expr runq e (rel_columns left @ rel_columns right) row None)
                          (\<lambda>v. Inr (truth v = STrue))
            | None \<Rightarrow> Inr True) kind left right)"

section \<open>Projection and grouping\<close>

fun expr_has_aggregate :: "expr \<Rightarrow> bool" where
  "expr_has_aggregate (Aggregate _ _ _) = True"
| "expr_has_aggregate (Binary left _ right) = (expr_has_aggregate left \<or> expr_has_aggregate right)"
| "expr_has_aggregate (Unary _ e) = expr_has_aggregate e"
| "expr_has_aggregate (IsNull e _) = expr_has_aggregate e"
| "expr_has_aggregate (Like e _ _) = expr_has_aggregate e"
| "expr_has_aggregate (InList e items _) = (expr_has_aggregate e \<or> list_ex expr_has_aggregate items)"
| "expr_has_aggregate _ = False"

fun select_item_has_aggregate :: "select_item \<Rightarrow> bool" where
  "select_item_has_aggregate (SelectExpr e _) = expr_has_aggregate e"
| "select_item_has_aggregate (Wildcard _) = False"

fun aggregate_name :: "aggregate_function \<Rightarrow> string" where
  "aggregate_name AggCount = ''count''"
| "aggregate_name AggSum = ''sum''"
| "aggregate_name AggAvg = ''avg''"
| "aggregate_name AggMax = ''max''"
| "aggregate_name AggMin = ''min''"

fun expression_name :: "expr \<Rightarrow> string" where
  "expression_name (Column _ name) = name"
| "expression_name (Aggregate function _ _) = aggregate_name function"
| "expression_name (ScalarSubquery _) = ''subquery''"
| "expression_name _ = ''expression''"

definition wildcard_matches :: "string option \<Rightarrow> bound_column \<Rightarrow> bool" where
  "wildcard_matches qualifier c =
     (case qualifier of None \<Rightarrow> True | Some name \<Rightarrow> eq_ignore_ascii_case (bc_table c) name)"

definition item_columns :: "bound_column list \<Rightarrow> select_item \<Rightarrow> bound_column list res" where
  "item_columns source item = (case item of
     Wildcard qualifier \<Rightarrow>
       (let matching = filter (wildcard_matches qualifier) source in
        if matching = [] then Inl (Fail (''Unknown wildcard qualifier '' @
             quoted (case qualifier of Some q \<Rightarrow> q | None \<Rightarrow> ''*'')))
        else Inr matching)
   | SelectExpr e alias \<Rightarrow>
       Inr [\<lparr>bc_table = (case (e, alias) of (Column (Some q) _, None) \<Rightarrow> q | _ \<Rightarrow> []),
             bc_name = (case alias of Some a \<Rightarrow> a | None \<Rightarrow> expression_name e)\<rparr>])"

definition projection_columns :: "select_item list \<Rightarrow> bound_column list \<Rightarrow> bound_column list res" where
  "projection_columns items source =
     rbind (res_map (item_columns source) items) (\<lambda>css. Inr (concat css))"

definition project_item ::
  "(query \<Rightarrow> relation res) \<Rightarrow> bound_column list \<Rightarrow> row \<Rightarrow> row list option \<Rightarrow> select_item \<Rightarrow> row res" where
  "project_item runq source row grp item = (case item of
     Wildcard qualifier \<Rightarrow>
       res_map (idx row) (filter (\<lambda>i. wildcard_matches qualifier (source ! i)) [0..<length source])
   | SelectExpr e _ \<Rightarrow> rbind (eval_expr runq e source row grp) (\<lambda>v. Inr [v]))"

definition project_row ::
  "(query \<Rightarrow> relation res) \<Rightarrow> select_item list \<Rightarrow> bound_column list \<Rightarrow> row \<Rightarrow> row list option \<Rightarrow> row res" where
  "project_row runq items source row grp =
     rbind (res_map (project_item runq source row grp) items) (\<lambda>vss. Inr (concat vss))"

definition project_query :: "(query \<Rightarrow> relation res) \<Rightarrow> query \<Rightarrow> relation \<Rightarrow> relation res" where
  "project_query runq q source =
     rbind (projection_columns (query_projection q) (rel_columns source)) (\<lambda>columns.
     rbind (res_map (\<lambda>row. project_row runq (query_projection q) (rel_columns source) row None)
              (rel_rows source)) (\<lambda>rows.
       Inr \<lparr>rel_columns = columns, rel_rows = rows\<rparr>))"

definition push_group :: "(string, row list) hmap \<Rightarrow> string \<Rightarrow> row \<Rightarrow> (string, row list) hmap" where
  "push_group m key row = AList.update key ((case map_of m key of Some rs \<Rightarrow> rs | None \<Rightarrow> []) @ [row]) m"

definition group_rows :: "(query \<Rightarrow> relation res) \<Rightarrow> expr list \<Rightarrow> relation \<Rightarrow> (string, row list) hmap res" where
  "group_rows runq group_by source =
     res_fold (\<lambda>m row.
       rbind (res_map (\<lambda>e. eval_expr runq e (rel_columns source) row None) group_by) (\<lambda>key_values.
         Inr (push_group m (row_key key_values) row))) [] (rel_rows source)"

definition aggregate_group ::
  "(query \<Rightarrow> relation res) \<Rightarrow> query \<Rightarrow> bound_column list \<Rightarrow> row list \<Rightarrow> row list \<Rightarrow> row list res" where
  "aggregate_group runq q columns out grp =
     (let representative = (case grp of r # _ \<Rightarrow> r | [] \<Rightarrow> nulls (length columns)) in
      rbind (case query_having q of
               None \<Rightarrow> Inr True
             | Some having \<Rightarrow> rbind (eval_expr runq having columns representative (Some grp))
                                (\<lambda>v. Inr (truth v = STrue))) (\<lambda>keep.
        if \<not> keep then Inr out
        else rbind (project_row runq (query_projection q) columns representative (Some grp))
               (\<lambda>row. Inr (out @ [row]))))"

text \<open>The groups are a \<open>BTreeMap\<close>: they are visited in the order of their keys.\<close>

definition aggregate_query :: "(query \<Rightarrow> relation res) \<Rightarrow> query \<Rightarrow> relation \<Rightarrow> relation res" where
  "aggregate_query runq q source =
     rbind (group_rows runq (query_group_by q) source) (\<lambda>groups0.
     let groups = (if groups0 = [] \<and> query_group_by q = [] then [([], [])] else groups0) in
     rbind (projection_columns (query_projection q) (rel_columns source)) (\<lambda>columns.
     rbind (res_fold (aggregate_group runq q (rel_columns source)) []
              (map snd (sort_key fst groups))) (\<lambda>rows.
       Inr \<lparr>rel_columns = columns, rel_rows = rows\<rparr>)))"

section \<open>Ordering\<close>

definition eval_order_value ::
  "(query \<Rightarrow> relation res) \<Rightarrow> expr \<Rightarrow> bound_column list \<Rightarrow> row \<Rightarrow> val res" where
  "eval_order_value runq e columns row = (case e of
     Aggregate _ _ _ \<Rightarrow>
       rbind (resolve_column columns None (expression_name e)) (\<lambda>i.
         ok_or (get row i) (''ORDER BY expression '' @ quoted (expression_name e) @ '' is unavailable''))
   | _ \<Rightarrow> eval_expr runq e columns row None)"

fun null_first_ordering :: "val \<Rightarrow> val \<Rightarrow> ordering" where
  "null_first_ordering VNull VNull = Equal"
| "null_first_ordering VNull _ = Less"
| "null_first_ordering _ VNull = Greater"
| "null_first_ordering a b = value_ordering a b"

fun compare_order_rows ::
  "(query \<Rightarrow> relation res) \<Rightarrow> bound_column list \<Rightarrow> row \<Rightarrow> row \<Rightarrow> order_by list \<Rightarrow> ordering res" where
  "compare_order_rows runq columns left right [] = Inr Equal"
| "compare_order_rows runq columns left right (ob # obs) =
     rbind (eval_order_value runq (order_expr ob) columns left) (\<lambda>l.
     rbind (eval_order_value runq (order_expr ob) columns right) (\<lambda>r.
       let o1 = null_first_ordering l r;
           o2 = (if order_descending ob then reverse_ordering o1 else o1)
       in if o2 \<noteq> Equal then Inr o2 else compare_order_rows runq columns left right obs))"

text \<open>\<open>unwrap_or(Ordering::Equal)\<close>; a panic still unwinds through the sort.\<close>

fun unwrap_or_equal :: "ordering res \<Rightarrow> ordering res" where
  "unwrap_or_equal (Inr o') = Inr o'"
| "unwrap_or_equal (Inl (Fail _)) = Inr Equal"
| "unwrap_or_equal (Inl (Panic why)) = Inl (Panic why)"

text \<open>\<open>sort_by\<close> is stable; so is insertion sort.\<close>

fun insert_by :: "('a \<Rightarrow> 'a \<Rightarrow> ordering res) \<Rightarrow> 'a \<Rightarrow> 'a list \<Rightarrow> 'a list res" where
  "insert_by f x [] = Inr [x]"
| "insert_by f x (y # ys) =
     rbind (f x y) (\<lambda>o'. if o' = Greater then rbind (insert_by f x ys) (\<lambda>zs. Inr (y # zs))
                          else Inr (x # y # ys))"

fun sort_by :: "('a \<Rightarrow> 'a \<Rightarrow> ordering res) \<Rightarrow> 'a list \<Rightarrow> 'a list res" where
  "sort_by f [] = Inr []"
| "sort_by f (x # xs) = rbind (sort_by f xs) (insert_by f x)"

definition sort_rows ::
  "(query \<Rightarrow> relation res) \<Rightarrow> order_by list \<Rightarrow> bound_column list \<Rightarrow> row list \<Rightarrow> row list res" where
  "sort_rows runq order_by columns rows =
     sort_by (\<lambda>l r. unwrap_or_equal (compare_order_rows runq columns l r order_by)) rows"

section \<open>Whole queries\<close>

definition bind_cte :: "(query \<Rightarrow> ctes \<Rightarrow> relation res) \<Rightarrow> ctes \<Rightarrow> cte \<Rightarrow> ctes res" where
  "bind_cte run ctes c =
     rbind (run (cte_query c) ctes) (\<lambda>r.
     rbind (if cte_columns c = [] then Inr (rel_columns r)
            else if length (cte_columns c) \<noteq> length (rel_columns r)
            then Inl (Fail (''CTE '' @ quoted (cte_name c) @ '' column count does not match''))
            else Inr (map2 (\<lambda>col name. col\<lparr>bc_name := name\<rparr>) (rel_columns r) (cte_columns c)))
       (\<lambda>columns. Inr (AList.update (cte_name c)
          (r\<lparr>rel_columns := set_table (cte_name c) columns\<rparr>) ctes)))"

definition filter_rows :: "(query \<Rightarrow> relation res) \<Rightarrow> expr option \<Rightarrow> relation \<Rightarrow> relation res" where
  "filter_rows runq selection r = (case selection of
     None \<Rightarrow> Inr r
   | Some e \<Rightarrow>
       rbind (res_fold (\<lambda>out row. rbind (eval_expr runq e (rel_columns r) row None) (\<lambda>v.
                Inr (if truth v = STrue then out @ [row] else out))) [] (rel_rows r))
         (\<lambda>rows. Inr (r\<lparr>rel_rows := rows\<rparr>)))"

definition query_aggregates :: "query \<Rightarrow> bool" where
  "query_aggregates q \<longleftrightarrow> query_group_by q \<noteq> [] \<or>
     list_ex select_item_has_aggregate (query_projection q) \<or>
     (case query_having q of Some e \<Rightarrow> expr_has_aggregate e | None \<Rightarrow> False)"

definition order_before_projection :: "query \<Rightarrow> bound_column list \<Rightarrow> bool" where
  "order_before_projection q columns \<longleftrightarrow> \<not> query_aggregates q \<and> query_order_by q \<noteq> [] \<and>
     list_all (\<lambda>ob. expression_resolves columns (order_expr ob)) (query_order_by q)"

text \<open>
  With a limit the source first selects the smallest \<open>limit\<close> rows (\<open>select_nth_unstable_by\<close>)
  and sorts those. Which of several rows that compare equal at the cut are kept is left
  open there; here it is the first ones.
\<close>

definition order_projected ::
  "(query \<Rightarrow> relation res) \<Rightarrow> query \<Rightarrow> relation \<Rightarrow> row list res" where
  "order_projected runq q r = (case query_limit q of
     Some limit \<Rightarrow>
       if limit = 0 then Inr []
       else rbind (sort_rows runq (query_order_by q) (rel_columns r) (rel_rows r)) (\<lambda>rows. Inr (take limit rows))
   | None \<Rightarrow> sort_rows runq (query_order_by q) (rel_columns r) (rel_rows r))"

definition execute_query_body ::
  "(query \<Rightarrow> ctes \<Rightarrow> relation res) \<Rightarrow> catalog \<Rightarrow> query \<Rightarrow> ctes \<Rightarrow> relation res" where
  "execute_query_body run cat q inherited =
     rbind (res_fold (bind_cte run) inherited (query_ctes q)) (\<lambda>ctes.
     rbind (case query_from q of
              Some source \<Rightarrow> source_relation run cat source ctes (query_selection q)
            | None \<Rightarrow> Inr \<lparr>rel_columns = [], rel_rows = [[]]\<rparr>) (\<lambda>relation0.
     rbind (res_fold (\<lambda>left j. rbind (source_relation run cat (join_source j) ctes None) (\<lambda>right.
              join_relations (\<lambda>q'. run q' ctes) left right (join_kind j) (join_on j)))
              relation0 (query_joins q)) (\<lambda>joined.
     rbind (filter_rows (\<lambda>q'. run q' ctes) (query_selection q) joined) (\<lambda>filtered.
     let before = order_before_projection q (rel_columns filtered) in
     rbind (if before
            then rbind (sort_rows (\<lambda>q'. run q' ctes) (query_order_by q) (rel_columns filtered) (rel_rows filtered))
                   (\<lambda>rows. Inr (filtered\<lparr>rel_rows := rows\<rparr>))
            else Inr filtered) (\<lambda>source.
     rbind (if query_aggregates q then aggregate_query (\<lambda>q'. run q' ctes) q source
            else project_query (\<lambda>q'. run q' ctes) q source) (\<lambda>projected0.
     let projected = (if query_distinct q
           then projected0\<lparr>rel_rows := retain_first row_key {} (rel_rows projected0)\<rparr> else projected0) in
     rbind (if query_order_by q \<noteq> [] \<and> \<not> before
            then order_projected (\<lambda>q'. run q' ctes) q projected else Inr (rel_rows projected)) (\<lambda>rows.
       Inr (projected\<lparr>rel_rows := (case query_limit q of Some limit \<Rightarrow> take limit rows | None \<Rightarrow> rows)\<rparr>))))))))"

function execute_query :: "catalog \<Rightarrow> query \<Rightarrow> ctes \<Rightarrow> relation res" where
  "execute_query cat q ctes =
     execute_query_body (\<lambda>q' ctes'. if size q' < size q then execute_query cat q' ctes'
                                      else Inl (Panic ''not a subquery'')) cat q ctes"
  by pat_completeness auto
termination
  by (relation "measure (\<lambda>(cat, q, ctes). size q)") auto

declare execute_query.simps [simp del]

section \<open>The recursion through subqueries ends\<close>

text \<open>The evaluator only runs queries that occur in the expression or query at hand.\<close>

lemma size_list_less: "x \<in> set xs \<Longrightarrow> f x < Suc (size_list f xs + k)"
  using size_list_estimation' [of x xs "f x" f] by (simp add: less_Suc_eq_le trans_le_add1)

lemma eval_expr_cong:
  assumes "\<And>q. size q < size e \<Longrightarrow> r1 q = r2 q"
  shows "eval_expr r1 e columns row grp = eval_expr r2 e columns row grp"
  using assms
proof (induction e arbitrary: columns row grp rule: measure_induct_rule [of size])
  case (less e)
  have IH: "eval_expr r1 e' columns row grp = eval_expr r2 e' columns row grp"
    if "size e' < size e" for e' columns row grp
    using less.IH [OF that] less.prems that by (metis less_trans)
  show ?case
  proof (cases e)
    case (InList e' items negated)
    have "res_map (\<lambda>item. eval_expr r1 item columns row grp) items =
        res_map (\<lambda>item. eval_expr r2 item columns row grp) items"
      by (intro res_map_cong IH) (auto simp: InList intro: size_list_less)
    then show ?thesis using IH [of e'] by (simp add: InList)
  next
    case (Aggregate f e' dedup)
    then show ?thesis
      by (cases e'; cases grp) (auto intro!: rbind_cong res_map_cong IH)
  next
    case (Binary l op r)
    have lr: "eval_expr r1 l columns row grp = eval_expr r2 l columns row grp"
      "eval_expr r1 r columns row grp = eval_expr r2 r columns row grp"
      by (intro IH; simp add: Binary)+
    show ?thesis unfolding Binary eval_expr.simps lr ..
  next
    case (InSubquery e' q negated)
    then show ?thesis using IH [of e'] less.prems [of q] by (simp add: execute_subquery_def)
  qed (use IH less.prems in \<open>auto simp: execute_subquery_def\<close>)
qed

definition agree :: "nat \<Rightarrow> (query \<Rightarrow> 'a) \<Rightarrow> (query \<Rightarrow> 'a) \<Rightarrow> bool" where
  "agree n r1 r2 \<longleftrightarrow> (\<forall>q. size q < n \<longrightarrow> r1 q = r2 q)"

lemma agree_eval: "agree n r1 r2 \<Longrightarrow> size e \<le> n \<Longrightarrow> eval_expr r1 e = eval_expr r2 e"
  by (intro ext eval_expr_cong) (auto simp: agree_def)

lemma agree_apply: "agree n r1 r2 \<Longrightarrow> agree n (\<lambda>q. r1 q c) (\<lambda>q. r2 q c)"
  by (simp add: agree_def)

lemma agree_source:
  "agree n r1 r2 \<Longrightarrow> size source \<le> n \<Longrightarrow>
   source_relation r1 cat source = source_relation r2 cat source"
  by (cases source) (auto simp: source_relation_def agree_def fun_eq_iff)

lemma agree_join:
  assumes "agree n r1 r2" "size_option size on \<le> n"
  shows "join_relations r1 left right kind on = join_relations r2 left right kind on"
proof (cases on)
  case (Some e)
  then have e: "eval_expr r1 e = eval_expr r2 e"
    using assms by (intro agree_eval [of n]) auto
  show ?thesis unfolding join_relations_def Some option.case e ..
qed (simp add: join_relations_def)

lemma agree_project_row:
  assumes "agree n r1 r2" "size_list size items \<le> n"
  shows "project_row r1 items = project_row r2 items"
proof (intro ext)
  fix source row grp
  have "project_item r1 source row grp item = project_item r2 source row grp item"
    if "item \<in> set items" for item
  proof (cases item)
    case (SelectExpr e al)
    have "size item \<le> n"
      using size_list_estimation' [OF that order.refl, of size] assms(2) by simp
    then have "eval_expr r1 e = eval_expr r2 e"
      using SelectExpr assms(1) by (intro agree_eval [of n]) auto
    then show ?thesis by (simp add: project_item_def SelectExpr)
  qed (simp add: project_item_def)
  then show "project_row r1 items source row grp = project_row r2 items source row grp"
    by (simp add: project_row_def cong: res_map_cong)
qed

lemma agree_exprs:
  assumes "agree n r1 r2" "size_list size es \<le> n"
  shows "res_map (\<lambda>e. eval_expr r1 e columns row grp) es = res_map (\<lambda>e. eval_expr r2 e columns row grp) es"
proof (rule res_map_cong [OF refl])
  fix e assume "e \<in> set es"
  then have "size e \<le> n" using size_list_estimation' [of e es "size e" size] assms(2) by simp
  then show "eval_expr r1 e columns row grp = eval_expr r2 e columns row grp"
    using agree_eval [OF assms(1)] by simp
qed

lemma query_sizes:
  "size_list size (query_ctes q) < size q"
  "size_list size (query_projection q) < size q"
  "size_option size (query_from q) < size q"
  "size_list size (query_joins q) < size q"
  "size_option size (query_selection q) < size q"
  "size_list size (query_group_by q) < size q"
  "size_option size (query_having q) < size q"
  "size_list size (query_order_by q) < size q"
  by (cases q; simp)+

lemma agree_group:
  assumes "agree (size q) r1 r2"
  shows "aggregate_group r1 q = aggregate_group r2 q"
proof -
  have p: "project_row r1 (query_projection q) = project_row r2 (query_projection q)"
    using query_sizes(2) [of q] by (intro agree_project_row [OF assms]) simp
  show ?thesis
  proof (cases "query_having q")
    case None
    show ?thesis unfolding aggregate_group_def None option.case p ..
  next
    case (Some e)
    have e: "eval_expr r1 e = eval_expr r2 e"
      using query_sizes(7) [of q] Some by (intro agree_eval [OF assms]) simp
    show ?thesis unfolding aggregate_group_def Some option.case p e ..
  qed
qed

lemma agree_aggregate: "agree (size q) r1 r2 \<Longrightarrow> aggregate_query r1 q = aggregate_query r2 q"
  using agree_exprs [of "size q" r1 r2 "query_group_by q"] query_sizes(6) [of q]
  by (intro ext) (simp add: aggregate_query_def group_rows_def agree_group)

lemma agree_project: "agree (size q) r1 r2 \<Longrightarrow> project_query r1 q = project_query r2 q"
  using agree_project_row [of "size q" r1 r2 "query_projection q"] query_sizes(2) [of q]
  by (intro ext) (simp add: project_query_def)

lemma agree_filter:
  assumes "agree (size q) r1 r2"
  shows "filter_rows r1 (query_selection q) = filter_rows r2 (query_selection q)"
proof (cases "query_selection q")
  case (Some e)
  then have "eval_expr r1 e = eval_expr r2 e"
    using query_sizes(5) [of q] by (intro agree_eval [OF assms]) simp
  then show ?thesis by (intro ext) (simp add: filter_rows_def Some)
qed (simp add: filter_rows_def fun_eq_iff)

lemma agree_order_rows:
  assumes "agree n r1 r2" "size_list size obs \<le> n"
  shows "compare_order_rows r1 columns left right obs = compare_order_rows r2 columns left right obs"
  using assms(2)
proof (induction obs)
  case (Cons ob obs)
  have "size (order_expr ob) \<le> n" using Cons.prems by (cases ob) simp
  then have "eval_expr r1 (order_expr ob) = eval_expr r2 (order_expr ob)"
    by (rule agree_eval [OF assms(1)])
  then have v: "eval_order_value r1 (order_expr ob) = eval_order_value r2 (order_expr ob)"
    by (intro ext) (cases "order_expr ob"; simp add: eval_order_value_def)
  have r: "compare_order_rows r1 columns left right obs = compare_order_rows r2 columns left right obs"
    using Cons by simp
  show ?case unfolding compare_order_rows.simps v r ..
qed simp

lemma agree_sort:
  "agree (size q) r1 r2 \<Longrightarrow> sort_rows r1 (query_order_by q) = sort_rows r2 (query_order_by q)"
  using agree_order_rows [of "size q" r1 r2 "query_order_by q"] query_sizes(8) [of q]
  by (intro ext) (simp add: sort_rows_def)

lemma agree_ctes:
  assumes "agree (size q) r1 r2"
  shows "res_fold (bind_cte r1) ctes (query_ctes q) = res_fold (bind_cte r2) ctes (query_ctes q)"
proof (intro res_fold_cong refl)
  fix ctes c assume "c \<in> set (query_ctes q)"
  then have "size c \<le> size_list size (query_ctes q)" by (rule size_list_estimation') simp
  then have "size (cte_query c) < size q" using query_sizes(1) [of q] by (cases c) simp
  then show "bind_cte r1 ctes c = bind_cte r2 ctes c"
    using assms by (simp add: bind_cte_def agree_def)
qed

lemma agree_joins:
  assumes "agree (size q) r1 r2"
  shows "res_fold (\<lambda>left j. rbind (source_relation r1 cat (join_source j) ctes None) (\<lambda>right.
              join_relations (\<lambda>q'. r1 q' ctes) left right (join_kind j) (join_on j))) rel (query_joins q) =
         res_fold (\<lambda>left j. rbind (source_relation r2 cat (join_source j) ctes None) (\<lambda>right.
              join_relations (\<lambda>q'. r2 q' ctes) left right (join_kind j) (join_on j))) rel (query_joins q)"
proof (intro res_fold_cong refl)
  fix left j assume "j \<in> set (query_joins q)"
  then have "size j \<le> size_list size (query_joins q)" by (rule size_list_estimation') simp
  then have "size (join_source j) \<le> size q" "size_option size (join_on j) \<le> size q"
    using query_sizes(4) [of q] by (cases j; simp)+
  then show "rbind (source_relation r1 cat (join_source j) ctes None) (\<lambda>right.
              join_relations (\<lambda>q'. r1 q' ctes) left right (join_kind j) (join_on j)) =
        rbind (source_relation r2 cat (join_source j) ctes None) (\<lambda>right.
              join_relations (\<lambda>q'. r2 q' ctes) left right (join_kind j) (join_on j))"
    using agree_source [OF assms] agree_join [OF agree_apply [OF assms]] by simp
qed

lemma execute_query_body_agree:
  assumes "agree (size q) r1 r2"
  shows "execute_query_body r1 cat q ctes = execute_query_body r2 cat q ctes"
proof -
  have src: "source_relation r1 cat s = source_relation r2 cat s" if "query_from q = Some s" for s
    using query_sizes(3) [of q] that by (intro agree_source [OF assms]) simp
  note run = agree_apply [OF assms]
  show ?thesis
    unfolding execute_query_body_def agree_ctes [OF assms] agree_joins [OF assms]
      agree_filter [OF run] agree_sort [OF run] agree_aggregate [OF run] agree_project [OF run]
      order_projected_def
    using src by (auto intro!: rbind_cong split: option.splits)
qed

lemma execute_query_unfold:
  "execute_query cat q ctes = execute_query_body (execute_query cat) cat q ctes"
  by (subst execute_query.simps) (rule execute_query_body_agree, simp add: agree_def fun_eq_iff)

section \<open>The hash join is the nested-loop join\<close>

lemma f64_of_int_not_neg_zero: "f64_of_int i \<noteq> f64_make True 0"
proof (cases "i = 0")
  case True
  have "f64_make False 0 \<noteq> f64_make True 0"
    using f64_sign_make [of 0 True] f64_sign_make [of 0 False] by fastforce
  then show ?thesis using True by (simp add: f64_of_int_def f64_of_frac_def)
next
  case False
  have "0 < round_mag (nat \<bar>i\<bar>) (nat 1)"
  proof -
    have "- 1 \<le> frac_log2 (nat \<bar>i\<bar>) 1"
      by (simp add: frac_log2_def Let_def log2_floor.simps [of "Suc 0"])
    then show ?thesis using False by (simp add: round_mag_def Let_def f64_inf_mag_def)
  qed
  moreover have "round_mag (nat \<bar>i\<bar>) (nat 1) < 2 ^ 63"
    by (simp add: round_mag_def Let_def f64_inf_mag_def min_less_iff_disj)
  ultimately have "f64_mag (f64_of_int i) \<noteq> 0"
    using False by (simp add: f64_of_int_def f64_of_frac_def f64_round_def f64_mag_make)
  then show ?thesis by (metis f64_mag_make zero_less_numeral zero_less_power)
qed

text \<open>Equal values have equal join keys, negative zero apart.\<close>

definition neg_zero :: val where
  "neg_zero = VFloat (f64_make True 0)"

lemma f64_zero_cases: "f64_is_zero x \<Longrightarrow> x = f64_make True 0 \<or> x = f64_make False 0"
  by (metis (full_types) f64_is_zero_def f64_make_sign_mag)

lemma hash_join_key_eq:
  assumes "compare_sql a b OpEqual = STrue" "a \<noteq> neg_zero" "b \<noteq> neg_zero"
  shows "hash_join_key a = hash_join_key b"
proof -
  have eq: "value_partial_cmp a b = Some Equal"
    using assms(1) by (auto simp: compare_sql_def truth_of_bool_def split: if_splits)
  have float: "x = y" if "f64_partial_cmp x y = Some Equal" "x \<noteq> f64_make True 0" "y \<noteq> f64_make True 0" for x y
    using that f64_eq_cases [of x y] f64_zero_cases [of x] f64_zero_cases [of y] by (auto simp: f64_eq_def)
  from eq assms(2,3) show ?thesis
    by (cases a; cases b) (auto simp: neg_zero_def f64_of_i64_def sint_inject f64_of_int_not_neg_zero
        dest!: float)
qed

lemma enumerate_snoc: "enumerate 0 (xs @ [x]) = enumerate 0 xs @ [(length xs, x)]"
  by (simp add: enumerate_append_eq)

lemma build_right_map_spec:
  assumes "\<forall>row \<in> set rows. ri < length row"
  shows "\<exists>m. build_right_map ri rows = Inr m \<and>
     (\<forall>key. (case map_of m key of Some ps \<Rightarrow> ps | None \<Rightarrow> []) =
        filter (\<lambda>p. \<not> is_null (rows ! p ! ri) \<and> hash_join_key (rows ! p ! ri) = key) [0..<length rows])"
  using assms
proof (induction rows rule: rev_induct)
  case Nil
  then show ?case by (simp add: build_right_map_def)
next
  case (snoc row rows)
  then obtain m where m: "build_right_map ri rows = Inr m"
    and ps: "\<And>key. (case map_of m key of Some ps \<Rightarrow> ps | None \<Rightarrow> []) =
        filter (\<lambda>p. \<not> is_null (rows ! p ! ri) \<and> hash_join_key (rows ! p ! ri) = key) [0..<length rows]"
    by auto
  have old: "filter (\<lambda>p. \<not> is_null ((rows @ [row]) ! p ! ri) \<and> hash_join_key ((rows @ [row]) ! p ! ri) = key)
      [0..<length rows] = (case map_of m key of Some ps \<Rightarrow> ps | None \<Rightarrow> [])" for key
    unfolding ps by (rule filter_cong) (auto simp: nth_append)
  have ri: "ri < length row" using snoc.prems by simp
  have "build_right_map ri (rows @ [row]) =
      Inr (if is_null (row ! ri) then m else push_position m (hash_join_key (row ! ri)) (length rows))"
    using m ri by (simp add: build_right_map_def enumerate_snoc res_fold_append)
  moreover have "filter (\<lambda>p. \<not> is_null ((rows @ [row]) ! p ! ri) \<and> hash_join_key ((rows @ [row]) ! p ! ri) = key)
      [0..<length (rows @ [row])] = (case map_of m key of Some ps \<Rightarrow> ps | None \<Rightarrow> []) @
        (if \<not> is_null (row ! ri) \<and> hash_join_key (row ! ri) = key then [length rows] else [])" for key
    using old by simp
  ultimately show ?case by (auto simp: push_position_def)
qed

lemma hash_fold_eq:
  assumes "\<forall>row \<in> set rrows. ri < length row" "li < length lrow"
    and "\<And>rrow. rrow \<in> set rrows \<Longrightarrow> compare_sql (lrow ! li) (rrow ! ri) OpEqual = STrue \<Longrightarrow> P rrow"
    and "n \<le> length rrows"
  shows "res_fold (hash_step lrow (lrow ! li) ri rrows) st (filter (\<lambda>p. P (rrows ! p)) [0..<n]) =
     res_fold (join_step (\<lambda>row. Inr (compare_sql (row ! li) (row ! (length lrow + ri)) OpEqual = STrue)) lrow)
       st (take n (enumerate 0 rrows))"
  using assms(4)
proof (induction n)
  case (Suc n)
  then have n: "n < length rrows" and mem: "rrows ! n \<in> set rrows" by auto
  have take: "take (Suc n) (enumerate 0 rrows) = take n (enumerate 0 rrows) @ [(n, rrows ! n)]"
    using n by (simp add: take_Suc_conv_app_nth nth_enumerate_eq)
  have step: "hash_step lrow (lrow ! li) ri rrows st' n =
      join_step (\<lambda>row. Inr (compare_sql (row ! li) (row ! (length lrow + ri)) OpEqual = STrue)) lrow st' (n, rrows ! n)"
    for st'
    using n mem assms(1,2) by (cases st') (auto simp: hash_step_def join_step_def nth_append)
  have skip: "join_step (\<lambda>row. Inr (compare_sql (row ! li) (row ! (length lrow + ri)) OpEqual = STrue)) lrow st' (n, rrows ! n)
      = Inr st'" if "\<not> P (rrows ! n)" for st'
    using that assms(2,3) mem by (cases st') (auto simp: join_step_def nth_append)
  have upt: "[0..<Suc n] = [0..<n] @ [n]" by simp
  show ?case
    unfolding take upt filter_append res_fold_append using Suc n step skip
    by (cases "P (rrows ! n)") simp_all
qed simp

lemma hash_left_row_eq:
  assumes "build_right_map ri rrows = Inr m" "\<forall>row \<in> set rrows. ri < length row" "li < length lrow"
    and "\<And>rrow. rrow \<in> set rrows \<Longrightarrow> compare_sql (lrow ! li) (rrow ! ri) OpEqual = STrue \<Longrightarrow>
       hash_join_key (lrow ! li) = hash_join_key (rrow ! ri)"
  shows "hash_left_row m kind w rrows li ri st lrow =
     join_left_row (\<lambda>row. Inr (compare_sql (row ! li) (row ! (length lrow + ri)) OpEqual = STrue))
       kind w rrows st lrow"
proof -
  let ?P = "\<lambda>rrow. \<not> is_null (lrow ! li) \<and> \<not> is_null (rrow ! ri) \<and>
    hash_join_key (rrow ! ri) = hash_join_key (lrow ! li)"
  have "(if is_null (lrow ! li) then [] else
        case map_of m (hash_join_key (lrow ! li)) of Some ps \<Rightarrow> ps | None \<Rightarrow> []) =
      filter (\<lambda>p. ?P (rrows ! p)) [0..<length rrows]"
    using build_right_map_spec [OF assms(2)] assms(1) by auto
  moreover have "\<And>rrow. rrow \<in> set rrows \<Longrightarrow> compare_sql (lrow ! li) (rrow ! ri) OpEqual = STrue \<Longrightarrow> ?P rrow"
    using assms(4) by (auto simp: compare_sql_def)
  ultimately show ?thesis
    using hash_fold_eq [OF assms(2,3), of ?P "length rrows"] assms(3)
    by (simp add: hash_left_row_def join_left_row_def)
qed

lemma hash_join_nested_loop:
  assumes "\<forall>row \<in> set (rel_rows left). length row = length (rel_columns left) \<and> row ! li \<noteq> neg_zero"
    and "\<forall>row \<in> set (rel_rows right). length row = length (rel_columns right) \<and> row ! ri \<noteq> neg_zero"
    and "li < length (rel_columns left)" "ri < length (rel_columns right)"
  shows "hash_join kind left right li ri =
     nested_loop_join (\<lambda>row. Inr (compare_sql (row ! li) (row ! (length (rel_columns left) + ri)) OpEqual = STrue))
       kind left right"
proof -
  have r: "\<forall>row \<in> set (rel_rows right). ri < length row" using assms by simp
  obtain m where m: "build_right_map ri (rel_rows right) = Inr m"
    using build_right_map_spec [OF r] by blast
  have "res_fold (hash_left_row m kind w (rel_rows right) li ri) st (rel_rows left) =
      res_fold (join_left_row (\<lambda>row. Inr (compare_sql (row ! li) (row ! (length (rel_columns left) + ri)) OpEqual = STrue))
        kind w (rel_rows right)) st (rel_rows left)" for w st
  proof (rule res_fold_cong [OF refl refl])
    fix st lrow assume l: "lrow \<in> set (rel_rows left)"
    have len: "length lrow = length (rel_columns left)" using l assms(1) by simp
    have keys: "hash_join_key (lrow ! li) = hash_join_key (rrow ! ri)"
      if "rrow \<in> set (rel_rows right)" "compare_sql (lrow ! li) (rrow ! ri) OpEqual = STrue" for rrow
      using that l assms(1,2) by (intro hash_join_key_eq) auto
    show "hash_left_row m kind w (rel_rows right) li ri st lrow =
      join_left_row (\<lambda>row. Inr (compare_sql (row ! li) (row ! (length (rel_columns left) + ri)) OpEqual = STrue))
        kind w (rel_rows right) st lrow"
      unfolding len [symmetric] by (rule hash_left_row_eq [OF m r _ keys]) (simp_all add: len assms(3))
  qed
  then show ?thesis by (simp add: hash_join_def nested_loop_join_def m)
qed

section \<open>Reading through an index loses no selected row\<close>

text \<open>
  Two values whose SQL comparison and whose key order agree: of the same type, and for
  floats neither NaN nor two zeros. A null on either side never compares true.
\<close>

fun key_comparable :: "val \<Rightarrow> val \<Rightarrow> bool" where
  "key_comparable VNull _ = True"
| "key_comparable _ VNull = True"
| "key_comparable (VInteger _) (VInteger _) = True"
| "key_comparable (VText _) (VText _) = True"
| "key_comparable (VBoolean _) (VBoolean _) = True"
| "key_comparable (VFloat a) (VFloat b) =
     (\<not> f64_is_nan a \<and> \<not> f64_is_nan b \<and> \<not> (f64_is_zero a \<and> f64_is_zero b))"
| "key_comparable _ _ = False"

lemma cmp_key_parts [simp]:
  "cmp (KInteger a) (KInteger b) = cmp (sint a) (sint b)"
  "cmp (KText s) (KText t) = cmp s t"
  "cmp (KBoolean p) (KBoolean q) = cmp p q"
  by (auto simp: cmp_def less_key_part_def sint_inject)

lemma value_cmp_key:
  assumes "key_comparable a b" "a \<noteq> VNull" "b \<noteq> VNull"
  shows "value_partial_cmp a b = Some (cmp (key_part_of a) (key_part_of b))"
  using assms float_key_order by (cases a; cases b) auto

lemma compare_sql_key:
  assumes "compare_sql a b op = STrue" "key_comparable a b" "op = OpEqual \<or> is_range_op op"
  shows "compare_key_part (key_part_of a) (key_part_of b) op"
proof -
  have "a \<noteq> VNull" "b \<noteq> VNull" and "compare_result a b op"
    using assms(1) by (auto simp: compare_sql_def truth_of_bool_def split: if_splits)
  with value_cmp_key [OF assms(2)] assms(3) show ?thesis
    by (auto simp: compare_key_part_def is_range_op_def Let_def)
qed

lemma value_partial_cmp_swap: "value_partial_cmp b a = map_option reverse_ordering (value_partial_cmp a b)"
  by (cases a; cases b) (simp_all add: f64_partial_cmp_def reverse_cmp)

lemma compare_sql_reverse:
  "op \<noteq> OpLike \<Longrightarrow> compare_sql b a (reverse_comparison op) = compare_sql a b op"
proof -
  assume "op \<noteq> OpLike"
  moreover have "map_option reverse_ordering x = Some o' \<longleftrightarrow> x = Some (reverse_ordering o')" for x o'
    by (cases x; cases o'; cases "the x") auto
  ultimately show ?thesis
    unfolding compare_sql_def using value_partial_cmp_swap [of a b]
    by (cases op) auto
qed

text \<open>The condition on a selection: every comparison the indexes may use is key-comparable.\<close>

definition index_safe :: "table \<Rightarrow> expr \<Rightarrow> bool" where
  "index_safe t e \<longleftrightarrow>
     (\<forall>p \<in> set (collect_index_predicates e). \<forall>row \<in> set (tb_rows t).
        (case column_index (tb_schema t) (ip_column p) of
           Some i \<Rightarrow> i < length row \<longrightarrow> key_comparable (row ! i) (ip_value p) | None \<Rightarrow> True))"

definition table_columns :: "string \<Rightarrow> table_schema \<Rightarrow> bound_column list" where
  "table_columns name s = map (\<lambda>c. \<lparr>bc_table = name, bc_name = col_name c\<rparr>) (sch_columns s)"

lemma filter_upt_singleton:
  "filter P [0..<n] = [i] \<longleftrightarrow> i < n \<and> P i \<and> (\<forall>j < n. P j \<longrightarrow> j = i)"
proof
  assume "filter P [0..<n] = [i]"
  then have "set (filter P [0..<n]) = {i}" by simp
  then show "i < n \<and> P i \<and> (\<forall>j < n. P j \<longrightarrow> j = i)" by auto
next
  assume "i < n \<and> P i \<and> (\<forall>j < n. P j \<longrightarrow> j = i)"
  then have set: "set (filter P [0..<n]) = {i}" by auto
  moreover have "length (filter P [0..<n]) = card (set (filter P [0..<n]))"
    by (rule distinct_card [symmetric]) simp
  ultimately obtain x where "filter P [0..<n] = [x]" by (auto simp: length_Suc_conv)
  with set show "filter P [0..<n] = [i]" by simp
qed

lemma resolve_column_iff:
  "resolve_column columns q name = Inr i \<longleftrightarrow> i < length columns \<and> column_matches q name (columns ! i) \<and>
     (\<forall>j < length columns. column_matches q name (columns ! j) \<longrightarrow> j = i)"
proof -
  have "(case xs of [i] \<Rightarrow> Inr i | [] \<Rightarrow> Inl a | _ \<Rightarrow> Inl b) = Inr i \<longleftrightarrow> xs = [i]"
    for xs :: "nat list" and a b :: error
    by (cases xs; cases "tl xs") simp_all
  then show ?thesis by (simp add: resolve_column_def filter_upt_singleton)
qed

lemma position_unique:
  assumes "i < length xs" "p (xs ! i)" "\<And>j. j < length xs \<Longrightarrow> p (xs ! j) \<Longrightarrow> j = i"
  shows "position p xs = Some i"
proof (cases "position p xs")
  case None
  then show ?thesis using assms(1,2) by (auto simp: position_None_iff)
next
  case (Some k)
  with position_SomeD [OF Some] assms(3) show ?thesis by simp
qed

lemma resolve_column_index:
  assumes "resolve_column (table_columns name s) q c = Inr i"
  shows "column_index s c = Some i"
proof -
  define Q where "Q = (case q of None \<Rightarrow> True | Some x \<Rightarrow> eq_ignore_ascii_case name x)"
  have m: "column_matches q c (table_columns name s ! j) \<longleftrightarrow>
      eq_ignore_ascii_case (col_name (sch_columns s ! j)) c \<and> Q" if "j < length (sch_columns s)" for j
    using that by (cases q) (simp_all add: column_matches_def table_columns_def Q_def)
  have "length (table_columns name s) = length (sch_columns s)" by (simp add: table_columns_def)
  with assms m show ?thesis
    unfolding column_index_def by (intro position_unique) (auto simp: resolve_column_iff)
qed

text \<open>A selection that is true on a row makes each collected predicate true on it.\<close>

lemma collected_predicates_hold:
  assumes "eval_expr runq e (table_columns name s) row grp = Inr v" "truth v = STrue"
    and "p \<in> set (collect_index_predicates e)" "ip_operator p \<noteq> OpLike"
  shows "\<exists>i. column_index s (ip_column p) = Some i \<and> i < length row \<and>
           compare_sql (row ! i) (ip_value p) (ip_operator p) = STrue"
  using assms
proof (induction e arbitrary: v rule: collect_index_predicates.induct)
  case (1 left right)
  from "1.prems"(1) obtain l where l: "eval_expr runq left (table_columns name s) row grp = Inr l"
    by (auto simp: rbind_Inr_iff)
  with "1.prems"(1,2) have "truth l \<noteq> SFalse" by auto
  with "1.prems"(1) l obtain r where r: "eval_expr runq right (table_columns name s) row grp = Inr r"
    "v = truth_value (truth_and (truth l) (truth r))"
    by (auto simp: rbind_Inr_iff split: if_splits)
  with "1.prems"(2) have "truth l = STrue" "truth r = STrue"
    by (cases "truth l"; cases "truth r"; simp)+
  with 1 l r show ?case by auto
next
  case (2 q c op w)
  then obtain i where i: "resolve_column (table_columns name s) q c = Inr i" "i < length row"
    "v = truth_value (compare_sql (row ! i) w op)"
    by (auto simp: rbind_Inr_iff arith_def ok_or_def get_def split: if_splits)
  with "2.prems"(2) have "compare_sql (row ! i) w op = STrue"
    by (cases "compare_sql (row ! i) w op") auto
  with i 2 show ?case by (auto dest: resolve_column_index)
next
  case (3 w op q c)
  then obtain i where i: "resolve_column (table_columns name s) q c = Inr i" "i < length row"
    "v = truth_value (compare_sql w (row ! i) op)"
    by (auto simp: rbind_Inr_iff arith_def ok_or_def get_def split: if_splits)
  with "3.prems"(2) have "compare_sql w (row ! i) op = STrue"
    by (cases "compare_sql w (row ! i) op") auto
  moreover have "op \<noteq> OpLike" using "3.prems"(3,4) by auto
  ultimately show ?case using i 3 by (auto dest: resolve_column_index simp: compare_sql_reverse)
qed auto

definition keeps :: "(query \<Rightarrow> relation res) \<Rightarrow> expr \<Rightarrow> bound_column list \<Rightarrow> row \<Rightarrow> bool" where
  "keeps runq e columns row =
     (case eval_expr runq e columns row None of Inr v \<Rightarrow> truth v = STrue | Inl _ \<Rightarrow> False)"

lemma filter_rows_Inr_iff:
  "filter_rows runq (Some e) r = Inr r' \<longleftrightarrow>
     (\<forall>row \<in> set (rel_rows r). \<exists>v. eval_expr runq e (rel_columns r) row None = Inr v) \<and>
     r' = r\<lparr>rel_rows := filter (keeps runq e (rel_columns r)) (rel_rows r)\<rparr>"
proof -
  have "res_fold (\<lambda>out row. rbind (eval_expr runq e cols row None) (\<lambda>v.
           Inr (if truth v = STrue then out @ [row] else out))) out rows = Inr out' \<longleftrightarrow>
     (\<forall>row \<in> set rows. \<exists>v. eval_expr runq e cols row None = Inr v) \<and>
     out' = out @ filter (keeps runq e cols) rows" for cols out out' rows
    by (induction rows arbitrary: out) (auto simp: rbind_Inr_iff keeps_def)
  then show ?thesis by (auto simp: filter_rows_def rbind_Inr_iff)
qed

lemma filter_map_snd_skip:
  "(\<And>x. x \<in> set ps \<Longrightarrow> \<not> P x \<Longrightarrow> \<not> K (snd x)) \<Longrightarrow> filter K (map snd (filter P ps)) = filter K (map snd ps)"
  by (induction ps) auto

lemma relation_from_table_None:
  "relation_from_table t name None = \<lparr>rel_columns = table_columns name (tb_schema t), rel_rows = tb_rows t\<rparr>"
  by (simp add: relation_from_table_def candidate_row_ids_def table_columns_def Let_def)

definition rows_indexable :: "table \<Rightarrow> bool" where
  "rows_indexable t \<longleftrightarrow> (\<forall>row \<in> set (tb_rows t). \<forall>d \<in> set (sch_indexes (tb_schema t)).
     index_key (tb_schema t) row (ix_columns d) \<noteq> None)"

lemma skipped_row_not_kept:
  assumes "table_ok t" "index_safe t e" "rows_indexable t"
    and "candidate_row_ids t (Some e) = Some (ids, ixname)"
    and "p < length (tb_rows t)" "tb_row_ids t ! p \<notin> ids"
  shows "\<not> keeps runq e (table_columns name (tb_schema t)) (tb_rows t ! p)"
proof
  assume "keeps runq e (table_columns name (tb_schema t)) (tb_rows t ! p)"
  then obtain v where v: "eval_expr runq e (table_columns name (tb_schema t)) (tb_rows t ! p) None = Inr v"
    "truth v = STrue" by (auto simp: keeps_def split: sum.splits)
  have "key_pred_holds (tb_schema t) (tb_rows t ! p) q" if q: "q \<in> set (collect_index_predicates e)" for q
  proof (cases "ip_operator q = OpEqual \<or> is_range_op (ip_operator q)")
    case True
    then have "ip_operator q \<noteq> OpLike" by (auto simp: is_range_op_def)
    with collected_predicates_hold [OF v q] obtain i where i: "column_index (tb_schema t) (ip_column q) = Some i"
      "i < length (tb_rows t ! p)" "compare_sql (tb_rows t ! p ! i) (ip_value q) (ip_operator q) = STrue" by auto
    moreover have "key_comparable (tb_rows t ! p ! i) (ip_value q)"
      using assms(2) q i nth_mem [OF assms(5)] by (fastforce simp: index_safe_def)
    ultimately show ?thesis using compare_sql_key True by (simp add: key_pred_holds_def)
  qed (simp add: key_pred_holds_def split: option.splits)
  then have "tb_row_ids t ! p \<in> ids"
    using candidate_row_ids_complete [OF assms(1,4,5)] assms(3,5) by (auto simp: rows_indexable_def)
  with assms(6) show False ..
qed

lemma index_scan_keeps_selected:
  assumes "table_ok t" "index_safe t e" "rows_indexable t"
    and "filter_rows runq (Some e) (relation_from_table t name None) = Inr r"
  shows "filter_rows runq (Some e) (relation_from_table t name (Some e)) = Inr r"
proof (cases "candidate_row_ids t (Some e)")
  case None
  have "relation_from_table t name (Some e) = relation_from_table t name None"
    by (simp add: relation_from_table_def None candidate_row_ids_def [of t None])
  then show ?thesis using assms(4) by simp
next
  case (Some cand)
  then obtain ids ixname where cand: "candidate_row_ids t (Some e) = Some (ids, ixname)" by (cases cand) auto
  let ?K = "keeps runq e (table_columns name (tb_schema t))"
  let ?P = "\<lambda>(pos, row). case get (tb_row_ids t) pos of Some i \<Rightarrow> i \<in> ids | None \<Rightarrow> False"
  have rel: "relation_from_table t name (Some e) = \<lparr>rel_columns = table_columns name (tb_schema t),
      rel_rows = map snd (filter ?P (enumerate 0 (tb_rows t)))\<rparr>"
    by (simp add: relation_from_table_def cand table_columns_def Let_def)
  have "filter ?K (map snd (filter ?P (enumerate 0 (tb_rows t)))) = filter ?K (map snd (enumerate 0 (tb_rows t)))"
  proof (rule filter_map_snd_skip)
    fix x assume x: "x \<in> set (enumerate 0 (tb_rows t))" "\<not> ?P x"
    then obtain p where p: "p < length (tb_rows t)" "x = (p, tb_rows t ! p)"
      by (auto simp: in_set_enumerate_eq)
    have "length (tb_row_ids t) = length (tb_rows t)" using assms(1) by (simp add: table_ok_def ids_ok_def)
    with x(2) p have "tb_row_ids t ! p \<notin> ids" by simp
    from skipped_row_not_kept [OF assms(1-3) cand p(1) this] show "\<not> ?K (snd x)" by (simp add: p)
  qed
  moreover have "row \<in> set (tb_rows t)" if "(p, row) \<in> set (enumerate 0 (tb_rows t))" for p row
    using that by (auto simp: in_set_enumerate_eq)
  ultimately show ?thesis
    using assms(4) unfolding relation_from_table_None rel filter_rows_Inr_iff by fastforce
qed

end
