(* ===== verification/Planner.thy ===== *)
theory Planner
  imports QueryExec Statements
begin

text \<open>
  \<^verbatim>\<open>src/src/sql/planner.rs\<close>: the constant folder, which rewrites statements before they enter
  the plan cache, and the logical plans printed by \<open>EXPLAIN\<close>. The lemmas show when folding
  preserves the value of an expression, and which foldings change it.
\<close>

section \<open>Constant folding\<close>

text \<open>\<open>Inl\<close> is a panic of the folded arithmetic, \<open>None\<close> an expression left as it is.\<close>

fun fold_numeric :: "(i64 \<Rightarrow> i64 \<Rightarrow> i64 res) \<Rightarrow> (f64 \<Rightarrow> f64 \<Rightarrow> f64) \<Rightarrow> val \<Rightarrow> val \<Rightarrow> val option res" where
  "fold_numeric integer flt (VInteger a) (VInteger b) = rbind (integer a b) (\<lambda>c. Inr (Some (VInteger c)))"
| "fold_numeric integer flt (VInteger a) (VFloat b) = Inr (Some (VFloat (flt (f64_of_i64 a) b)))"
| "fold_numeric integer flt (VFloat a) (VInteger b) = Inr (Some (VFloat (flt a (f64_of_i64 b))))"
| "fold_numeric integer flt (VFloat a) (VFloat b) = Inr (Some (VFloat (flt a b)))"
| "fold_numeric integer flt _ _ = Inr None"

definition fold_binary :: "val \<Rightarrow> binary_op \<Rightarrow> val \<Rightarrow> val option res" where
  "fold_binary left op right =
     (if is_null left \<or> is_null right then Inr (Some VNull)
      else case op of
        BCompare operator \<Rightarrow> Inr (Some (truth_value (compare_sql left right operator)))
      | BAnd \<Rightarrow> Inr (Some (truth_value (truth_and (truth left) (truth right))))
      | BOr \<Rightarrow> Inr (Some (truth_value (truth_or (truth left) (truth right))))
      | BAdd \<Rightarrow> fold_numeric (\<lambda>a b. Inr (a + b)) f64_add left right
      | BSubtract \<Rightarrow> fold_numeric (\<lambda>a b. Inr (a - b)) f64_sub left right
      | BMultiply \<Rightarrow> fold_numeric (\<lambda>a b. Inr (a * b)) f64_mul left right
      | BDivide \<Rightarrow> (if is_zero_number right then Inr None
                    else fold_numeric i64_div f64_div left right))"

definition fold_binary_node :: "expr \<Rightarrow> binary_op \<Rightarrow> expr \<Rightarrow> expr res" where
  "fold_binary_node left op right = (case (left, right) of
     (Literal l, Literal r) \<Rightarrow>
       rbind (fold_binary l op r) (\<lambda>v. case v of
           Some w \<Rightarrow> Inr (Literal w) | None \<Rightarrow> Inr (Binary left op right))
   | _ \<Rightarrow> Inr (Binary left op right))"

fun fold_unary :: "unary_op \<Rightarrow> val \<Rightarrow> val option" where
  "fold_unary UNot v = Some (truth_value (truth_negate (truth v)))"
| "fold_unary UNegate (VInteger i) = Some (VInteger (- i))"
| "fold_unary UNegate (VFloat f) = Some (VFloat (f64_neg f))"
| "fold_unary UPlus (VInteger i) = Some (VInteger i)"
| "fold_unary UPlus (VFloat f) = Some (VFloat f)"
| "fold_unary _ _ = None"

definition fold_unary_node :: "unary_op \<Rightarrow> expr \<Rightarrow> expr" where
  "fold_unary_node op e = (case e of
     Literal v \<Rightarrow> (case fold_unary op v of Some w \<Rightarrow> Literal w | None \<Rightarrow> Unary op e)
   | _ \<Rightarrow> Unary op e)"

definition fold_is_null_node :: "expr \<Rightarrow> bool \<Rightarrow> expr" where
  "fold_is_null_node e negated = (case e of
     Literal v \<Rightarrow> Literal (VBoolean (if negated then \<not> is_null v else is_null v))
   | _ \<Rightarrow> IsNull e negated)"

definition fold_like_node :: "expr \<Rightarrow> expr \<Rightarrow> bool \<Rightarrow> expr" where
  "fold_like_node e pattern negated = (case (e, pattern) of
     (Literal v, Literal p) \<Rightarrow>
       (let t = compare_sql v p OpLike in
        Literal (truth_value (if negated then truth_negate t else t)))
   | _ \<Rightarrow> Like e pattern negated)"

definition res_option :: "('a \<Rightarrow> 'b res) \<Rightarrow> 'a option \<Rightarrow> 'b option res" where
  "res_option f x = (case x of None \<Rightarrow> Inr None | Some y \<Rightarrow> rbind (f y) (\<lambda>z. Inr (Some z)))"

lemma res_option_cong [fundef_cong]:
  "x = y \<Longrightarrow> (\<And>z. y = Some z \<Longrightarrow> f z = g z) \<Longrightarrow> res_option f x = res_option g y"
  by (cases y) (simp_all add: res_option_def)

fun fold_expr :: "expr \<Rightarrow> expr res"
and fold_select_item :: "select_item \<Rightarrow> select_item res"
and optimize_source :: "table_source \<Rightarrow> table_source res"
and optimize_join :: "join \<Rightarrow> join res"
and optimize_order_by :: "order_by \<Rightarrow> order_by res"
and optimize_cte :: "cte \<Rightarrow> cte res"
and optimize_query :: "query \<Rightarrow> query res" where
  "fold_expr (Binary left op right) =
     rbind (fold_expr left) (\<lambda>l. rbind (fold_expr right) (\<lambda>r. fold_binary_node l op r))"
| "fold_expr (Unary op e) = rbind (fold_expr e) (\<lambda>e'. Inr (fold_unary_node op e'))"
| "fold_expr (IsNull e negated) = rbind (fold_expr e) (\<lambda>e'. Inr (fold_is_null_node e' negated))"
| "fold_expr (Like e pattern negated) =
     rbind (fold_expr e) (\<lambda>e'. rbind (fold_expr pattern) (\<lambda>p'. Inr (fold_like_node e' p' negated)))"
| "fold_expr (InList e items negated) =
     rbind (fold_expr e) (\<lambda>e'. rbind (res_map fold_expr items) (\<lambda>items'. Inr (InList e' items' negated)))"
| "fold_expr (InSubquery e q negated) =
     rbind (fold_expr e) (\<lambda>e'. rbind (optimize_query q) (\<lambda>q'. Inr (InSubquery e' q' negated)))"
| "fold_expr (Exists q negated) = rbind (optimize_query q) (\<lambda>q'. Inr (Exists q' negated))"
| "fold_expr (ScalarSubquery q) = rbind (optimize_query q) (\<lambda>q'. Inr (ScalarSubquery q'))"
| "fold_expr (Aggregate func e dedup) =
     rbind (res_option fold_expr e) (\<lambda>e'. Inr (Aggregate func e' dedup))"
| "fold_expr (Column q name) = Inr (Column q name)"
| "fold_expr (Literal v) = Inr (Literal v)"
| "fold_expr (Parameter i) = Inr (Parameter i)"
| "fold_expr (Incoming c) = Inr (Incoming c)"
| "fold_select_item (SelectExpr e name) = rbind (fold_expr e) (\<lambda>e'. Inr (SelectExpr e' name))"
| "fold_select_item (Wildcard q) = Inr (Wildcard q)"
| "optimize_source (Derived q name) = rbind (optimize_query q) (\<lambda>q'. Inr (Derived q' name))"
| "optimize_source (TableRef name shown) = Inr (TableRef name shown)"
| "optimize_join (Join kind source on) =
     rbind (optimize_source source) (\<lambda>s. rbind (res_option fold_expr on) (\<lambda>e. Inr (Join kind s e)))"
| "optimize_order_by (OrderBy e desc) = rbind (fold_expr e) (\<lambda>e'. Inr (OrderBy e' desc))"
| "optimize_cte (Cte name cols q) = rbind (optimize_query q) (\<lambda>q'. Inr (Cte name cols q'))"
| "optimize_query (Query ctes dist items src joins sel groups having obs lim) =
     rbind (res_map optimize_cte ctes) (\<lambda>ctes'.
     rbind (res_map fold_select_item items) (\<lambda>items'.
     rbind (res_option optimize_source src) (\<lambda>src'.
     rbind (res_map optimize_join joins) (\<lambda>joins'.
     rbind (res_option fold_expr sel) (\<lambda>sel'.
     rbind (res_map fold_expr groups) (\<lambda>groups'.
     rbind (res_option fold_expr having) (\<lambda>having'.
     rbind (res_map optimize_order_by obs) (\<lambda>obs'.
       Inr (Query ctes' dist items' src' joins' sel' groups' having' obs' lim)))))))))"

definition fold_assignment :: "string \<times> expr \<Rightarrow> (string \<times> expr) res" where
  "fold_assignment a = rbind (fold_expr (snd a)) (\<lambda>e. Inr (fst a, e))"

fun optimize_statement :: "statement \<Rightarrow> statement res" where
  "optimize_statement (QueryStatement q) = rbind (optimize_query q) (\<lambda>q'. Inr (QueryStatement q'))"
| "optimize_statement (Insert name cols source on_duplicate) =
     rbind (case source of
              InsertValues rows \<Rightarrow> rbind (res_map (res_map fold_expr) rows) (\<lambda>rows'. Inr (InsertValues rows'))
            | InsertQuery q \<Rightarrow> rbind (optimize_query q) (\<lambda>q'. Inr (InsertQuery q'))) (\<lambda>source'.
     rbind (res_map fold_assignment on_duplicate) (\<lambda>od. Inr (Insert name cols source' od)))"
| "optimize_statement (Update name assignments selection) =
     rbind (res_map fold_assignment assignments) (\<lambda>as.
     rbind (res_option fold_expr selection) (\<lambda>sel. Inr (Update name as sel)))"
| "optimize_statement (Delete name selection) =
     rbind (res_option fold_expr selection) (\<lambda>sel. Inr (Delete name sel))"
| "optimize_statement (Explain s) = rbind (optimize_statement s) (\<lambda>s'. Inr (Explain s'))"
| "optimize_statement other = Inr other"

section \<open>Logical plans\<close>

datatype join_algorithm = HashAlgorithm | NestedLoopAlgorithm

datatype logical_plan =
    PValues
  | PTableScan string "string option" "string option"
  | PDerivedScan string logical_plan
  | PFilter expr logical_plan
  | PProjection "select_item list" logical_plan
  | PJoin join_type join_algorithm "expr option" logical_plan logical_plan
  | PAggregate "expr list" "expr option" logical_plan
  | PSort "order_by list" logical_plan
  | PTopN "order_by list" nat logical_plan
  | PLimit nat logical_plan
  | PMaterializeCte string logical_plan logical_plan

fun is_hash_join :: "expr \<Rightarrow> bool" where
  "is_hash_join (Binary (Column _ _) (BCompare OpEqual) (Column _ _)) = True"
| "is_hash_join _ = False"

definition join_algorithm_for :: "expr option \<Rightarrow> join_algorithm" where
  "join_algorithm_for on =
     (if (case on of Some e \<Rightarrow> is_hash_join e | None \<Rightarrow> False) then HashAlgorithm else NestedLoopAlgorithm)"

definition plan_tail :: "query \<Rightarrow> logical_plan \<Rightarrow> logical_plan" where
  "plan_tail q joined =
     (let filtered = (case query_selection q of Some e \<Rightarrow> PFilter e joined | None \<Rightarrow> joined);
          grouped = (if query_aggregates q then PAggregate (query_group_by q) (query_having q) filtered
                     else filtered);
          projected = PProjection (query_projection q) grouped
      in if query_order_by q \<noteq> [] then
           (case query_limit q of
              Some limit \<Rightarrow> PTopN (query_order_by q) limit projected
            | None \<Rightarrow> PSort (query_order_by q) projected)
         else (case query_limit q of Some limit \<Rightarrow> PLimit limit projected | None \<Rightarrow> projected))"

fun plan :: "catalog \<Rightarrow> query \<Rightarrow> logical_plan"
and plan_source :: "catalog \<Rightarrow> table_source \<Rightarrow> expr option \<Rightarrow> logical_plan"
and plan_join :: "catalog \<Rightarrow> join \<Rightarrow> logical_plan \<Rightarrow> logical_plan"
and plan_cte :: "catalog \<Rightarrow> cte \<Rightarrow> logical_plan \<Rightarrow> logical_plan" where
  "plan cat (Query ctes dist items src joins sel groups having obs lim) =
     (let base = (case src of Some s \<Rightarrow> plan_source cat s sel | None \<Rightarrow> PValues);
          joined = fold (plan_join cat) joins base;
          body = plan_tail (Query ctes dist items src joins sel groups having obs lim) joined
      in foldr (plan_cte cat) ctes body)"
| "plan_source cat (TableRef name shown) sel =
     PTableScan name shown (Option.bind (map_of (cat_tables cat) name) (\<lambda>t. best_index_name t sel))"
| "plan_source cat (Derived q name) sel = PDerivedScan name (plan cat q)"
| "plan_join cat (Join kind source on) left =
     PJoin kind (join_algorithm_for on) on left (plan_source cat source None)"
| "plan_cte cat (Cte name cols q) input = PMaterializeCte name (plan cat q) input"

fun join_type_debug :: "join_type \<Rightarrow> string" where
  "join_type_debug InnerJoin = ''Inner''"
| "join_type_debug LeftJoin = ''Left''"
| "join_type_debug RightJoin = ''Right''"
| "join_type_debug CrossJoin = ''Cross''"

fun join_algorithm_debug :: "join_algorithm \<Rightarrow> string" where
  "join_algorithm_debug HashAlgorithm = ''Hash''"
| "join_algorithm_debug NestedLoopAlgorithm = ''NestedLoop''"

definition indent :: "nat \<Rightarrow> string" where
  "indent depth = concat (replicate depth ''  '')"

fun write_explain :: "nat \<Rightarrow> logical_plan \<Rightarrow> string list" where
  "write_explain d PValues = [indent d @ ''Values(one_row)'']"
| "write_explain d (PTableScan table shown index) =
     (let name = (case shown of Some a \<Rightarrow> a | None \<Rightarrow> table) in
      case index of
        Some i \<Rightarrow> [indent d @ ''IndexScan(table='' @ table @ '', alias='' @ name @ '', index='' @ i @ '', bloom=true)'']
      | None \<Rightarrow> [indent d @ ''SeqScan(table='' @ table @ '', alias='' @ name @ '')''])"
| "write_explain d (PDerivedScan name input) =
     (indent d @ ''DerivedScan(alias='' @ name @ '')'') # write_explain (d + 1) input"
| "write_explain d (PFilter e input) =
     (indent d @ ''Filter(predicate_pushdown=true, constants_folded=true)'') # write_explain (d + 1) input"
| "write_explain d (PProjection items input) =
     (indent d @ ''Projection(pruned=true)'') # write_explain (d + 1) input"
| "write_explain d (PJoin kind algorithm on left right) =
     (indent d @ join_algorithm_debug algorithm @ ''Join(type='' @ join_type_debug kind @ '')'')
       # write_explain (d + 1) left @ write_explain (d + 1) right"
| "write_explain d (PAggregate groups having input) =
     (indent d @ ''HashAggregate'') # write_explain (d + 1) input"
| "write_explain d (PSort obs input) = (indent d @ ''Sort'') # write_explain (d + 1) input"
| "write_explain d (PTopN obs limit input) =
     (indent d @ ''TopN(limit='' @ show_nat limit @ '')'') # write_explain (d + 1) input"
| "write_explain d (PLimit limit input) =
     (indent d @ ''Limit('' @ show_nat limit @ '')'') # write_explain (d + 1) input"
| "write_explain d (PMaterializeCte name cte input) =
     (indent d @ ''MaterializeCTE(name='' @ name @ '')'') # write_explain (d + 1) cte @ write_explain (d + 1) input"

definition explain_lines :: "logical_plan \<Rightarrow> string list" where
  "explain_lines p = write_explain 0 p"

section \<open>What folding preserves\<close>

text \<open>
  The foldings that keep the value: everything but \<open>NULL AND FALSE\<close> and \<open>NULL OR TRUE\<close>
  (either order), which the folder turns into null, and a null divided by zero.
\<close>

definition fold_faithful :: "val \<Rightarrow> binary_op \<Rightarrow> val \<Rightarrow> bool" where
  "fold_faithful l op r \<longleftrightarrow>
     (is_null l \<or> is_null r \<longrightarrow>
        (op = BAnd \<longrightarrow> truth l \<noteq> SFalse \<and> truth r \<noteq> SFalse) \<and>
        (op = BOr \<longrightarrow> truth l \<noteq> STrue \<and> truth r \<noteq> STrue) \<and>
        (op = BDivide \<longrightarrow> \<not> is_zero_number r))"

fun fold_safe :: "expr \<Rightarrow> bool" where
  "fold_safe (Binary left op right) \<longleftrightarrow> fold_safe left \<and> fold_safe right \<and>
     (case (fold_expr left, fold_expr right) of
        (Inr (Literal l), Inr (Literal r)) \<Rightarrow> fold_faithful l op r | _ \<Rightarrow> True)"
| "fold_safe (Unary _ e) = fold_safe e"
| "fold_safe (IsNull e _) = fold_safe e"
| "fold_safe (Like e p _) \<longleftrightarrow> fold_safe e \<and> fold_safe p"
| "fold_safe (InList e items _) \<longleftrightarrow> fold_safe e \<and> list_all fold_safe items"
| "fold_safe (InSubquery _ _ _) = False"
| "fold_safe (Exists _ _) = False"
| "fold_safe (ScalarSubquery _) = False"
| "fold_safe (Aggregate _ e _) = (case e of Some e' \<Rightarrow> fold_safe e' | None \<Rightarrow> True)"
| "fold_safe _ = True"

lemma fold_numeric_Some:
  "fold_numeric f g l r = Inr (Some v) \<Longrightarrow> numeric_binary f g l r = Inr v"
  by (cases l; cases r) (auto simp: rbind_Inr_iff)

lemma numeric_binary_null: "is_null l \<or> is_null r \<Longrightarrow> numeric_binary f g l r = Inr VNull"
  by (cases l; cases r) auto

lemma fold_binary_value:
  assumes "fold_binary l op r = Inr (Some v)" "fold_faithful l op r"
  shows "eval_expr runq (Binary (Literal l) op (Literal r)) columns row grp = Inr v"
proof (cases "is_null l \<or> is_null r")
  case True
  then have v: "v = VNull" using assms(1) by (simp add: fold_binary_def)
  have "truth VNull = SUnknown" by simp
  with True assms(2) show ?thesis
    unfolding v
    by (cases op; cases "truth l"; cases "truth r")
       (auto simp: fold_faithful_def arith_def numeric_binary_null compare_sql_def)
next
  case False
  with assms(1) show ?thesis
    by (cases op; cases "truth l"; cases "truth r")
       (auto simp: fold_binary_def arith_def split: if_splits dest: fold_numeric_Some)
qed

lemma fold_binary_node_eval:
  assumes "fold_binary_node l op r = Inr e" "\<And>a b. l = Literal a \<Longrightarrow> r = Literal b \<Longrightarrow> fold_faithful a op b"
  shows "eval_expr runq e columns row grp = eval_expr runq (Binary l op r) columns row grp"
proof (cases "\<exists>a b. l = Literal a \<and> r = Literal b")
  case True
  then obtain a b where ab: "l = Literal a" "r = Literal b" by blast
  with assms(1) obtain v where v: "fold_binary a op b = Inr v"
    "e = (case v of Some w \<Rightarrow> Literal w | None \<Rightarrow> Binary l op r)"
    by (auto simp: fold_binary_node_def rbind_Inr_iff split: option.splits)
  show ?thesis
  proof (cases v)
    case (Some w)
    then show ?thesis using v fold_binary_value [OF _ assms(2) [OF ab]] ab by simp
  qed (use v in simp)
next
  case False
  then have "e = Binary l op r"
    using assms(1) by (cases l; cases r) (auto simp: fold_binary_node_def)
  then show ?thesis by simp
qed

lemma fold_unary_value: "fold_unary op v = Some w \<Longrightarrow> unary op v = Inr w"
  by (cases op; cases v) auto

lemma fold_unary_node_eval:
  "eval_expr runq (fold_unary_node op e) columns row grp = eval_expr runq (Unary op e) columns row grp"
  by (cases e) (auto simp: fold_unary_node_def fold_unary_value split: option.splits)

lemma fold_is_null_node_eval:
  "eval_expr runq (fold_is_null_node e negated) columns row grp = eval_expr runq (IsNull e negated) columns row grp"
  by (cases e) (simp_all add: fold_is_null_node_def)

lemma fold_like_node_eval:
  "eval_expr runq (fold_like_node e p negated) columns row grp = eval_expr runq (Like e p negated) columns row grp"
  by (cases e; cases p) (simp_all add: fold_like_node_def Let_def)

lemma res_map_eval_cong:
  assumes "list_all2 (\<lambda>e e'. \<forall>columns row grp. eval_expr runq e' columns row grp = eval_expr runq e columns row grp) es es'"
  shows "res_map (\<lambda>e. eval_expr runq e columns row grp) es' = res_map (\<lambda>e. eval_expr runq e columns row grp) es"
  using assms by (induction rule: list_all2_induct) auto

lemma fold_expr_eval:
  assumes "fold_expr e = Inr e'" "fold_safe e"
  shows "eval_expr runq e' columns row grp = eval_expr runq e columns row grp"
  using assms
proof (induction e arbitrary: e' columns row grp rule: measure_induct_rule [of size])
  case (less e)
  have IH: "eval_expr runq f' columns row grp = eval_expr runq f columns row grp"
    if "size f < size e" "fold_expr f = Inr f'" "fold_safe f" for f f' columns row grp
    by (rule less.IH [OF that])
  show ?case
  proof (cases e)
    case (Binary l op r)
    with less.prems obtain l' r' where lr: "fold_expr l = Inr l'" "fold_expr r = Inr r'"
      "fold_binary_node l' op r' = Inr e'" by (auto simp: rbind_Inr_iff)
    have "eval_expr runq e' columns row grp = eval_expr runq (Binary l' op r') columns row grp"
      using less.prems(2) lr by (intro fold_binary_node_eval) (auto simp: Binary)
    also have "\<dots> = eval_expr runq (Binary l op r) columns row grp"
    proof -
      have eq: "eval_expr runq l' columns row grp = eval_expr runq l columns row grp"
        "eval_expr runq r' columns row grp = eval_expr runq r columns row grp"
        using less.prems(2) lr by (auto simp: Binary intro!: IH)
      show ?thesis unfolding eval_expr.simps eq ..
    qed
    finally show ?thesis by (simp only: Binary)
  next
    case (Unary op f)
    with less.prems IH [of f] show ?thesis
      by (auto simp: rbind_Inr_iff fold_unary_node_eval simp del: eval_expr.simps) (simp add: Unary)
  next
    case (IsNull f negated)
    with less.prems IH [of f] show ?thesis
      by (auto simp: rbind_Inr_iff fold_is_null_node_eval simp del: eval_expr.simps) (simp add: IsNull)
  next
    case (Like f p negated)
    with less.prems IH [of f] IH [of p] show ?thesis
      by (auto simp: rbind_Inr_iff fold_like_node_eval simp del: eval_expr.simps) (simp add: Like)
  next
    case (InList f items negated)
    with less.prems obtain f' items' where fi: "fold_expr f = Inr f'" "res_map fold_expr items = Inr items'"
      "e' = InList f' items' negated" by (auto simp: rbind_Inr_iff)
    have "list_all2 (\<lambda>g g'. \<forall>columns row grp. eval_expr runq g' columns row grp = eval_expr runq g columns row grp)
        items items'"
      using fi(2) less.prems(2) unfolding res_map_Inr_iff list_all2_conv_all_nth
      by (auto simp: InList list_all_length intro!: IH size_list_less)
    from res_map_eval_cong [OF this] IH [of f] fi less.prems(2) show ?thesis by (simp add: InList)
  next
    case (Aggregate func f dedup)
    show ?thesis
    proof (cases f)
      case (Some g)
      with Aggregate less.prems obtain g' where g': "fold_expr g = Inr g'" "e' = Aggregate func (Some g') dedup"
        by (auto simp: rbind_Inr_iff res_option_def)
      have "eval_expr runq g' columns row grp = eval_expr runq g columns row grp" for columns row grp
        using g' less.prems(2) by (intro IH) (auto simp: Aggregate Some)
      then show ?thesis by (simp add: Aggregate Some g')
    qed (use Aggregate less.prems in \<open>auto simp: res_option_def\<close>)
  qed (use less.prems in auto)
qed

end
