(* ===== verification/PlanCache.thy ===== *)
theory PlanCache
  imports SqlText Planner
begin

text \<open>
  The plan cache of \<^verbatim>\<open>src/src/sql/database.rs\<close> (lines 158 to 228) and the cached parse of lines
  331 to 351. A plan cache is a memo table, the interface \<open>memo\<close>: the lemmas show that it
  only ever answers what was computed for the text, so that \<open>parse_cached\<close> returns what
  parsing and optimising the text returns, that it never grows past its capacity, that it
  answers what was just inserted, and that it evicts a least recently used entry.
\<close>

section \<open>The cache\<close>

record plan_cache_entry =
  pe_catalog_version :: nat
  pe_statement :: statement
  pe_last_used :: nat

record plan_cache =
  pc_capacity :: nat
  pc_clock :: nat
  pc_entries :: "(string, plan_cache_entry) hmap"

definition plan_cache_new :: "nat \<Rightarrow> plan_cache" where
  "plan_cache_new capacity = \<lparr>pc_capacity = capacity, pc_clock = 0, pc_entries = []\<rparr>"

definition plan_cache_get :: "plan_cache \<Rightarrow> string \<Rightarrow> nat \<Rightarrow> statement option \<times> plan_cache" where
  "plan_cache_get c sql version =
     (let c1 = c\<lparr>pc_clock := sat_add (pc_clock c) 1\<rparr> in
      case map_of (pc_entries c1) sql of
        None \<Rightarrow> (None, c1)
      | Some e \<Rightarrow>
          if pe_catalog_version e \<noteq> version
          then (None, c1\<lparr>pc_entries := AList.delete sql (pc_entries c1)\<rparr>)
          else (Some (pe_statement e),
                c1\<lparr>pc_entries := AList.update sql (e\<lparr>pe_last_used := pc_clock c1\<rparr>) (pc_entries c1)\<rparr>))"

text \<open>\<open>min_by_key\<close>: the first entry with the least \<open>last_used\<close>.\<close>

fun oldest :: "(string, plan_cache_entry) hmap \<Rightarrow> (string \<times> plan_cache_entry) option" where
  "oldest [] = None"
| "oldest (p # ps) = (case oldest ps of None \<Rightarrow> Some p
     | Some q \<Rightarrow> if pe_last_used (snd q) < pe_last_used (snd p) then Some q else Some p)"

definition evict :: "plan_cache \<Rightarrow> string \<Rightarrow> (string, plan_cache_entry) hmap" where
  "evict c sql =
     (if pc_capacity c \<le> length (pc_entries c) \<and> map_of (pc_entries c) sql = None
      then case oldest (pc_entries c) of None \<Rightarrow> pc_entries c
           | Some (k, _) \<Rightarrow> AList.delete k (pc_entries c)
      else pc_entries c)"

definition plan_cache_insert :: "plan_cache \<Rightarrow> string \<Rightarrow> nat \<Rightarrow> statement \<Rightarrow> plan_cache" where
  "plan_cache_insert c sql version st =
     (if pc_capacity c = 0 then c
      else let c1 = c\<lparr>pc_clock := sat_add (pc_clock c) 1\<rparr>;
               e = \<lparr>pe_catalog_version = version, pe_statement = st, pe_last_used = pc_clock c1\<rparr>
           in c1\<lparr>pc_entries := AList.update sql e (evict c1 sql)\<rparr>)"

definition plan_cache_clear :: "plan_cache \<Rightarrow> plan_cache" where
  "plan_cache_clear c = c\<lparr>pc_entries := []\<rparr>"

section \<open>Parsing through the cache\<close>

text \<open>What is computed on a miss: \<open>Optimizer::optimize_statement (parse_sql text)\<close>.\<close>

definition compile :: "(string \<Rightarrow> statement res) \<Rightarrow> string \<Rightarrow> statement res" where
  "compile front sql = rbind (parse_sql front sql) optimize_statement"

definition parse_cached ::
  "(string \<Rightarrow> statement res) \<Rightarrow> plan_cache \<Rightarrow> nat \<Rightarrow> string \<Rightarrow> statement res \<times> plan_cache" where
  "parse_cached front c version sql =
     (let normalized = normalize_sql sql in
      case plan_cache_get c normalized version of
        (Some st, c1) \<Rightarrow> (Inr st, c1)
      | (None, c1) \<Rightarrow>
          (case compile front normalized of
             Inl err \<Rightarrow> (Inl err, c1)
           | Inr st \<Rightarrow> (Inr st, plan_cache_insert c1 normalized version st)))"

section \<open>Memo tables\<close>

text \<open>
  A memo table for a function \<open>f\<close>: an answer is a value of \<open>f\<close>, and storing a value of \<open>f\<close>
  keeps it so. A client that looks up, computes on a miss and stores gets \<open>f\<close> itself.
\<close>

locale memo =
  fixes lookup :: "'m \<Rightarrow> 'k \<Rightarrow> 'v option \<times> 'm" and store :: "'m \<Rightarrow> 'k \<Rightarrow> 'v \<Rightarrow> 'm"
    and sound :: "('k \<Rightarrow> 'v \<Rightarrow> bool) \<Rightarrow> 'm \<Rightarrow> bool"
  assumes lookup_sound: "sound f m \<Longrightarrow> lookup m k = (Some x, m') \<Longrightarrow> f k x"
    and lookup_keeps: "sound f m \<Longrightarrow> lookup m k = (r, m') \<Longrightarrow> sound f m'"
    and store_keeps: "sound f m \<Longrightarrow> f k x \<Longrightarrow> sound f (store m k x)"
begin

definition through :: "('k \<Rightarrow> 'e + 'v) \<Rightarrow> 'm \<Rightarrow> 'k \<Rightarrow> ('e + 'v) \<times> 'm" where
  "through g m k = (case lookup m k of
     (Some x, m1) \<Rightarrow> (Inr x, m1)
   | (None, m1) \<Rightarrow> (case g k of Inl e \<Rightarrow> (Inl e, m1) | Inr x \<Rightarrow> (Inr x, store m1 k x)))"

lemma through_value: "sound (\<lambda>k x. g k = Inr x) m \<Longrightarrow> fst (through g m k) = g k"
  by (auto simp: through_def split: prod.splits option.splits sum.splits dest: lookup_sound)

lemma through_keeps: "sound (\<lambda>k x. g k = Inr x) m \<Longrightarrow> sound (\<lambda>k x. g k = Inr x) (snd (through g m k))"
  by (auto simp: through_def split: prod.splits option.splits sum.splits dest: lookup_keeps intro: store_keeps)

end

definition cache_sound :: "(string \<Rightarrow> statement \<Rightarrow> bool) \<Rightarrow> plan_cache \<Rightarrow> bool" where
  "cache_sound f c \<longleftrightarrow> wf_map (pc_entries c) \<and>
     (\<forall>k e. map_of (pc_entries c) k = Some e \<longrightarrow> f k (pe_statement e))"

lemma evict_sub: "map_of (evict c sql) k = Some e \<Longrightarrow> map_of (pc_entries c) k = Some e"
  by (auto simp: evict_def split: if_splits option.splits)

lemma evict_wf: "wf_map (pc_entries c) \<Longrightarrow> wf_map (evict c sql)"
  by (auto simp: evict_def split: option.splits)

interpretation plan: memo "\<lambda>c k. plan_cache_get c k version" "\<lambda>c k st. plan_cache_insert c k version st" cache_sound
  for version
proof
  show "cache_sound f m \<Longrightarrow> plan_cache_get m k version = (Some x, m') \<Longrightarrow> f k x" for f m k x m'
    by (auto simp: cache_sound_def plan_cache_get_def Let_def split: option.splits if_splits)
  show "cache_sound f m \<Longrightarrow> plan_cache_get m k version = (r, m') \<Longrightarrow> cache_sound f m'" for f m k r m'
    by (auto simp: cache_sound_def plan_cache_get_def Let_def split: option.splits if_splits)
  show "cache_sound f m \<Longrightarrow> f k x \<Longrightarrow> cache_sound f (plan_cache_insert m k version x)" for f m k x
    by (auto simp: cache_sound_def plan_cache_insert_def Let_def evict_wf dest: evict_sub split: if_splits)
qed

lemma parse_cached_through:
  "parse_cached front c version sql = plan.through version (compile front) c (normalize_sql sql)"
  by (simp add: parse_cached_def plan.through_def Let_def)

section \<open>The cache never changes an answer\<close>

definition cache_ok :: "(string \<Rightarrow> statement res) \<Rightarrow> plan_cache \<Rightarrow> bool" where
  "cache_ok front c \<longleftrightarrow> cache_sound (\<lambda>k st. compile front k = Inr st) c"

lemma cache_ok_new [simp]: "cache_ok front (plan_cache_new n)"
  by (simp add: cache_ok_def cache_sound_def plan_cache_new_def)

lemma cache_ok_clear [simp]: "cache_ok front (plan_cache_clear c)"
  by (simp add: cache_ok_def cache_sound_def plan_cache_clear_def)

lemma parse_cached_value: "cache_ok front c \<Longrightarrow> fst (parse_cached front c version sql) = compile front (normalize_sql sql)"
  by (simp add: parse_cached_through cache_ok_def plan.through_value)

lemma parse_cached_keeps: "cache_ok front c \<Longrightarrow> cache_ok front (snd (parse_cached front c version sql))"
  by (simp add: parse_cached_through cache_ok_def plan.through_keeps)

section \<open>Capacity and eviction\<close>

lemma length_alist_update:
  "length (AList.update k v m) = (if map_of m k = None then Suc (length m) else length m)"
  by (induction m) (auto split: if_splits)

lemma delete_absent: "map_of m k = None \<Longrightarrow> AList.delete k m = m"
  by (induction m) (auto simp: AList.delete_eq split: if_splits)

lemma length_alist_delete:
  "wf_map m \<Longrightarrow> length (AList.delete k m) = (if map_of m k = None then length m else length m - 1)"
proof (induction m)
  case (Cons p m)
  then have wf: "wf_map m" and fresh: "map_of m (fst p) = None"
    by (auto simp: wf_map_def map_of_eq_None_iff)
  obtain a b where p: "p = (a, b)" by (cases p)
  have "map_of m k \<noteq> None \<Longrightarrow> m \<noteq> []" by auto
  with Cons.IH [OF wf] fresh delete_absent [of m k] show ?case by (auto simp: p neq_Nil_conv)
qed simp

definition cache_bounded :: "plan_cache \<Rightarrow> bool" where
  "cache_bounded c \<longleftrightarrow> wf_map (pc_entries c) \<and> length (pc_entries c) \<le> pc_capacity c"

lemma oldest_None_iff: "oldest m = None \<longleftrightarrow> m = []"
  by (cases m) (auto split: option.splits if_splits)

lemma oldest_mem: "oldest m = Some p \<Longrightarrow> p \<in> set m"
  by (induction m arbitrary: p) (auto split: option.splits if_splits)

lemma oldest_least: "oldest m = Some p \<Longrightarrow> q \<in> set m \<Longrightarrow> pe_last_used (snd p) \<le> pe_last_used (snd q)"
proof (induction m arbitrary: p)
  case (Cons a m)
  show ?case
  proof (cases "oldest m")
    case None
    then have "m = []" by (simp add: oldest_None_iff)
    with Cons.prems show ?thesis by simp
  next
    case (Some r)
    from Cons.IH [OF this] Cons.prems Some show ?thesis by (auto split: if_splits)
  qed
qed simp

lemma evict_room:
  assumes "cache_bounded c" "pc_capacity c \<noteq> 0" "map_of (pc_entries c) sql = None"
  shows "length (evict c sql) < pc_capacity c"
proof (cases "pc_capacity c \<le> length (pc_entries c)")
  case True
  with assms(2) have "pc_entries c \<noteq> []" by auto
  then obtain k e where o: "oldest (pc_entries c) = Some (k, e)" by (metis not_None_eq oldest_None_iff surj_pair)
  then have "map_of (pc_entries c) k \<noteq> None" using oldest_mem [OF o] by (metis domIff domI imageI dom_map_of_conv_image_fst fst_conv)
  then have "length (AList.delete k (pc_entries c)) = length (pc_entries c) - 1"
    using assms(1) by (auto simp: length_alist_delete cache_bounded_def)
  with True assms o show ?thesis by (auto simp: evict_def cache_bounded_def)
qed (simp add: evict_def)

lemma plan_cache_insert_bounded:
  assumes "cache_bounded c"
  shows "cache_bounded (plan_cache_insert c sql version st)"
proof (cases "pc_capacity c = 0")
  case False
  let ?c1 = "c\<lparr>pc_clock := sat_add (pc_clock c) 1\<rparr>"
  have b: "cache_bounded ?c1" using assms by (simp add: cache_bounded_def)
  have "length (AList.update sql e (evict ?c1 sql)) \<le> pc_capacity c" for e
  proof (cases "map_of (pc_entries c) sql")
    case None
    with evict_room [OF b, of sql] False show ?thesis by (auto simp: length_alist_update)
  next
    case (Some e')
    then have "evict ?c1 sql = pc_entries c" by (simp add: evict_def)
    with Some assms show ?thesis by (simp add: length_alist_update cache_bounded_def)
  qed
  then show ?thesis using False assms b
    by (simp add: plan_cache_insert_def cache_bounded_def Let_def evict_wf)
qed (use assms in \<open>simp add: plan_cache_insert_def\<close>)

lemma plan_cache_get_bounded: "cache_bounded c \<Longrightarrow> cache_bounded (snd (plan_cache_get c sql version))"
  by (auto simp: cache_bounded_def plan_cache_get_def Let_def length_alist_update length_alist_delete
      split: option.splits)

lemma parse_cached_bounded: "cache_bounded c \<Longrightarrow> cache_bounded (snd (parse_cached front c version sql))"
  using plan_cache_get_bounded [of c "normalize_sql sql" version]
  by (auto simp: parse_cached_def Let_def intro: plan_cache_insert_bounded split: prod.splits option.splits sum.splits)

lemma get_after_insert:
  "pc_capacity c \<noteq> 0 \<Longrightarrow>
   fst (plan_cache_get (plan_cache_insert c sql version st) sql version') = (if version' = version then Some st else None)"
  by (simp add: plan_cache_get_def plan_cache_insert_def Let_def)

text \<open>An entry an insertion throws out was not used after any entry that stays.\<close>

lemma eviction_is_lru:
  assumes "wf_map (pc_entries c)"
    and "map_of (pc_entries c) k = Some e" "map_of (pc_entries (plan_cache_insert c sql version st)) k = None"
    and "map_of (pc_entries c) k' = Some e'"
  shows "pe_last_used e \<le> pe_last_used e'"
proof -
  let ?c1 = "c\<lparr>pc_clock := sat_add (pc_clock c) 1\<rparr>"
  have gone: "map_of (evict ?c1 sql) k = None"
    using assms(2,3) by (auto simp: plan_cache_insert_def Let_def split: if_splits)
  with assms(2) obtain e0 where o: "oldest (pc_entries c) = Some (k, e0)"
    by (auto simp: evict_def split: if_splits option.splits)
  with assms(1,2) have "e0 = e" using oldest_mem [OF o] by (simp add: wf_map_in_iff)
  with o assms(1,4) show ?thesis using oldest_least [OF o, of "(k', e')"] by (simp add: wf_map_in_iff)
qed

end
