(* ===== verification/Executor.thy ===== *)
theory Executor
  imports Planner
begin

text \<open>
  Statement execution of \<^verbatim>\<open>src/src/sql/executor.rs\<close> (lines 671 to 1839 and 2824 to 3006): data
  definition, \<open>ALTER TABLE\<close>, insert with \<open>ON DUPLICATE KEY UPDATE\<close>, update, delete, the
  validation of the whole catalog and the copy-on-write driver. A handler returns the new
  catalog and the result; \<open>Inl (Fail msg)\<close> is \<open>ExecutionResult::Error(msg)\<close>, after which
  every caller drops the working copy. The lemmas show that a failed statement changes
  nothing, that a successful write leaves a catalog in which every constraint holds, and
  that the table invariant is kept by every statement.
\<close>

section \<open>Results\<close>

datatype execution_result =
    RSelect result_set
  | RowsAffected nat
  | TableCreated string
  | TableDropped string
  | IndexCreated string
  | IndexDropped string
  | RTables "string list"
  | RIndexes "index_def list"
  | TableDescription string "column_def list"
  | RExplain "string list"
  | TransactionStarted
  | TransactionCommitted
  | TransactionRolledBack
  | RError string

type_synonym outcome = "(execution_result \<times> catalog) res"

definition fail :: "string \<Rightarrow> 'a res" where
  "fail msg = Inl (Fail msg)"

definition put_table :: "catalog \<Rightarrow> string \<Rightarrow> table \<Rightarrow> catalog" where
  "put_table cat name t = cat\<lparr>cat_tables := AList.update name t (cat_tables cat)\<rparr>"

definition missing_table :: "string \<Rightarrow> string" where
  "missing_table name = ''Table '' @ quoted name @ '' does not exist''"

text \<open>The first element that satisfies \<open>p\<close>, changed in place (\<open>iter_mut().find(p)\<close>).\<close>

fun update_first :: "('a \<Rightarrow> bool) \<Rightarrow> ('a \<Rightarrow> 'a) \<Rightarrow> 'a list \<Rightarrow> 'a list" where
  "update_first p f [] = []"
| "update_first p f (x # xs) = (if p x then f x # xs else x # update_first p f xs)"

text \<open>\<open>any\<close> and \<open>all\<close> over closures that may panic.\<close>

fun res_any :: "('a \<Rightarrow> bool res) \<Rightarrow> 'a list \<Rightarrow> bool res" where
  "res_any f [] = Inr False"
| "res_any f (x # xs) = rbind (f x) (\<lambda>b. if b then Inr True else res_any f xs)"

fun res_every :: "('a \<Rightarrow> bool res) \<Rightarrow> 'a list \<Rightarrow> bool res" where
  "res_every f [] = Inr True"
| "res_every f (x # xs) = rbind (f x) (\<lambda>b. if b then res_every f xs else Inr False)"

section \<open>Validation of the catalog\<close>

definition run_query :: "catalog \<Rightarrow> query \<Rightarrow> relation res" where
  "run_query cat q = execute_query cat q []"

definition check_constraint :: "catalog \<Rightarrow> table \<Rightarrow> row \<Rightarrow> table_constraint \<Rightarrow> unit res" where
  "check_constraint cat t row c = (case c of
     Check name e \<Rightarrow>
       rbind (eval_expr (run_query cat) e (table_columns (sch_name (tb_schema t)) (tb_schema t)) row None) (\<lambda>v.
         if truth v = SFalse
         then fail (''CHECK constraint '' @ quoted (case name of Some n \<Rightarrow> n | None \<Rightarrow> ''<unnamed>'') @ '' failed'')
         else Inr ())
   | _ \<Rightarrow> Inr ())"

definition validate_checks :: "catalog \<Rightarrow> table \<Rightarrow> row \<Rightarrow> unit res" where
  "validate_checks cat t row = res_all (check_constraint cat t row) (sch_constraints (tb_schema t))"

definition validate_unique_indexes :: "table \<Rightarrow> unit res" where
  "validate_unique_indexes t =
     res_all (\<lambda>(name, ix). res_all (\<lambda>(key, ids).
         if KNull \<notin> set key \<and> 1 < card ids
         then fail (''UNIQUE constraint '' @ quoted (ix_name (bt_definition ix)) @ '' failed'')
         else Inr ()) (bt_entries ix))
       (filter (\<lambda>(name, ix). ix_unique (bt_definition ix)) (tb_indexes t))"

definition parent_is_unique :: "table \<Rightarrow> foreign_key \<Rightarrow> bool" where
  "parent_is_unique parent fk \<longleftrightarrow>
     list_ex (\<lambda>ix. ix_unique ix \<and>
        map to_ascii_lowercase (ix_columns ix) = map to_ascii_lowercase (fk_referred_columns fk))
       (sch_indexes (tb_schema parent))"

definition column_indices :: "table_schema \<Rightarrow> string \<Rightarrow> string list \<Rightarrow> nat list res" where
  "column_indices s what columns =
     res_map (\<lambda>c. ok_or (column_index s c) (''Unknown '' @ what @ '' column '' @ quoted c)) columns"

definition parent_matches :: "nat list \<Rightarrow> val list \<Rightarrow> row \<Rightarrow> bool res" where
  "parent_matches parent_indices key row =
     res_every (\<lambda>(i, p). rbind (idx row p) (\<lambda>v. rbind (idx key i) (\<lambda>k. Inr (value_eq v k))))
       (enumerate 0 parent_indices)"

definition validate_child_row ::
  "table \<Rightarrow> foreign_key \<Rightarrow> nat list \<Rightarrow> nat list \<Rightarrow> row \<Rightarrow> unit res" where
  "validate_child_row parent fk child_indices parent_indices row =
     rbind (res_map (idx row) child_indices) (\<lambda>key.
       if list_ex is_null key then Inr ()
       else rbind (res_any (parent_matches parent_indices key) (tb_rows parent)) (\<lambda>found.
         if found then Inr ()
         else fail (''FOREIGN KEY constraint '' @
                quoted (case fk_name fk of Some n \<Rightarrow> n | None \<Rightarrow> ''<unnamed>'') @ '' failed'')))"

definition validate_foreign_key :: "catalog \<Rightarrow> table \<Rightarrow> table_constraint \<Rightarrow> unit res" where
  "validate_foreign_key cat t c = (case c of
     ForeignKey fk \<Rightarrow>
       rbind (ok_or (map_of (cat_tables cat) (fk_foreign_table fk))
                (''Foreign key references missing table '' @ quoted (fk_foreign_table fk))) (\<lambda>parent.
       if \<not> parent_is_unique parent fk
       then fail (''Foreign key target '' @ fk_foreign_table fk @ ''('' @
              join_with '', '' (fk_referred_columns fk) @ '') is not PRIMARY KEY or UNIQUE'')
       else
         rbind (column_indices (tb_schema t) ''foreign-key'' (fk_columns fk)) (\<lambda>child_indices.
         rbind (column_indices (tb_schema parent) ''referenced'' (fk_referred_columns fk)) (\<lambda>parent_indices.
           res_all (validate_child_row parent fk child_indices parent_indices) (tb_rows t))))
   | _ \<Rightarrow> Inr ())"

definition validate_foreign_keys :: "catalog \<Rightarrow> unit res" where
  "validate_foreign_keys cat =
     res_all (\<lambda>(name, t). res_all (validate_foreign_key cat t) (sch_constraints (tb_schema t))) (cat_tables cat)"

definition validate_table :: "catalog \<Rightarrow> string \<times> table \<Rightarrow> unit res" where
  "validate_table cat nt = (case nt of (name, t) \<Rightarrow>
     rbind (res_all (\<lambda>row. rbind (validate_row (tb_schema t) row) (\<lambda>_. validate_checks cat t row)) (tb_rows t))
       (\<lambda>_. validate_unique_indexes t))"

definition validate_catalog :: "catalog \<Rightarrow> unit res" where
  "validate_catalog cat =
     rbind (res_all (validate_table cat) (cat_tables cat)) (\<lambda>_. validate_foreign_keys cat)"

section \<open>Tables and indexes\<close>

definition key_column :: "nat \<Rightarrow> column_def \<Rightarrow> column_def" where
  "key_column width c = c\<lparr>col_nullable := False, col_unique := (width = 1), col_primary_key := (width = 1)\<rparr>"

definition mark_key_columns :: "string list \<Rightarrow> column_def list \<Rightarrow> column_def list" where
  "mark_key_columns keys columns =
     foldl (\<lambda>cols key. update_first (\<lambda>c. eq_ignore_ascii_case (col_name c) key) (key_column (length keys)) cols)
       columns keys"

fun constraint_columns :: "table_constraint \<Rightarrow> string list" where
  "constraint_columns (PrimaryKey _ columns) = columns"
| "constraint_columns (Unique _ columns) = columns"
| "constraint_columns (ForeignKey fk) = fk_columns fk"
| "constraint_columns (Check _ _) = []"

fun is_primary_key :: "table_constraint \<Rightarrow> bool" where
  "is_primary_key (PrimaryKey _ _) = True"
| "is_primary_key _ = False"

definition create_step ::
  "string set \<Rightarrow> column_def list \<times> nat \<Rightarrow> table_constraint \<Rightarrow> (column_def list \<times> nat) res" where
  "create_step seen st c =
     (let st' = (if is_primary_key c
                 then (mark_key_columns (constraint_columns c) (fst st), snd st + 1) else st)
      in rbind (res_all (\<lambda>column. if to_ascii_lowercase column \<in> seen then Inr ()
                 else fail (''Unknown constrained column '' @ quoted column)) (constraint_columns c))
           (\<lambda>_. Inr st'))"

fun duplicate_column :: "string set \<Rightarrow> column_def list \<Rightarrow> string option" where
  "duplicate_column seen [] = None"
| "duplicate_column seen (c # cs) =
     (if to_ascii_lowercase (col_name c) \<in> seen then Some (col_name c)
      else duplicate_column (insert (to_ascii_lowercase (col_name c)) seen) cs)"

definition execute_create_table ::
  "(f64 \<Rightarrow> f64) \<Rightarrow> catalog \<Rightarrow> string \<Rightarrow> column_def list \<Rightarrow> table_constraint list \<Rightarrow> bool \<Rightarrow> outcome" where
  "execute_create_table ln cat table_name columns constraints if_not_exists =
     (let name = to_ascii_lowercase table_name in
      if map_of (cat_tables cat) name \<noteq> None then
        (if if_not_exists then Inr (TableCreated name, cat)
         else fail (''Table '' @ quoted name @ '' already exists''))
      else case duplicate_column {} columns of
        Some c \<Rightarrow> fail (''Duplicate column '' @ quoted c)
      | None \<Rightarrow>
          rbind (res_fold (create_step (set (map (\<lambda>c. to_ascii_lowercase (col_name c)) columns)))
                   (columns, 0) constraints) (\<lambda>(columns', primary_keys).
          if 1 < primary_keys then fail ''A table may have only one PRIMARY KEY''
          else
            let s0 = (table_schema_new name columns')\<lparr>sch_constraints := constraints\<rparr>;
                s = s0\<lparr>sch_indexes := automatic_indexes s0\<rparr>
            in Inr (TableCreated name, put_table cat name (table_new ln s))))"

definition references :: "string \<Rightarrow> table_constraint \<Rightarrow> bool" where
  "references name c = (case c of
     ForeignKey fk \<Rightarrow> eq_ignore_ascii_case (fk_foreign_table fk) name | _ \<Rightarrow> False)"

definition execute_drop_table :: "catalog \<Rightarrow> string \<Rightarrow> bool \<Rightarrow> outcome" where
  "execute_drop_table cat table_name if_exists =
     (let name = to_ascii_lowercase table_name in
      if map_of (cat_tables cat) name = None then
        (if if_exists then Inr (TableDropped name, cat) else fail (missing_table name))
      else case find (\<lambda>(other, t). other \<noteq> name \<and> list_ex (references name) (sch_constraints (tb_schema t)))
                  (cat_tables cat) of
        Some (other, t) \<Rightarrow>
          fail (''Cannot drop table '' @ quoted name @ '': referenced by table '' @ quoted other)
      | None \<Rightarrow> Inr (TableDropped name, cat\<lparr>cat_tables := AList.delete name (cat_tables cat)\<rparr>))"

definition execute_create_index ::
  "(f64 \<Rightarrow> f64) \<Rightarrow> catalog \<Rightarrow> string \<Rightarrow> string \<Rightarrow> string list \<Rightarrow> bool \<Rightarrow> bool \<Rightarrow> outcome" where
  "execute_create_index ln cat name table_name0 columns is_unique if_not_exists =
     (let table_name = to_ascii_lowercase table_name0 in
      rbind (ok_or (map_of (cat_tables cat) table_name) (missing_table table_name)) (\<lambda>existing.
      if list_ex (\<lambda>ix. eq_ignore_ascii_case (ix_name ix) name) (sch_indexes (tb_schema existing)) then
        (if if_not_exists then Inr (IndexCreated name, cat)
         else fail (''Index '' @ quoted name @ '' already exists''))
      else if columns = [] then fail ''An index requires at least one column''
      else
        rbind (res_all (\<lambda>c. if column_index (tb_schema existing) c = None
                 then fail (''Unknown column '' @ quoted c) else Inr ()) columns) (\<lambda>_.
        let s = tb_schema existing;
            t = rebuild_index ln (existing\<lparr>tb_schema := s\<lparr>sch_indexes := sch_indexes s @
                  [\<lparr>ix_name = to_ascii_lowercase name, ix_columns = columns,
                    ix_unique = is_unique, ix_automatic = False\<rparr>]\<rparr>\<rparr>)
        in rbind (validate_unique_indexes t) (\<lambda>_.
             Inr (IndexCreated name, put_table cat table_name t)))))"

definition execute_drop_index ::
  "(f64 \<Rightarrow> f64) \<Rightarrow> catalog \<Rightarrow> string \<Rightarrow> string \<Rightarrow> bool \<Rightarrow> outcome" where
  "execute_drop_index ln cat name table_name0 if_exists =
     (let table_name = to_ascii_lowercase table_name0 in
      rbind (ok_or (map_of (cat_tables cat) table_name) (missing_table table_name)) (\<lambda>existing.
      let s = tb_schema existing in
      case position (\<lambda>ix. eq_ignore_ascii_case (ix_name ix) name) (sch_indexes s) of
        None \<Rightarrow> (if if_exists then Inr (IndexDropped name, cat)
                 else fail (''Index '' @ quoted name @ '' does not exist''))
      | Some pos \<Rightarrow>
          if ix_automatic (sch_indexes s ! pos)
          then fail (''Cannot drop index '' @ quoted name @ '': required by a constraint'')
          else Inr (IndexDropped name, put_table cat table_name
                 (rebuild_index ln (existing\<lparr>tb_schema := s\<lparr>sch_indexes := remove_at pos (sch_indexes s)\<rparr>\<rparr>)))))"

section \<open>ALTER TABLE\<close>

fun constraint_name :: "table_constraint \<Rightarrow> string option" where
  "constraint_name (PrimaryKey name _) = name"
| "constraint_name (Unique name _) = name"
| "constraint_name (Check name _) = name"
| "constraint_name (ForeignKey fk) = fk_name fk"

fun generated_constraint_name :: "string \<Rightarrow> table_constraint \<Rightarrow> string" where
  "generated_constraint_name table (PrimaryKey name _) =
     (case name of Some n \<Rightarrow> n | None \<Rightarrow> table @ ''_pk'')"
| "generated_constraint_name table (Unique name columns) =
     (case name of Some n \<Rightarrow> n | None \<Rightarrow> table @ ''_'' @ join_with ''_'' columns @ ''_uk'')"
| "generated_constraint_name table (ForeignKey fk) =
     (case fk_name fk of Some n \<Rightarrow> n | None \<Rightarrow> table @ ''_'' @ join_with ''_'' (fk_columns fk) @ ''_fk'')"
| "generated_constraint_name table (Check name _) =
     (case name of Some n \<Rightarrow> n | None \<Rightarrow> table @ ''_check'')"

definition refresh_column :: "column_def list \<Rightarrow> table_constraint \<Rightarrow> column_def list" where
  "refresh_column cols c = (case c of
     PrimaryKey _ columns \<Rightarrow> mark_key_columns columns cols
   | Unique _ [column] \<Rightarrow>
       update_first (\<lambda>x. eq_ignore_ascii_case (col_name x) column) (\<lambda>x. x\<lparr>col_unique := True\<rparr>) cols
   | _ \<Rightarrow> cols)"

definition refresh_schema :: "table_schema \<Rightarrow> table_schema" where
  "refresh_schema s =
     (let cols = foldl refresh_column
            (map (\<lambda>c. c\<lparr>col_primary_key := False, col_unique := False\<rparr>) (sch_columns s)) (sch_constraints s);
          s1 = s\<lparr>sch_columns := cols\<rparr>
      in s1\<lparr>sch_indexes := automatic_indexes s1 @ filter (\<lambda>ix. \<not> ix_automatic ix) (sch_indexes s)\<rparr>)"

definition refresh_constraint_metadata :: "(f64 \<Rightarrow> f64) \<Rightarrow> table \<Rightarrow> table" where
  "refresh_constraint_metadata ln t = rebuild_index ln (t\<lparr>tb_schema := refresh_schema (tb_schema t)\<rparr>)"

definition rename_names :: "string \<Rightarrow> string \<Rightarrow> string list \<Rightarrow> string list" where
  "rename_names old new names = map (\<lambda>n. if eq_ignore_ascii_case n old then new else n) names"

fun rename_expr :: "string \<Rightarrow> string \<Rightarrow> expr \<Rightarrow> expr" where
  "rename_expr old new (Column q name) = Column q (if eq_ignore_ascii_case name old then new else name)"
| "rename_expr old new (Binary left op right) = Binary (rename_expr old new left) op (rename_expr old new right)"
| "rename_expr old new (Unary op e) = Unary op (rename_expr old new e)"
| "rename_expr old new (IsNull e negated) = IsNull (rename_expr old new e) negated"
| "rename_expr old new (Like e p negated) = Like (rename_expr old new e) (rename_expr old new p) negated"
| "rename_expr old new (InList e items negated) =
     InList (rename_expr old new e) (map (rename_expr old new) items) negated"
| "rename_expr old new other = other"

definition rename_constraint :: "string \<Rightarrow> string \<Rightarrow> string \<Rightarrow> table_constraint \<Rightarrow> table_constraint" where
  "rename_constraint schema_name old new c = (case c of
     PrimaryKey n cols \<Rightarrow> PrimaryKey n (rename_names old new cols)
   | Unique n cols \<Rightarrow> Unique n (rename_names old new cols)
   | ForeignKey fk \<Rightarrow>
       ForeignKey (fk\<lparr>fk_columns := rename_names old new (fk_columns fk),
         fk_referred_columns := (if eq_ignore_ascii_case (fk_foreign_table fk) schema_name
            then rename_names old new (fk_referred_columns fk) else fk_referred_columns fk)\<rparr>)
   | Check n e \<Rightarrow> Check n (rename_expr old new e))"

definition rename_schema_references :: "string \<Rightarrow> string \<Rightarrow> table_schema \<Rightarrow> table_schema" where
  "rename_schema_references old new s =
     s\<lparr>sch_constraints := map (rename_constraint (sch_name s) old new) (sch_constraints s),
       sch_indexes := map (\<lambda>ix. ix\<lparr>ix_columns := rename_names old new (ix_columns ix)\<rparr>) (sch_indexes s)\<rparr>"

text \<open>Foreign keys of other tables follow a rename of the column they refer to.\<close>

definition rename_inbound :: "string \<Rightarrow> string \<Rightarrow> string \<Rightarrow> table_constraint \<Rightarrow> table_constraint" where
  "rename_inbound table_name old new c = (case c of
     ForeignKey fk \<Rightarrow> (if eq_ignore_ascii_case (fk_foreign_table fk) table_name
       then ForeignKey (fk\<lparr>fk_referred_columns := rename_names old new (fk_referred_columns fk)\<rparr>) else c)
   | _ \<Rightarrow> c)"

definition inbound_changed :: "string \<Rightarrow> string \<Rightarrow> table_constraint \<Rightarrow> bool" where
  "inbound_changed table_name old c = (case c of
     ForeignKey fk \<Rightarrow> eq_ignore_ascii_case (fk_foreign_table fk) table_name \<and>
       list_ex (\<lambda>col. eq_ignore_ascii_case col old) (fk_referred_columns fk)
   | _ \<Rightarrow> False)"

definition rename_other_tables :: "(f64 \<Rightarrow> f64) \<Rightarrow> string \<Rightarrow> string \<Rightarrow> string \<Rightarrow> catalog \<Rightarrow> catalog" where
  "rename_other_tables ln table_name old new cat =
     cat\<lparr>cat_tables := map (\<lambda>(other, t).
        if other \<noteq> table_name \<and> list_ex (inbound_changed table_name old) (sch_constraints (tb_schema t))
        then (other, refresh_constraint_metadata ln (t\<lparr>tb_schema := (tb_schema t)\<lparr>sch_constraints :=
               map (rename_inbound table_name old new) (sch_constraints (tb_schema t))\<rparr>\<rparr>))
        else (other, t)) (cat_tables cat)\<rparr>"

definition vec_set :: "'a list \<Rightarrow> nat \<Rightarrow> 'a \<Rightarrow> 'a list res" where
  "vec_set xs i x = (if i < length xs then Inr (xs[i := x]) else Inl (Panic ''index out of bounds''))"

definition vec_remove :: "nat \<Rightarrow> 'a list \<Rightarrow> 'a list res" where
  "vec_remove i xs = (if i < length xs then Inr (remove_at i xs) else Inl (Panic ''removal index out of bounds''))"

definition coerce_column :: "nat \<Rightarrow> data_type \<Rightarrow> string \<Rightarrow> row \<Rightarrow> row res" where
  "coerce_column i dt column row =
     rbind (idx row i) (\<lambda>v.
     rbind (ok_or (coerce_to v dt) (''Value in column '' @ quoted column @ '' cannot be converted to '' @
              data_type_name dt)) (\<lambda>w. Inr (row[i := w])))"

fun same_kind :: "table_constraint \<Rightarrow> table_constraint \<Rightarrow> bool" where
  "same_kind (PrimaryKey _ _) (PrimaryKey _ _) = True"
| "same_kind (Unique _ _) (Unique _ _) = True"
| "same_kind (Check _ _) (Check _ _) = True"
| "same_kind (ForeignKey _) (ForeignKey _) = True"
| "same_kind _ _ = False"

definition push_constraint :: "table_constraint list \<Rightarrow> table_constraint \<Rightarrow> table_constraint list" where
  "push_constraint cs c =
     (if list_ex (\<lambda>x. same_kind x c \<and> constraint_columns x = constraint_columns c) cs then cs else cs @ [c])"

fun validate_expr_columns :: "table_schema \<Rightarrow> expr \<Rightarrow> unit res" where
  "validate_expr_columns s (Column q name) =
     (if column_index s name = None then fail (''Unknown column '' @ quoted name) else Inr ())"
| "validate_expr_columns s (Binary left op right) =
     rbind (validate_expr_columns s left) (\<lambda>_. validate_expr_columns s right)"
| "validate_expr_columns s (Unary op e) = validate_expr_columns s e"
| "validate_expr_columns s (IsNull e negated) = validate_expr_columns s e"
| "validate_expr_columns s (Like e p negated) =
     rbind (validate_expr_columns s e) (\<lambda>_. validate_expr_columns s p)"
| "validate_expr_columns s (InList e items negated) =
     rbind (validate_expr_columns s e) (\<lambda>_. res_all (validate_expr_columns s) items)"
| "validate_expr_columns s other = Inr ()"

type_synonym alter_state = "catalog \<times> table"

definition set_schema :: "table \<Rightarrow> table_schema \<Rightarrow> table" where
  "set_schema t s = t\<lparr>tb_schema := s\<rparr>"

definition need_column :: "table_schema \<Rightarrow> string \<Rightarrow> nat res" where
  "need_column s name = ok_or (column_index s name) (''Column '' @ quoted name @ '' does not exist'')"

definition set_column :: "table_schema \<Rightarrow> nat \<Rightarrow> column_def \<Rightarrow> table_schema" where
  "set_column s i c = s\<lparr>sch_columns := (sch_columns s)[i := c]\<rparr>"

text \<open>
  The operations below return \<open>None\<close> for an early \<open>return Ok(())\<close> and the changed catalog
  and table otherwise, after which the metadata is refreshed.
\<close>

definition alter_add_column ::
  "table \<Rightarrow> column_def \<Rightarrow> table_constraint list \<Rightarrow> bool \<Rightarrow> table option res" where
  "alter_add_column t column constraints if_not_exists =
     (let s = tb_schema t in
      if column_index s (col_name column) \<noteq> None then
        (if if_not_exists then Inr None else fail (''Column '' @ quoted (col_name column) @ '' already exists''))
      else
        rbind (ok_or (coerce_to (case col_default column of Some v \<Rightarrow> v | None \<Rightarrow> VNull) (col_data_type column))
                 (''Default for column '' @ quoted (col_name column) @ '' cannot be converted to '' @
                  data_type_name (col_data_type column))) (\<lambda>v.
        if is_null v \<and> \<not> col_nullable column \<and> tb_rows t \<noteq> []
        then fail (''Column '' @ quoted (col_name column) @ '' cannot be NULL'')
        else Inr (Some (t\<lparr>tb_rows := map (\<lambda>row. row @ [v]) (tb_rows t),
               tb_schema := s\<lparr>sch_columns := sch_columns s @ [column],
                              sch_constraints := sch_constraints s @ constraints\<rparr>\<rparr>))))"

definition inbound_reference :: "catalog \<Rightarrow> string \<Rightarrow> string \<Rightarrow> bool" where
  "inbound_reference cat table_name column \<longleftrightarrow>
     list_ex (\<lambda>(other, t). other \<noteq> table_name \<and>
        list_ex (inbound_changed table_name column) (sch_constraints (tb_schema t))) (cat_tables cat)"

definition alter_drop_column :: "catalog \<Rightarrow> string \<Rightarrow> table \<Rightarrow> string \<Rightarrow> bool \<Rightarrow> table option res" where
  "alter_drop_column cat table_name t name if_exists =
     (let s = tb_schema t in
      case column_index s name of
        None \<Rightarrow> (if if_exists then Inr None else fail (''Column '' @ quoted name @ '' does not exist''))
      | Some i \<Rightarrow>
          if length (sch_columns s) = 1 then fail ''Cannot drop the final column of a table''
          else if list_ex (\<lambda>c. list_ex (\<lambda>col. eq_ignore_ascii_case col name) (constraint_columns c)) (sch_constraints s)
            \<or> list_ex (\<lambda>ix. list_ex (\<lambda>col. eq_ignore_ascii_case col name) (ix_columns ix)) (sch_indexes s)
            \<or> inbound_reference cat table_name name
          then fail (''Cannot drop column '' @ quoted name @ '': referenced by an index or constraint'')
          else rbind (res_map (vec_remove i) (tb_rows t)) (\<lambda>rows.
            Inr (Some (t\<lparr>tb_rows := rows, tb_schema := s\<lparr>sch_columns := remove_at i (sch_columns s)\<rparr>\<rparr>))))"

definition alter_rename_column ::
  "(f64 \<Rightarrow> f64) \<Rightarrow> catalog \<Rightarrow> string \<Rightarrow> table \<Rightarrow> string \<Rightarrow> string \<Rightarrow> alter_state res" where
  "alter_rename_column ln cat table_name t old new =
     (let s = tb_schema t in
      if column_index s new \<noteq> None then fail (''Column '' @ quoted new @ '' already exists'')
      else rbind (need_column s old) (\<lambda>i.
        let s1 = set_column s i ((sch_columns s ! i)\<lparr>col_name := new\<rparr>)
        in Inr (rename_other_tables ln table_name old new cat,
                set_schema t (rename_schema_references old new s1))))"

definition alter_modify_column ::
  "table \<Rightarrow> string \<Rightarrow> column_def \<Rightarrow> table_constraint list \<Rightarrow> table res" where
  "alter_modify_column t old column constraints =
     (let s = tb_schema t in
      rbind (need_column s old) (\<lambda>i.
      rbind (if eq_ignore_ascii_case old (col_name column) then Inr s
             else if column_index s (col_name column) \<noteq> None
             then fail (''Column '' @ quoted (col_name column) @ '' already exists'')
             else Inr (rename_schema_references old (col_name column) s)) (\<lambda>s1.
      rbind (res_map (coerce_column i (col_data_type column) old) (tb_rows t)) (\<lambda>rows.
        let s2 = set_column s1 i column
        in Inr (t\<lparr>tb_rows := rows,
                  tb_schema := s2\<lparr>sch_constraints := foldl push_constraint (sch_constraints s2) constraints\<rparr>\<rparr>)))))"

definition alter_set_default :: "table \<Rightarrow> string \<Rightarrow> val option \<Rightarrow> table res" where
  "alter_set_default t column v =
     (let s = tb_schema t in
      rbind (need_column s column) (\<lambda>i.
      rbind (res_option (\<lambda>x. ok_or (coerce_to x (col_data_type (sch_columns s ! i)))
               (''Default for column '' @ quoted column @ '' has an incompatible type'')) v) (\<lambda>d.
        Inr (set_schema t (set_column s i ((sch_columns s ! i)\<lparr>col_default := d\<rparr>))))))"

definition alter_set_nullable :: "table \<Rightarrow> string \<Rightarrow> bool \<Rightarrow> table res" where
  "alter_set_nullable t column nullable =
     (let s = tb_schema t in
      rbind (need_column s column) (\<lambda>i.
      if nullable \<and> col_primary_key (sch_columns s ! i) then fail ''PRIMARY KEY columns cannot be nullable''
      else rbind (if nullable then Inr False
                  else res_any (\<lambda>row. rbind (idx row i) (\<lambda>v. Inr (is_null v))) (tb_rows t)) (\<lambda>has_null.
        if has_null then fail (''Column '' @ quoted column @ '' contains NULL values'')
        else Inr (set_schema t (set_column s i ((sch_columns s ! i)\<lparr>col_nullable := nullable\<rparr>))))))"

definition alter_set_data_type :: "table \<Rightarrow> string \<Rightarrow> data_type \<Rightarrow> table res" where
  "alter_set_data_type t column dt =
     (let s = tb_schema t in
      rbind (need_column s column) (\<lambda>i.
      rbind (res_map (coerce_column i dt column) (tb_rows t)) (\<lambda>rows.
      rbind (res_option (\<lambda>d. ok_or (coerce_to d dt) (''Default in column '' @ quoted column @
               '' cannot be converted to '' @ data_type_name dt)) (col_default (sch_columns s ! i))) (\<lambda>d.
        Inr (t\<lparr>tb_rows := rows,
               tb_schema := set_column s i ((sch_columns s ! i)\<lparr>col_default := d, col_data_type := dt\<rparr>)\<rparr>)))))"

definition alter_add_constraint :: "table \<Rightarrow> table_constraint \<Rightarrow> table res" where
  "alter_add_constraint t c =
     (let s = tb_schema t in
      rbind (case constraint_name c of
               Some name \<Rightarrow>
                 (if list_ex (\<lambda>x. case constraint_name x of Some n \<Rightarrow> eq_ignore_ascii_case n name | None \<Rightarrow> False)
                       (sch_constraints s)
                  then fail (''Constraint '' @ quoted name @ '' already exists'') else Inr ())
             | None \<Rightarrow> Inr ()) (\<lambda>_.
      if is_primary_key c \<and> list_ex is_primary_key (sch_constraints s)
      then fail ''A table may have only one PRIMARY KEY''
      else
        rbind (res_all (\<lambda>column. if column_index s column = None
                 then fail (''Unknown constrained column '' @ quoted column) else Inr ()) (constraint_columns c)) (\<lambda>_.
        rbind (case c of Check _ e \<Rightarrow> validate_expr_columns s e | _ \<Rightarrow> Inr ()) (\<lambda>_.
          Inr (set_schema t (s\<lparr>sch_constraints := sch_constraints s @ [c]\<rparr>))))))"

definition alter_drop_constraint :: "table \<Rightarrow> string \<Rightarrow> bool \<Rightarrow> table res" where
  "alter_drop_constraint t name if_exists =
     (let s = tb_schema t in
      case position (\<lambda>c. (case constraint_name c of Some n \<Rightarrow> eq_ignore_ascii_case n name | None \<Rightarrow> False)
               \<or> eq_ignore_ascii_case (generated_constraint_name (sch_name s) c) name) (sch_constraints s) of
        Some pos \<Rightarrow> Inr (set_schema t (s\<lparr>sch_constraints := remove_at pos (sch_constraints s)\<rparr>))
      | None \<Rightarrow> (if if_exists then Inr t else fail (''Constraint '' @ quoted name @ '' does not exist'')))"

definition alter_drop_primary_key :: "table \<Rightarrow> table res" where
  "alter_drop_primary_key t =
     (let s = tb_schema t in
      rbind (ok_or (position is_primary_key (sch_constraints s)) ''PRIMARY KEY does not exist'') (\<lambda>pos.
        Inr (set_schema t (s\<lparr>sch_constraints := remove_at pos (sch_constraints s)\<rparr>))))"

definition refreshed :: "(f64 \<Rightarrow> f64) \<Rightarrow> catalog \<Rightarrow> table res \<Rightarrow> alter_state res" where
  "refreshed ln cat r = rbind r (\<lambda>t. Inr (cat, refresh_constraint_metadata ln t))"

definition refreshed_unless_early :: "(f64 \<Rightarrow> f64) \<Rightarrow> catalog \<Rightarrow> table \<Rightarrow> table option res \<Rightarrow> alter_state res" where
  "refreshed_unless_early ln cat t r =
     rbind r (\<lambda>x. case x of None \<Rightarrow> Inr (cat, t) | Some t' \<Rightarrow> Inr (cat, refresh_constraint_metadata ln t'))"

definition apply_alter_operation ::
  "(f64 \<Rightarrow> f64) \<Rightarrow> string \<Rightarrow> alter_state \<Rightarrow> alter_operation \<Rightarrow> alter_state res" where
  "apply_alter_operation ln table_name st op = (case st of (cat, t) \<Rightarrow> case op of
     AddColumn column constraints if_not_exists \<Rightarrow>
       refreshed_unless_early ln cat t (alter_add_column t column constraints if_not_exists)
   | DropColumn name if_exists \<Rightarrow>
       refreshed_unless_early ln cat t (alter_drop_column cat table_name t name if_exists)
   | RenameColumn old new \<Rightarrow>
       rbind (alter_rename_column ln cat table_name t old new) (\<lambda>(cat', t').
         Inr (cat', refresh_constraint_metadata ln t'))
   | ModifyColumn old column constraints \<Rightarrow> refreshed ln cat (alter_modify_column t old column constraints)
   | SetDefault column v \<Rightarrow> refreshed ln cat (alter_set_default t column v)
   | SetNullable column nullable \<Rightarrow> refreshed ln cat (alter_set_nullable t column nullable)
   | SetDataType column dt \<Rightarrow> refreshed ln cat (alter_set_data_type t column dt)
   | AddConstraint c \<Rightarrow> refreshed ln cat (alter_add_constraint t c)
   | DropConstraint name if_exists \<Rightarrow> refreshed ln cat (alter_drop_constraint t name if_exists)
   | DropPrimaryKey \<Rightarrow> refreshed ln cat (alter_drop_primary_key t))"

definition execute_alter_table ::
  "(f64 \<Rightarrow> f64) \<Rightarrow> catalog \<Rightarrow> string \<Rightarrow> alter_operation list \<Rightarrow> outcome" where
  "execute_alter_table ln cat table_name operations =
     (let name = to_ascii_lowercase table_name in
      rbind (ok_or (map_of (cat_tables cat) name) (missing_table name)) (\<lambda>existing.
      rbind (res_fold (apply_alter_operation ln name) (cat, existing) operations) (\<lambda>(cat', t).
        Inr (RowsAffected 0, put_table cat' name (refresh_constraint_metadata ln t)))))"

section \<open>INSERT\<close>

definition eval_constant :: "expr \<Rightarrow> val res" where
  "eval_constant e = eval_expr (run_query catalog_default) e [] [] None"

definition place_value ::
  "table_schema \<Rightarrow> row \<times> nat set \<Rightarrow> string \<times> val \<Rightarrow> (row \<times> nat set) res" where
  "place_value s st cv = (case st of (ordered, used) \<Rightarrow> case cv of (column, v) \<Rightarrow>
     rbind (ok_or (column_index s column) (''Unknown column '' @ quoted column)) (\<lambda>i.
       if i \<in> used then fail (''Duplicate column '' @ quoted column)
       else Inr (ordered[i := v], insert i used)))"

definition order_values :: "table_schema \<Rightarrow> string list option \<Rightarrow> row \<Rightarrow> row res" where
  "order_values s columns raw = (case columns of
     Some cols \<Rightarrow>
       if length cols \<noteq> length raw
       then fail (''Column count ('' @ show_nat (length cols) @ '') doesn'' @ [CHR 0x27] @
              ''t match value count ('' @ show_nat (length raw) @ '')'')
       else rbind (res_fold (place_value s) (nulls (length (sch_columns s)), {}) (zip cols raw))
              (\<lambda>(ordered, used). Inr ordered)
   | None \<Rightarrow>
       if length raw \<noteq> length (sch_columns s)
       then fail (''Expected '' @ show_nat (length (sch_columns s)) @ '' values, got '' @ show_nat (length raw))
       else Inr raw)"

definition default_and_coerce :: "val \<Rightarrow> column_def \<Rightarrow> val" where
  "default_and_coerce v c =
     (let v1 = (if is_null v then (case col_default c of Some d \<Rightarrow> d | None \<Rightarrow> v) else v) in
      case coerce_to v1 (col_data_type c) of Some w \<Rightarrow> w | None \<Rightarrow> v1)"

definition build_row :: "table_schema \<Rightarrow> string list option \<Rightarrow> expr list \<Rightarrow> row res" where
  "build_row s columns expressions =
     rbind (res_map eval_constant expressions) (\<lambda>raw.
     rbind (order_values s columns raw) (\<lambda>ordered.
       Inr (map2 default_and_coerce ordered (sch_columns s))))"

fun bind_incoming :: "table_schema \<Rightarrow> row \<Rightarrow> expr \<Rightarrow> expr" where
  "bind_incoming s incoming (Incoming column) =
     Literal (case Option.bind (column_index s column) (get incoming) of Some v \<Rightarrow> v | None \<Rightarrow> VNull)"
| "bind_incoming s incoming (Binary left op right) =
     Binary (bind_incoming s incoming left) op (bind_incoming s incoming right)"
| "bind_incoming s incoming (Unary op e) = Unary op (bind_incoming s incoming e)"
| "bind_incoming s incoming (IsNull e negated) = IsNull (bind_incoming s incoming e) negated"
| "bind_incoming s incoming (Like e p negated) =
     Like (bind_incoming s incoming e) (bind_incoming s incoming p) negated"
| "bind_incoming s incoming (InList e items negated) =
     InList (bind_incoming s incoming e) (map (bind_incoming s incoming) items) negated"
| "bind_incoming s incoming other = other"

definition upsert_step ::
  "catalog \<Rightarrow> string \<Rightarrow> table_schema \<Rightarrow> row \<Rightarrow> row \<Rightarrow> string \<times> expr \<Rightarrow> row res" where
  "upsert_step cat name s incoming updated ce = (case ce of (column, e) \<Rightarrow>
     rbind (ok_or (column_index s column) (''Unknown column '' @ quoted column)) (\<lambda>i.
     rbind (eval_expr (run_query cat) (bind_incoming s incoming e) (table_columns name s) updated None) (\<lambda>v.
       vec_set updated i (case coerce_to v (col_data_type (sch_columns s ! i)) of Some w \<Rightarrow> w | None \<Rightarrow> v))))"

definition insert_one ::
  "catalog \<Rightarrow> string \<Rightarrow> (string \<times> expr) list \<Rightarrow> table \<times> nat \<Rightarrow> row \<Rightarrow> (table \<times> nat) res" where
  "insert_one cat name on_duplicate st row = (case st of (t, count) \<Rightarrow>
     case sorted_list_of_set (unique_conflict_positions t row) of
       [] \<Rightarrow> rbind (insert_row_indexed t row) (\<lambda>t'. Inr (t', count + 1))
     | positions \<Rightarrow>
         if on_duplicate = [] then fail ''Duplicate entry for PRIMARY or UNIQUE key''
         else if length positions \<noteq> 1 then fail ''ON DUPLICATE KEY matched multiple destination rows''
         else rbind (idx (tb_rows t) (hd positions)) (\<lambda>current.
              rbind (res_fold (upsert_step cat name (tb_schema t) row) current on_duplicate) (\<lambda>updated.
                if list_all2 value_eq updated current then Inr (t, count)
                else rbind (replace_row_indexed t (hd positions) updated) (\<lambda>t'. Inr (t', count + 2)))))"

definition insert_rows ::
  "catalog \<Rightarrow> insert_source \<Rightarrow> expr list list res" where
  "insert_rows cat source = (case source of
     InsertValues rows \<Rightarrow> Inr rows
   | InsertQuery q \<Rightarrow> rbind (run_query cat q) (\<lambda>r. Inr (map (map Literal) (rel_rows r))))"

definition validated :: "execution_result \<Rightarrow> catalog \<Rightarrow> outcome" where
  "validated r cat = rbind (validate_catalog cat) (\<lambda>_. Inr (r, cat))"

definition execute_insert ::
  "catalog \<Rightarrow> string \<Rightarrow> string list option \<Rightarrow> insert_source \<Rightarrow> (string \<times> expr) list \<Rightarrow> outcome" where
  "execute_insert cat table_name columns source on_duplicate =
     (let name = to_ascii_lowercase table_name in
      rbind (insert_rows cat source) (\<lambda>exprs.
      rbind (ok_or (map_of (cat_tables cat) name) (missing_table name)) (\<lambda>existing.
      rbind (res_map (build_row (tb_schema existing) columns) exprs) (\<lambda>rows.
      rbind (res_fold (insert_one cat name on_duplicate) (existing, 0) rows) (\<lambda>(t, count).
        validated (RowsAffected count) (put_table cat name t))))))"

section \<open>UPDATE and DELETE\<close>

definition not_candidate :: "table \<Rightarrow> expr option \<Rightarrow> nat \<Rightarrow> bool" where
  "not_candidate t selection pos = (case candidate_row_ids t selection of
     None \<Rightarrow> False
   | Some (ids, name) \<Rightarrow> (case get (tb_row_ids t) pos of Some i \<Rightarrow> i \<notin> ids | None \<Rightarrow> True))"

definition selected :: "catalog \<Rightarrow> bound_column list \<Rightarrow> expr option \<Rightarrow> row \<Rightarrow> bool res" where
  "selected cat columns selection row = (case selection of
     None \<Rightarrow> Inr True
   | Some e \<Rightarrow> rbind (eval_expr (run_query cat) e columns row None) (\<lambda>v. Inr (truth v = STrue)))"

definition assign_step ::
  "catalog \<Rightarrow> table_schema \<Rightarrow> bound_column list \<Rightarrow> row \<Rightarrow> row \<Rightarrow> string \<times> expr \<Rightarrow> row res" where
  "assign_step cat s columns original row ce = (case ce of (column, e) \<Rightarrow>
     rbind (ok_or (column_index s column) (''Unknown column '' @ quoted column)) (\<lambda>i.
     rbind (eval_expr (run_query cat) e columns original None) (\<lambda>v.
     rbind (ok_or (coerce_to v (col_data_type (sch_columns s ! i)))
              (''Type mismatch for column '' @ quoted column)) (\<lambda>w. vec_set row i w))))"

definition update_row ::
  "catalog \<Rightarrow> table \<Rightarrow> bound_column list \<Rightarrow> (string \<times> expr) list \<Rightarrow> expr option \<Rightarrow> nat \<times> row \<Rightarrow> (row \<times> nat) res" where
  "update_row cat t columns assignments selection pr = (case pr of (pos, row) \<Rightarrow>
     if not_candidate t selection pos then Inr (row, 0)
     else rbind (selected cat columns selection row) (\<lambda>m.
       if \<not> m then Inr (row, 0)
       else rbind (res_fold (assign_step cat (tb_schema t) columns row) row assignments)
              (\<lambda>row'. Inr (row', 1))))"

definition execute_update ::
  "(f64 \<Rightarrow> f64) \<Rightarrow> catalog \<Rightarrow> string \<Rightarrow> (string \<times> expr) list \<Rightarrow> expr option \<Rightarrow> outcome" where
  "execute_update ln cat table_name assignments selection =
     (let name = to_ascii_lowercase table_name in
      rbind (ok_or (map_of (cat_tables cat) name) (missing_table name)) (\<lambda>t.
      rbind (res_map (update_row cat t (table_columns name (tb_schema t)) assignments selection)
               (enumerate 0 (tb_rows t))) (\<lambda>rs.
        validated (RowsAffected (sum_list (map snd rs)))
          (put_table cat name (rebuild_index ln (t\<lparr>tb_rows := map fst rs\<rparr>))))))"

definition delete_step ::
  "catalog \<Rightarrow> table \<Rightarrow> bound_column list \<Rightarrow> expr option \<Rightarrow> row list \<times> nat list \<times> nat \<Rightarrow> nat \<times> row
     \<Rightarrow> (row list \<times> nat list \<times> nat) res" where
  "delete_step cat t columns selection st pr =
     (case st of (rows, ids, deleted) \<Rightarrow> case pr of (pos, row) \<Rightarrow>
        rbind (if not_candidate t selection pos then Inr False else selected cat columns selection row) (\<lambda>m.
          if m then Inr (rows, ids, deleted + 1)
          else rbind (idx (tb_row_ids t) pos) (\<lambda>i. Inr (rows @ [row], ids @ [i], deleted))))"

definition execute_delete ::
  "(f64 \<Rightarrow> f64) \<Rightarrow> catalog \<Rightarrow> string \<Rightarrow> expr option \<Rightarrow> outcome" where
  "execute_delete ln cat table_name selection =
     (let name = to_ascii_lowercase table_name in
      rbind (ok_or (map_of (cat_tables cat) name) (missing_table name)) (\<lambda>t.
      rbind (res_fold (delete_step cat t (table_columns name (tb_schema t)) selection) ([], [], 0)
               (enumerate 0 (tb_rows t))) (\<lambda>(rows, ids, deleted).
        validated (RowsAffected deleted)
          (put_table cat name (rebuild_index ln (t\<lparr>tb_rows := rows, tb_row_ids := ids\<rparr>))))))"

section \<open>EXPLAIN and the statement driver\<close>

definition explain_scan :: "catalog \<Rightarrow> string \<Rightarrow> expr option \<Rightarrow> string list" where
  "explain_scan cat table_name selection =
     (case map_of (cat_tables cat) (to_ascii_lowercase table_name) of
        Some t \<Rightarrow> (case candidate_row_ids t selection of
            Some (ids, index) \<Rightarrow> [''IndexScan(table='' @ table_name @ '', index='' @ index @ '', bloom=true)'']
          | None \<Rightarrow> [''SeqScan(table='' @ table_name @ '')''])
      | None \<Rightarrow> [''MissingTable('' @ table_name @ '')''])"

text \<open>\<open>debug\<close> is the derived \<open>Debug\<close> text of a statement.\<close>

definition explain_statement :: "(statement \<Rightarrow> string) \<Rightarrow> catalog \<Rightarrow> statement \<Rightarrow> string list" where
  "explain_statement debug cat st = (case st of
     QueryStatement q \<Rightarrow> explain_lines (plan cat q)
   | Update name _ selection \<Rightarrow> explain_scan cat name selection
   | Delete name selection \<Rightarrow> explain_scan cat name selection
   | Insert name _ _ _ \<Rightarrow> [''Insert(table='' @ name @ '')'']
   | CreateIndex name table_name columns _ _ \<Rightarrow>
       [''CreateBTreeIndex(name='' @ name @ '', table='' @ table_name @ '', columns='' @ join_with '','' columns @ '')'']
   | other \<Rightarrow> [''Utility('' @ debug other @ '')''])"

definition lookup_table :: "catalog \<Rightarrow> string \<Rightarrow> table res" where
  "lookup_table cat table_name =
     ok_or (map_of (cat_tables cat) (to_ascii_lowercase table_name)) (missing_table table_name)"

definition execute_statement ::
  "(f64 \<Rightarrow> f64) \<Rightarrow> (statement \<Rightarrow> string) \<Rightarrow> catalog \<Rightarrow> statement \<Rightarrow> outcome" where
  "execute_statement ln debug cat st = (case st of
     CreateTable name columns constraints if_not_exists \<Rightarrow>
       execute_create_table ln cat name columns constraints if_not_exists
   | DropTable name if_exists \<Rightarrow> execute_drop_table cat name if_exists
   | CreateIndex name table_name columns uniq if_not_exists \<Rightarrow>
       execute_create_index ln cat name table_name columns uniq if_not_exists
   | DropIndex name table_name if_exists \<Rightarrow> execute_drop_index ln cat name table_name if_exists
   | AlterTable name operations \<Rightarrow> execute_alter_table ln cat name operations
   | Insert name columns source on_duplicate \<Rightarrow> execute_insert cat name columns source on_duplicate
   | QueryStatement q \<Rightarrow> rbind (run_query cat q) (\<lambda>r. Inr (RSelect (relation_to_result r), cat))
   | Update name assignments selection \<Rightarrow> execute_update ln cat name assignments selection
   | Delete name selection \<Rightarrow> execute_delete ln cat name selection
   | ShowTables \<Rightarrow> Inr (RTables (sort (map fst (cat_tables cat))), cat)
   | ShowIndexes name \<Rightarrow>
       rbind (lookup_table cat name) (\<lambda>t. Inr (RIndexes (sch_indexes (tb_schema t)), cat))
   | DescribeTable name \<Rightarrow>
       rbind (lookup_table cat name) (\<lambda>t.
         Inr (TableDescription (sch_name (tb_schema t)) (sch_columns (tb_schema t)), cat))
   | Explain s \<Rightarrow> Inr (RExplain (explain_statement debug cat s), cat)
   | Begin \<Rightarrow> fail ''Transaction control requires a session''
   | Commit \<Rightarrow> fail ''Transaction control requires a session''
   | Rollback \<Rightarrow> fail ''Transaction control requires a session''
   | _ \<Rightarrow> fail ''Prepared statements and user variables require a session'')"

text \<open>\<open>execute_catalog\<close> works on a copy, which replaces the catalog only on success.\<close>

definition execute_catalog ::
  "(f64 \<Rightarrow> f64) \<Rightarrow> (statement \<Rightarrow> string) \<Rightarrow> catalog \<Rightarrow> statement \<Rightarrow> outcome" where
  "execute_catalog ln debug cat st =
     (if is_write_statement st
      then rbind (execute_statement ln debug cat st) (\<lambda>(r, working).
             rbind (validate_catalog working) (\<lambda>_. Inr (r, working)))
      else execute_statement ln debug cat st)"

text \<open>\<open>Executor::execute\<close>: the result and the catalog behind the lock afterwards.\<close>

definition executor_execute ::
  "(f64 \<Rightarrow> f64) \<Rightarrow> (statement \<Rightarrow> string) \<Rightarrow> catalog \<Rightarrow> statement \<Rightarrow> (execution_result \<times> catalog) res" where
  "executor_execute ln debug cat st =
     (if is_transaction_control st
      then Inr (RError ''Transaction control requires SQLDatabase::session()'', cat)
      else case execute_catalog ln debug cat st of
         Inr (r, working) \<Rightarrow>
           Inr (r, if is_write_statement st
                   then working\<lparr>cat_version := sat_add (cat_version cat) 1\<rparr> else cat)
       | Inl (Fail msg) \<Rightarrow> Inr (RError msg, cat)
       | Inl (Panic why) \<Rightarrow> Inl (Panic why))"

section \<open>The table invariant is kept by every statement\<close>

definition catalog_ok :: "catalog \<Rightarrow> bool" where
  "catalog_ok cat \<longleftrightarrow> wf_map (cat_tables cat) \<and> (\<forall>(name, t) \<in> set (cat_tables cat). table_ok t)"

text \<open>The row-id counter of every table is below its saturation point.\<close>

definition ids_left :: "catalog \<Rightarrow> bool" where
  "ids_left cat \<longleftrightarrow> (\<forall>(name, t) \<in> set (cat_tables cat). tb_next_row_id t < u64_max)"

lemma put_table_ok: "catalog_ok cat \<Longrightarrow> table_ok t \<Longrightarrow> catalog_ok (put_table cat name t)"
  by (auto simp: catalog_ok_def put_table_def set_update_iff split: if_splits)

lemma ids_left_put: "wf_map (cat_tables cat) \<Longrightarrow> ids_left (put_table cat name t) \<Longrightarrow> tb_next_row_id t < u64_max"
  using set_update_iff [of "cat_tables cat" name t name t] by (fastforce simp: ids_left_def put_table_def)

lemma catalog_ok_lookup: "catalog_ok cat \<Longrightarrow> map_of (cat_tables cat) name = Some t \<Longrightarrow> table_ok t"
  by (auto simp: catalog_ok_def dest: map_of_SomeD)

lemma ids_ok_cong:
  "ids_ok t \<Longrightarrow> length (tb_rows t') = length (tb_rows t) \<Longrightarrow> tb_row_ids t' = tb_row_ids t \<Longrightarrow>
   tb_next_row_id t' = tb_next_row_id t \<Longrightarrow> ids_ok t'"
  by (simp add: ids_ok_def)

lemma rebuild_keeps_ok:
  "table_ok t \<Longrightarrow> length (tb_rows t') = length (tb_rows t) \<Longrightarrow> tb_row_ids t' = tb_row_ids t \<Longrightarrow>
   tb_next_row_id t' = tb_next_row_id t \<Longrightarrow> table_ok (rebuild_index ln t')"
  using ids_ok_cong [of t t'] by (auto simp: table_ok_def [of t] intro: rebuild_index_ok)

lemma table_new_ok: "table_ok (table_new ln s)"
  by (simp add: table_new_def rebuild_index_ok ids_ok_def)

lemma execute_create_table_ok:
  "catalog_ok cat \<Longrightarrow> execute_create_table ln cat n cols cs b = Inr (r, cat') \<Longrightarrow> catalog_ok cat'"
  by (auto simp: execute_create_table_def Let_def fail_def rbind_Inr_iff intro: put_table_ok table_new_ok
      split: if_splits option.splits)

lemma execute_drop_table_ok:
  "catalog_ok cat \<Longrightarrow> execute_drop_table cat n b = Inr (r, cat') \<Longrightarrow> catalog_ok cat'"
  by (auto simp: execute_drop_table_def Let_def fail_def catalog_ok_def wf_map_in_iff
      split: if_splits option.splits)

lemma execute_create_index_ok:
  "catalog_ok cat \<Longrightarrow> execute_create_index ln cat n tn cols u b = Inr (r, cat') \<Longrightarrow> catalog_ok cat'"
  by (auto simp: execute_create_index_def Let_def fail_def rbind_Inr_iff ok_or_def
      intro!: put_table_ok rebuild_keeps_ok dest: catalog_ok_lookup split: if_splits option.splits)

lemma execute_drop_index_ok:
  "catalog_ok cat \<Longrightarrow> execute_drop_index ln cat n tn b = Inr (r, cat') \<Longrightarrow> catalog_ok cat'"
  by (auto simp: execute_drop_index_def Let_def fail_def rbind_Inr_iff ok_or_def
      intro!: put_table_ok rebuild_keeps_ok dest: catalog_ok_lookup split: if_splits option.splits)

text \<open>An alter operation keeps the number of rows and their ids.\<close>

definition same_ids :: "table \<Rightarrow> table \<Rightarrow> bool" where
  "same_ids t t' \<longleftrightarrow> length (tb_rows t') = length (tb_rows t) \<and> tb_row_ids t' = tb_row_ids t \<and>
     tb_next_row_id t' = tb_next_row_id t"

lemma refresh_ok: "table_ok t \<Longrightarrow> same_ids t t' \<Longrightarrow> table_ok (refresh_constraint_metadata ln t')"
  unfolding refresh_constraint_metadata_def by (rule rebuild_keeps_ok [of t]) (simp_all add: same_ids_def)

lemma alter_same_ids:
  "alter_add_column t c cs b = Inr (Some t') \<Longrightarrow> same_ids t t'"
  "alter_drop_column cat n t col b = Inr (Some t') \<Longrightarrow> same_ids t t'"
  "alter_rename_column ln cat n t old new = Inr (cat', t') \<Longrightarrow> same_ids t t'"
  "alter_modify_column t old c cs = Inr t' \<Longrightarrow> same_ids t t'"
  "alter_set_default t col v = Inr t' \<Longrightarrow> same_ids t t'"
  "alter_set_nullable t col b = Inr t' \<Longrightarrow> same_ids t t'"
  "alter_set_data_type t col dt = Inr t' \<Longrightarrow> same_ids t t'"
  "alter_add_constraint t k = Inr t' \<Longrightarrow> same_ids t t'"
  "alter_drop_constraint t col b = Inr t' \<Longrightarrow> same_ids t t'"
  "alter_drop_primary_key t = Inr t' \<Longrightarrow> same_ids t t'"
  by (auto simp: same_ids_def alter_add_column_def alter_drop_column_def alter_rename_column_def
      alter_modify_column_def alter_set_default_def alter_set_nullable_def alter_set_data_type_def
      alter_add_constraint_def alter_drop_constraint_def alter_drop_primary_key_def set_schema_def
      Let_def fail_def rbind_Inr_iff dest!: res_map_length split: if_splits option.splits)

lemma rename_other_tables_ok: "catalog_ok cat \<Longrightarrow> catalog_ok (rename_other_tables ln n old new cat)"
proof -
  assume ok: "catalog_ok cat"
  have "map fst (cat_tables (rename_other_tables ln n old new cat)) = map fst (cat_tables cat)"
    by (simp add: rename_other_tables_def case_prod_beta comp_def)
  moreover have "table_ok t" if "(name, t) \<in> set (cat_tables (rename_other_tables ln n old new cat))" for name t
  proof -
    from that obtain t0 where t0: "(name, t0) \<in> set (cat_tables cat)" and
      t: "t = t0 \<or> t = refresh_constraint_metadata ln (t0\<lparr>tb_schema := (tb_schema t0)\<lparr>sch_constraints :=
               map (rename_inbound n old new) (sch_constraints (tb_schema t0))\<rparr>\<rparr>)"
      by (auto simp: rename_other_tables_def split: if_splits)
    have "table_ok t0" using ok t0 by (auto simp: catalog_ok_def)
    with t show ?thesis by (auto simp: same_ids_def intro: refresh_ok)
  qed
  ultimately show ?thesis using ok by (auto simp: catalog_ok_def wf_map_def)
qed

lemma apply_alter_ok:
  assumes "catalog_ok cat" "table_ok t" "apply_alter_operation ln n (cat, t) op = Inr (cat', t')"
  shows "catalog_ok cat' \<and> table_ok t'"
proof (cases op)
  case (RenameColumn old new)
  with assms(3) obtain t1 where t1: "alter_rename_column ln cat n t old new = Inr (cat', t1)"
    "t' = refresh_constraint_metadata ln t1"
    by (auto simp: apply_alter_operation_def rbind_Inr_iff)
  then have "cat' = rename_other_tables ln n old new cat"
    by (auto simp: alter_rename_column_def Let_def fail_def rbind_Inr_iff split: if_splits)
  with t1 assms show ?thesis by (auto intro: refresh_ok alter_same_ids rename_other_tables_ok)
qed (use assms in \<open>auto simp: apply_alter_operation_def refreshed_def refreshed_unless_early_def
        rbind_Inr_iff intro: refresh_ok alter_same_ids split: option.splits\<close>)

lemma execute_alter_table_ok:
  assumes "catalog_ok cat" "execute_alter_table ln cat n ops = Inr (r, cat')"
  shows "catalog_ok cat'"
proof -
  let ?name = "to_ascii_lowercase n"
  from assms(2) obtain t0 cat1 t1 where ex: "map_of (cat_tables cat) ?name = Some t0"
    "res_fold (apply_alter_operation ln ?name) (cat, t0) ops = Inr (cat1, t1)"
    "cat' = put_table cat1 ?name (refresh_constraint_metadata ln t1)"
    by (auto simp: execute_alter_table_def Let_def rbind_Inr_iff ok_or_def split: option.splits)
  have "(\<lambda>(c, t). catalog_ok c \<and> table_ok t) (cat1, t1)"
    by (rule res_fold_invariant [OF ex(2)])
      (use assms(1) ex(1) in \<open>auto dest: catalog_ok_lookup apply_alter_ok\<close>)
  then show ?thesis by (auto simp: ex(3) same_ids_def intro!: put_table_ok refresh_ok [of t1])
qed

lemma insert_row_indexed_next:
  "insert_row_indexed t row = Inr t' \<Longrightarrow> tb_next_row_id t' < u64_max \<Longrightarrow> tb_next_row_id t < u64_max"
  by (auto simp: insert_row_indexed_def rbind_Inr_iff Let_def sat_add_def)

lemma replace_row_indexed_next: "replace_row_indexed t p row = Inr t' \<Longrightarrow> tb_next_row_id t' = tb_next_row_id t"
  by (auto simp: replace_row_indexed_def rbind_Inr_iff)

lemma insert_one_ok:
  assumes "insert_one cat n od (t, c) row = Inr (t', c')" "tb_next_row_id t' < u64_max"
  shows "tb_next_row_id t < u64_max" and "table_ok t \<Longrightarrow> table_ok t'"
  using assms
  by (auto simp: insert_one_def rbind_Inr_iff fail_def split: list.splits if_splits
      dest: insert_row_indexed_next replace_row_indexed_next insert_row_indexed_ok replace_row_indexed_ok)

lemma insert_fold_ok:
  assumes "res_fold (insert_one cat n od) (t, c) rows = Inr (t', c')" "tb_next_row_id t' < u64_max"
  shows "tb_next_row_id t < u64_max \<and> (table_ok t \<longrightarrow> table_ok t')"
  using assms
proof (induction rows arbitrary: t c)
  case (Cons row rows)
  from Cons.prems obtain t1 c1 where step: "insert_one cat n od (t, c) row = Inr (t1, c1)"
    and rest: "res_fold (insert_one cat n od) (t1, c1) rows = Inr (t', c')"
    by (auto simp: rbind_Inr_iff)
  from Cons.IH [OF rest assms(2)] insert_one_ok [OF step] show ?case by simp
qed auto

lemma validatedD: "validated r cat = Inr (r', cat') \<Longrightarrow> cat' = cat \<and> r' = r \<and> validate_catalog cat = Inr ()"
  by (auto simp: validated_def rbind_Inr_iff)

lemma execute_insert_ok:
  assumes "catalog_ok cat" "execute_insert cat n cols src od = Inr (r, cat')" "ids_left cat'"
  shows "catalog_ok cat'"
proof -
  let ?name = "to_ascii_lowercase n"
  from assms(2) obtain t0 rows t c where ex: "map_of (cat_tables cat) ?name = Some t0"
    "res_fold (insert_one cat ?name od) (t0, 0) rows = Inr (t, c)" "cat' = put_table cat ?name t"
    by (auto simp: execute_insert_def Let_def rbind_Inr_iff ok_or_def split: option.splits dest!: validatedD)
  have "tb_next_row_id t < u64_max" using assms(1,3) ex(3) by (auto simp: catalog_ok_def intro: ids_left_put)
  then have "table_ok t" using insert_fold_ok [OF ex(2)] catalog_ok_lookup [OF assms(1) ex(1)] by simp
  then show ?thesis by (simp add: ex(3) put_table_ok assms(1))
qed

lemma execute_update_ok:
  assumes "catalog_ok cat" "execute_update ln cat n as sel = Inr (r, cat')"
  shows "catalog_ok cat'"
proof -
  let ?name = "to_ascii_lowercase n"
  from assms(2) obtain t rs where ex: "map_of (cat_tables cat) ?name = Some t"
    "res_map (update_row cat t (table_columns ?name (tb_schema t)) as sel) (enumerate 0 (tb_rows t)) = Inr rs"
    "cat' = put_table cat ?name (rebuild_index ln (t\<lparr>tb_rows := map fst rs\<rparr>))"
    by (auto simp: execute_update_def Let_def rbind_Inr_iff ok_or_def split: option.splits dest!: validatedD)
  have "length rs = length (tb_rows t)" using res_map_length [OF ex(2)] by simp
  then show ?thesis
    using catalog_ok_lookup [OF assms(1) ex(1)] by (auto simp: ex(3) intro!: put_table_ok assms(1) rebuild_keeps_ok)
qed

text \<open>Deletion keeps the rows at an increasing sequence of positions.\<close>

lemma delete_fold_positions:
  assumes "res_fold (delete_step cat t cols sel) (rows0, ids0, d0) (enumerate n xs) = Inr (rows, ids, d)"
  shows "\<exists>ks. sorted_wrt (<) ks \<and> set ks \<subseteq> {n..<n + length xs} \<and>
     set ks \<subseteq> {..<length (tb_row_ids t)} \<and>
     rows = rows0 @ map (\<lambda>k. xs ! (k - n)) ks \<and> ids = ids0 @ map ((!) (tb_row_ids t)) ks \<and>
     d + length ks = d0 + length xs"
  using assms
proof (induction xs arbitrary: n rows0 ids0 d0)
  case (Cons x xs)
  from Cons.prems obtain st where step: "delete_step cat t cols sel (rows0, ids0, d0) (n, x) = Inr st"
    and rest: "res_fold (delete_step cat t cols sel) st (enumerate (Suc n) xs) = Inr (rows, ids, d)"
    by (auto simp: rbind_Inr_iff)
  from step obtain m where st: "(if m then Inr (rows0, ids0, d0 + 1)
          else rbind (idx (tb_row_ids t) n) (\<lambda>i. Inr (rows0 @ [x], ids0 @ [i], d0))) = Inr st"
    unfolding delete_step_def prod.case rbind_Inr_iff by blast
  have shift: "map (\<lambda>k. xs ! (k - Suc n)) ks = map (\<lambda>k. (x # xs) ! (k - n)) ks"
    if "set ks \<subseteq> {Suc n..<Suc n + length xs}" for ks
    using that by (auto simp: nth_Cons' intro!: map_cong)
  show ?case
  proof (cases m)
    case True
    then have "st = (rows0, ids0, d0 + 1)" using st by simp
    from Cons.IH [OF rest [unfolded this]] obtain ks where
      "sorted_wrt (<) ks" and ks: "set ks \<subseteq> {Suc n..<Suc n + length xs}"
      "set ks \<subseteq> {..<length (tb_row_ids t)}" "rows = rows0 @ map (\<lambda>k. xs ! (k - Suc n)) ks"
      "ids = ids0 @ map ((!) (tb_row_ids t)) ks" "d + length ks = d0 + 1 + length xs" by auto
    then show ?thesis using shift [OF ks(1)] by (intro exI [of _ ks]) auto
  next
    case False
    then have n: "n < length (tb_row_ids t)" and kept: "st = (rows0 @ [x], ids0 @ [tb_row_ids t ! n], d0)"
      using st by (auto simp: idx_def split: if_splits)
    from Cons.IH [OF rest [unfolded kept]] obtain ks where
      "sorted_wrt (<) ks" and ks: "set ks \<subseteq> {Suc n..<Suc n + length xs}"
      "set ks \<subseteq> {..<length (tb_row_ids t)}" "rows = (rows0 @ [x]) @ map (\<lambda>k. xs ! (k - Suc n)) ks"
      "ids = (ids0 @ [tb_row_ids t ! n]) @ map ((!) (tb_row_ids t)) ks" "d + length ks = d0 + length xs" by auto
    then show ?thesis using shift [OF ks(1)] n by (intro exI [of _ "n # ks"]) auto
  qed
qed auto

lemma delete_rebuild_ok:
  assumes "table_ok t"
    and "res_fold (delete_step cat t cols sel) ([], [], 0) (enumerate 0 (tb_rows t)) = Inr (rows, ids, d)"
  shows "table_ok (rebuild_index ln (t\<lparr>tb_rows := rows, tb_row_ids := ids\<rparr>))"
proof -
  from delete_fold_positions [OF assms(2)] obtain ks where ks: "sorted_wrt (<) ks"
    "set ks \<subseteq> {..<length (tb_row_ids t)}" "ids = map ((!) (tb_row_ids t)) ks" "length rows = length ks"
    by auto
  have ok: "ids_ok t" using assms(1) by (simp add: table_ok_def)
  have "sorted_wrt (<) ids" unfolding ks(3) sorted_wrt_map
    using ks(1,2) ok by (auto simp: ids_ok_def intro!: sorted_wrt_mono_rel [OF _ ks(1)] sorted_wrt_nth_less)
  moreover have "\<forall>i \<in> set ids. i < tb_next_row_id t" using ks ok by (auto simp: ids_ok_def)
  ultimately have "ids_ok (t\<lparr>tb_rows := rows, tb_row_ids := ids\<rparr>)" using ks by (simp add: ids_ok_def)
  then show ?thesis by (rule rebuild_index_ok)
qed

lemma execute_delete_ok:
  assumes "catalog_ok cat" "execute_delete ln cat n sel = Inr (r, cat')"
  shows "catalog_ok cat'"
proof -
  let ?name = "to_ascii_lowercase n"
  from assms(2) obtain t rows ids d where ex: "map_of (cat_tables cat) ?name = Some t"
    "res_fold (delete_step cat t (table_columns ?name (tb_schema t)) sel) ([], [], 0) (enumerate 0 (tb_rows t))
       = Inr (rows, ids, d)"
    "cat' = put_table cat ?name (rebuild_index ln (t\<lparr>tb_rows := rows, tb_row_ids := ids\<rparr>))"
    by (auto simp: execute_delete_def Let_def rbind_Inr_iff ok_or_def split: option.splits dest!: validatedD)
  show ?thesis
    unfolding ex(3) by (intro put_table_ok assms(1) delete_rebuild_ok [OF catalog_ok_lookup [OF assms(1) ex(1)] ex(2)])
qed

lemma execute_statement_ok:
  assumes "catalog_ok cat" "execute_statement ln debug cat st = Inr (r, cat')" "ids_left cat'"
  shows "catalog_ok cat'"
  using assms
  by (cases st)
    (auto simp: execute_statement_def rbind_Inr_iff fail_def
      intro: assms(1) execute_create_table_ok [OF assms(1)] execute_drop_table_ok [OF assms(1)]
        execute_create_index_ok [OF assms(1)] execute_drop_index_ok [OF assms(1)]
        execute_alter_table_ok [OF assms(1)] execute_insert_ok [OF assms(1) _ assms(3)]
        execute_update_ok [OF assms(1)] execute_delete_ok [OF assms(1)])

lemma execute_catalog_ok:
  assumes "catalog_ok cat" "execute_catalog ln debug cat st = Inr (r, cat')" "ids_left cat'"
  shows "catalog_ok cat'"
  using assms by (auto simp: execute_catalog_def rbind_Inr_iff split: if_splits intro: execute_statement_ok)

section \<open>What a validated catalog satisfies\<close>

definition row_typed :: "table_schema \<Rightarrow> row \<Rightarrow> bool" where
  "row_typed s row \<longleftrightarrow> list_all2 (\<lambda>v c. (v = VNull \<longrightarrow> col_nullable c) \<and> is_compatible_with v (col_data_type c))
     row (sch_columns s)"

lemma validate_row_iff: "validate_row s row = Inr () \<longleftrightarrow> row_typed s row"
proof (cases "length row = length (sch_columns s)")
  case True
  have "validate_value (v, c) = Inr () \<longleftrightarrow>
      (v = VNull \<longrightarrow> col_nullable c) \<and> is_compatible_with v (col_data_type c)" for v c
    by (cases v) (auto simp: validate_value_def)
  with True show ?thesis
    by (auto simp: validate_row_def res_all_Inr_iff row_typed_def list_all2_iff)
next
  case False
  then show ?thesis by (auto simp: validate_row_def row_typed_def dest: list_all2_lengthD)
qed

text \<open>No two rows share a key of a unique index, keys with a null in them apart.\<close>

definition unique_holds :: "table \<Rightarrow> bool" where
  "unique_holds t \<longleftrightarrow> (\<forall>p < length (tb_rows t). \<forall>q < length (tb_rows t). p \<noteq> q \<longrightarrow>
     \<not> unique_clash t (tb_rows t ! p) (tb_rows t ! q))"

lemma ids_with_subset: "ids_ok t \<Longrightarrow> ids_with t cols key \<subseteq> set (tb_row_ids t)"
  by (auto simp: ids_with_def ids_ok_def)

lemma card_gt_1_iff: "finite A \<Longrightarrow> 1 < card A \<longleftrightarrow> (\<exists>x \<in> A. \<exists>y \<in> A. x \<noteq> y)"
  by (metis (full_types) One_nat_def card_le_Suc0_iff_eq not_le)

lemma index_entries_unique:
  assumes "ids_ok t" "index_ok t ix"
  shows "(\<forall>(key, ids) \<in> set (bt_entries ix). KNull \<notin> set key \<longrightarrow> \<not> 1 < card ids) \<longleftrightarrow>
     (\<forall>key p q. KNull \<notin> set key \<longrightarrow> p < length (tb_rows t) \<longrightarrow> q < length (tb_rows t) \<longrightarrow> p \<noteq> q \<longrightarrow>
        \<not> (index_key (tb_schema t) (tb_rows t ! p) (ix_columns (bt_definition ix)) = Some key \<and>
           index_key (tb_schema t) (tb_rows t ! q) (ix_columns (bt_definition ix)) = Some key))"
proof -
  let ?K = "\<lambda>p. index_key (tb_schema t) (tb_rows t ! p) (ix_columns (bt_definition ix))"
  have bt: "btree_ok ix" and lk: "\<And>key. btree_lookup ix key = ids_with t (ix_columns (bt_definition ix)) key"
    using assms(2) by (auto simp: index_ok_def)
  have len: "length (tb_row_ids t) = length (tb_rows t)" and dist: "distinct (tb_row_ids t)"
    using assms(1) by (auto simp: ids_ok_def strict_sorted_iff)
  have "(\<forall>(key, ids) \<in> set (bt_entries ix). KNull \<notin> set key \<longrightarrow> \<not> 1 < card ids) \<longleftrightarrow>
      (\<forall>key. KNull \<notin> set key \<longrightarrow> \<not> 1 < card (btree_lookup ix key))"
    using bt by (auto simp: btree_ok_def btree_lookup_def entries_get_def wf_map_in_iff split: option.splits)
  also have "\<dots> \<longleftrightarrow> (\<forall>key. KNull \<notin> set key \<longrightarrow>
      \<not> (\<exists>p q. p < length (tb_rows t) \<and> q < length (tb_rows t) \<and> p \<noteq> q \<and> ?K p = Some key \<and> ?K q = Some key))"
  proof -
    have "1 < card (btree_lookup ix key) \<longleftrightarrow>
        (\<exists>p q. p < length (tb_rows t) \<and> q < length (tb_rows t) \<and> p \<noteq> q \<and> ?K p = Some key \<and> ?K q = Some key)" for key
    proof -
      have "finite (btree_lookup ix key)"
        unfolding lk by (rule finite_subset [OF ids_with_subset [OF assms(1)]]) simp
      then have "1 < card (btree_lookup ix key) \<longleftrightarrow> (\<exists>x \<in> btree_lookup ix key. \<exists>y \<in> btree_lookup ix key. x \<noteq> y)"
        by (rule card_gt_1_iff)
      also have "\<dots> \<longleftrightarrow> (\<exists>p q. p < length (tb_rows t) \<and> q < length (tb_rows t) \<and>
          tb_row_ids t ! p \<noteq> tb_row_ids t ! q \<and> ?K p = Some key \<and> ?K q = Some key)"
        unfolding lk ids_with_def by blast
      also have "\<dots> \<longleftrightarrow> (\<exists>p q. p < length (tb_rows t) \<and> q < length (tb_rows t) \<and> p \<noteq> q \<and>
          ?K p = Some key \<and> ?K q = Some key)"
        using dist len by (metis nth_eq_iff_index_eq)
      finally show ?thesis .
    qed
    then show ?thesis by simp
  qed
  finally show ?thesis by blast
qed

lemma validate_unique_iff:
  assumes "table_ok t"
  shows "validate_unique_indexes t = Inr () \<longleftrightarrow> unique_holds t"
proof -
  have ids: "ids_ok t" and ix: "\<And>name ix. (name, ix) \<in> set (tb_indexes t) \<Longrightarrow> index_ok t ix"
    and defs: "index_defs (tb_schema t) = map (map_prod id bt_definition) (tb_indexes t)"
    using assms by (auto simp: table_ok_def)
  have "validate_unique_indexes t = Inr () \<longleftrightarrow> (\<forall>(name, ix) \<in> set (tb_indexes t).
      ix_unique (bt_definition ix) \<longrightarrow>
      (\<forall>(key, ids) \<in> set (bt_entries ix). KNull \<notin> set key \<longrightarrow> \<not> 1 < card ids))"
    by (fastforce simp: validate_unique_indexes_def res_all_Inr_iff fail_def)
  also have "\<dots> \<longleftrightarrow> (\<forall>(name, ix) \<in> set (tb_indexes t). ix_unique (bt_definition ix) \<longrightarrow>
      (\<forall>key p q. KNull \<notin> set key \<longrightarrow> p < length (tb_rows t) \<longrightarrow> q < length (tb_rows t) \<longrightarrow> p \<noteq> q \<longrightarrow>
        \<not> (index_key (tb_schema t) (tb_rows t ! p) (ix_columns (bt_definition ix)) = Some key \<and>
           index_key (tb_schema t) (tb_rows t ! q) (ix_columns (bt_definition ix)) = Some key)))"
    using index_entries_unique [OF ids ix] by (intro ball_cong refl) (auto simp only: split_paired_all prod.case)
  also have "\<dots> \<longleftrightarrow> unique_holds t"
  proof -
    have clash: "unique_clash t row other \<longleftrightarrow> (\<exists>(name, ix) \<in> set (tb_indexes t). ix_unique (bt_definition ix) \<and>
       (\<exists>key. index_key (tb_schema t) row (ix_columns (bt_definition ix)) = Some key \<and> KNull \<notin> set key \<and>
          index_key (tb_schema t) other (ix_columns (bt_definition ix)) = Some key))" for row other
      unfolding unique_clash_def defs list_ex_iff by (fastforce split: option.splits)
    show ?thesis unfolding unique_holds_def clash by blast
  qed
  finally show ?thesis .
qed

text \<open>A check constraint evaluates, and not to false, on every row.\<close>

definition checks_hold :: "catalog \<Rightarrow> table \<Rightarrow> bool" where
  "checks_hold cat t \<longleftrightarrow> (\<forall>row \<in> set (tb_rows t). \<forall>n e. Check n e \<in> set (sch_constraints (tb_schema t)) \<longrightarrow>
     (\<exists>v. eval_expr (run_query cat) e (table_columns (sch_name (tb_schema t)) (tb_schema t)) row None = Inr v \<and>
          truth v \<noteq> SFalse))"

text \<open>
  A row without a null in its foreign key has a parent row with equal referred columns. (The
  source compares as many columns as the parent side names.)
\<close>

definition column_values :: "table_schema \<Rightarrow> string list \<Rightarrow> row \<Rightarrow> val list option" where
  "column_values s columns row = those (map (\<lambda>c. Option.bind (column_index s c) (get row)) columns)"

definition has_parent :: "table_schema \<Rightarrow> table \<Rightarrow> foreign_key \<Rightarrow> row \<Rightarrow> bool" where
  "has_parent s parent fk row = (case column_values s (fk_columns fk) row of
     None \<Rightarrow> False
   | Some key \<Rightarrow> list_ex is_null key \<or>
       list_ex (\<lambda>prow. case column_values (tb_schema parent) (fk_referred_columns fk) prow of
           Some pkey \<Rightarrow> list_all2 value_eq pkey (take (length pkey) key) | None \<Rightarrow> False) (tb_rows parent))"

definition foreign_keys_hold :: "catalog \<Rightarrow> table \<Rightarrow> bool" where
  "foreign_keys_hold cat t \<longleftrightarrow> (\<forall>fk. ForeignKey fk \<in> set (sch_constraints (tb_schema t)) \<longrightarrow>
     (\<exists>parent. map_of (cat_tables cat) (fk_foreign_table fk) = Some parent \<and> parent_is_unique parent fk \<and>
        (\<forall>row \<in> set (tb_rows t). has_parent (tb_schema t) parent fk row)))"

lemma those_iff: "those xs = Some ys \<longleftrightarrow> xs = map Some ys"
proof (induction xs arbitrary: ys)
  case (Cons x xs)
  then show ?case by (cases ys) (auto split: option.splits)
qed auto

lemma res_any_True: "res_any f xs = Inr True \<Longrightarrow> \<exists>x \<in> set xs. f x = Inr True"
  by (induction xs) (auto simp: rbind_Inr_iff split: if_splits)

lemma res_every_True: "res_every f xs = Inr True \<Longrightarrow> \<forall>x \<in> set xs. f x = Inr True"
  by (induction xs) (auto simp: rbind_Inr_iff split: if_splits)

lemma idx_Inr_iff: "idx xs i = Inr x \<longleftrightarrow> i < length xs \<and> xs ! i = x"
  by (auto simp: idx_def)

lemma column_values_of_indices:
  assumes "column_indices s what cols = Inr is" "list_all2 (\<lambda>i v. idx row i = Inr v) is vs"
  shows "column_values s cols row = Some vs"
  using assms unfolding column_indices_def column_values_def res_map_Inr_iff those_iff
  by (auto simp: list_all2_conv_all_nth idx_Inr_iff ok_or_def split: option.splits intro!: nth_equalityI)

lemma parent_matches_values:
  assumes "parent_matches is key prow = Inr True"
  shows "\<exists>pkey. list_all2 (\<lambda>i v. idx prow i = Inr v) is pkey \<and> list_all2 value_eq pkey (take (length pkey) key)"
proof -
  have *: "i < length is \<Longrightarrow> is ! i < length prow \<and> i < length key \<and> value_eq (prow ! (is ! i)) (key ! i)" for i
    using res_every_True [OF assms [unfolded parent_matches_def]]
    by (auto simp: enumerate_map_nth rbind_Inr_iff idx_Inr_iff)
  then have "length is \<le> length key" by (cases "length is") fastforce+
  with * show ?thesis
    by (intro exI [of _ "map ((!) prow) is"]) (auto simp: list_all2_conv_all_nth)
qed

lemma validate_child_row_parent:
  assumes "validate_child_row parent fk ci pi row = Inr ()"
    and "column_indices s w (fk_columns fk) = Inr ci"
    and "column_indices (tb_schema parent) w' (fk_referred_columns fk) = Inr pi"
  shows "has_parent s parent fk row"
proof -
  from assms(1) obtain key where key: "list_all2 (\<lambda>i v. idx row i = Inr v) ci key"
    and found: "list_ex is_null key \<or> res_any (parent_matches pi key) (tb_rows parent) = Inr True"
    by (auto simp: validate_child_row_def rbind_Inr_iff res_map_Inr_iff fail_def split: if_splits)
  have "column_values s (fk_columns fk) row = Some key" by (rule column_values_of_indices [OF assms(2) key])
  moreover have "list_ex (\<lambda>prow. case column_values (tb_schema parent) (fk_referred_columns fk) prow of
           Some pkey \<Rightarrow> list_all2 value_eq pkey (take (length pkey) key) | None \<Rightarrow> False) (tb_rows parent)"
    if "res_any (parent_matches pi key) (tb_rows parent) = Inr True"
  proof -
    from res_any_True [OF that] obtain prow where prow: "prow \<in> set (tb_rows parent)"
      "parent_matches pi key prow = Inr True" by blast
    from parent_matches_values [OF prow(2)] obtain pkey where "list_all2 (\<lambda>i v. idx prow i = Inr v) pi pkey"
      "list_all2 value_eq pkey (take (length pkey) key)" by blast
    with column_values_of_indices [OF assms(3)] prow(1) show ?thesis
      unfolding list_ex_iff by (intro bexI [of _ prow]) auto
  qed
  ultimately show ?thesis using found by (auto simp: has_parent_def)
qed

lemma validate_foreign_key_holds:
  assumes "validate_foreign_key cat t (ForeignKey fk) = Inr ()"
  shows "\<exists>parent. map_of (cat_tables cat) (fk_foreign_table fk) = Some parent \<and> parent_is_unique parent fk \<and>
        (\<forall>row \<in> set (tb_rows t). has_parent (tb_schema t) parent fk row)"
  using assms
  by (auto simp: validate_foreign_key_def rbind_Inr_iff ok_or_def fail_def res_all_Inr_iff
      dest: validate_child_row_parent split: if_splits option.splits)

definition table_valid :: "catalog \<Rightarrow> table \<Rightarrow> bool" where
  "table_valid cat t \<longleftrightarrow> (\<forall>row \<in> set (tb_rows t). row_typed (tb_schema t) row) \<and> unique_holds t \<and>
     checks_hold cat t \<and> foreign_keys_hold cat t"

lemma validate_catalog_valid:
  assumes "catalog_ok cat" "validate_catalog cat = Inr ()" "(name, t) \<in> set (cat_tables cat)"
  shows "table_valid cat t"
proof -
  have t: "table_ok t" using assms(1,3) by (auto simp: catalog_ok_def)
  from assms(2,3) have tab: "validate_table cat (name, t) = Inr ()"
    and fks: "\<forall>c \<in> set (sch_constraints (tb_schema t)). validate_foreign_key cat t c = Inr ()"
    by (auto simp: validate_catalog_def rbind_Inr_iff res_all_Inr_iff validate_foreign_keys_def)
  from tab have rows: "\<forall>row \<in> set (tb_rows t). validate_row (tb_schema t) row = Inr () \<and> validate_checks cat t row = Inr ()"
    and uniq: "validate_unique_indexes t = Inr ()"
    by (auto simp: validate_table_def rbind_Inr_iff res_all_Inr_iff)
  have "checks_hold cat t"
    using rows by (fastforce simp: checks_hold_def validate_checks_def res_all_Inr_iff check_constraint_def
        rbind_Inr_iff fail_def split: if_splits)
  moreover have "foreign_keys_hold cat t"
    using fks validate_foreign_key_holds by (fastforce simp: foreign_keys_hold_def)
  ultimately show ?thesis
    using rows uniq validate_unique_iff [OF t] by (simp add: table_valid_def validate_row_iff)
qed

lemma write_leaves_valid:
  assumes "catalog_ok cat" "is_write_statement st" "execute_catalog ln debug cat st = Inr (r, cat')" "ids_left cat'"
    and "map_of (cat_tables cat') name = Some t"
  shows "table_valid cat' t"
proof -
  have "validate_catalog cat' = Inr ()"
    using assms(2,3) by (auto simp: execute_catalog_def rbind_Inr_iff)
  then show ?thesis
    using execute_catalog_ok [OF assms(1,3,4)] map_of_SomeD [OF assms(5)] validate_catalog_valid by blast
qed

section \<open>What UPDATE and DELETE do to the rows\<close>

lemma selected_keeps:
  "selected cat cols (Some e) row = Inr m \<Longrightarrow> m = keeps (run_query cat) e cols row"
  by (auto simp: selected_def keeps_def rbind_Inr_iff)

text \<open>Rows the index rules out are rows the selection does not keep.\<close>

lemma not_candidate_not_kept:
  assumes "table_ok t" "index_safe t e" "rows_indexable t" "p < length (tb_rows t)" "not_candidate t (Some e) p"
  shows "\<not> keeps runq e (table_columns name (tb_schema t)) (tb_rows t ! p)"
proof -
  from assms(5) obtain ids ixname where cand: "candidate_row_ids t (Some e) = Some (ids, ixname)"
    by (auto simp: not_candidate_def split: option.splits)
  have "length (tb_row_ids t) = length (tb_rows t)" using assms(1) by (simp add: table_ok_def ids_ok_def)
  with assms(4,5) cand have "tb_row_ids t ! p \<notin> ids" by (simp add: not_candidate_def)
  with skipped_row_not_kept [OF assms(1-3) cand assms(4)] show ?thesis by simp
qed

lemma delete_fold_rows:
  assumes "res_fold (delete_step cat t cols (Some e)) (rows0, ids0, d0) (enumerate n xs) = Inr (rows, ids, d)"
    and "\<And>p. p < length xs \<Longrightarrow> not_candidate t (Some e) (n + p) \<Longrightarrow> \<not> keeps (run_query cat) e cols (xs ! p)"
  shows "rows = rows0 @ filter (\<lambda>row. \<not> keeps (run_query cat) e cols row) xs \<and>
         d = d0 + length (filter (keeps (run_query cat) e cols) xs)"
  using assms
proof (induction xs arbitrary: n rows0 ids0 d0)
  case (Cons x xs)
  from Cons.prems(1) obtain st where step: "delete_step cat t cols (Some e) (rows0, ids0, d0) (n, x) = Inr st"
    and rest: "res_fold (delete_step cat t cols (Some e)) st (enumerate (Suc n) xs) = Inr (rows, ids, d)"
    by (auto simp: rbind_Inr_iff)
  from step obtain m where
    m: "(if not_candidate t (Some e) n then Inr False else selected cat cols (Some e) x) = Inr m"
    and st: "(if m then Inr (rows0, ids0, d0 + 1)
          else rbind (idx (tb_row_ids t) n) (\<lambda>i. Inr (rows0 @ [x], ids0 @ [i], d0))) = Inr st"
    unfolding delete_step_def prod.case rbind_Inr_iff by blast
  have mk: "m = keeps (run_query cat) e cols x"
    using m Cons.prems(2) [of 0] selected_keeps by (auto split: if_splits)
  have skip: "\<And>p. p < length xs \<Longrightarrow> not_candidate t (Some e) (Suc n + p) \<Longrightarrow> \<not> keeps (run_query cat) e cols (xs ! p)"
    using Cons.prems(2) [of "Suc _"] by simp
  show ?case
  proof (cases m)
    case True
    then have "st = (rows0, ids0, d0 + 1)" using st by simp
    from Cons.IH [OF rest [unfolded this] skip] show ?thesis using True mk by simp
  next
    case False
    then obtain i where "st = (rows0 @ [x], ids0 @ [i], d0)" using st by (auto simp: rbind_Inr_iff)
    from Cons.IH [OF rest [unfolded this] skip] show ?thesis using False mk by simp
  qed
qed simp

lemma execute_delete_rows:
  assumes "catalog_ok cat" "map_of (cat_tables cat) (to_ascii_lowercase n) = Some t"
    and "index_safe t e" "rows_indexable t" "execute_delete ln cat n (Some e) = Inr (r, cat')"
  defines "cols \<equiv> table_columns (to_ascii_lowercase n) (tb_schema t)"
  shows "\<exists>t'. map_of (cat_tables cat') (to_ascii_lowercase n) = Some t' \<and>
     tb_rows t' = filter (\<lambda>row. \<not> keeps (run_query cat) e cols row) (tb_rows t) \<and>
     r = RowsAffected (length (filter (keeps (run_query cat) e cols) (tb_rows t)))"
proof -
  have t: "table_ok t" by (rule catalog_ok_lookup [OF assms(1,2)])
  from assms(2,5) obtain rows ids d where ex:
    "res_fold (delete_step cat t cols (Some e)) ([], [], 0) (enumerate 0 (tb_rows t)) = Inr (rows, ids, d)"
    "cat' = put_table cat (to_ascii_lowercase n) (rebuild_index ln (t\<lparr>tb_rows := rows, tb_row_ids := ids\<rparr>))"
    "r = RowsAffected d"
    by (auto simp: execute_delete_def Let_def rbind_Inr_iff cols_def dest!: validatedD)
  have "\<And>p. p < length (tb_rows t) \<Longrightarrow> not_candidate t (Some e) (0 + p) \<Longrightarrow>
      \<not> keeps (run_query cat) e cols (tb_rows t ! p)"
    unfolding cols_def using not_candidate_not_kept [OF t assms(3,4)] by simp
  from delete_fold_rows [OF ex(1) this] show ?thesis by (simp add: ex(2,3) put_table_def)
qed

text \<open>
  The row UPDATE is to make of a row, column by column: a column that no assignment names
  keeps its value, every other one has the value of the last assignment naming it, computed
  from the original row and converted to the column's type.
\<close>

definition assigned ::
  "catalog \<Rightarrow> table_schema \<Rightarrow> bound_column list \<Rightarrow> (string \<times> expr) list \<Rightarrow> row \<Rightarrow> row \<Rightarrow> bool" where
  "assigned cat s cols as row row' \<longleftrightarrow> length row' = length row \<and>
     (\<forall>i < length row. case find (\<lambda>(c, e). column_index s c = Some i) (rev as) of
        None \<Rightarrow> row' ! i = row ! i
      | Some (c, e) \<Rightarrow> (\<exists>v. eval_expr (run_query cat) e cols row None = Inr v \<and>
          coerce_to v (col_data_type (sch_columns s ! i)) = Some (row' ! i)))"

lemma assign_steps_assigned:
  "res_fold (assign_step cat s cols row) row as = Inr row' \<Longrightarrow> assigned cat s cols as row row'"
proof (induction as arbitrary: row' rule: rev_induct)
  case Nil
  then show ?case by (simp add: assigned_def)
next
  case (snoc ce as)
  obtain c e where ce: "ce = (c, e)" by (cases ce)
  from snoc.prems obtain mid where mid: "res_fold (assign_step cat s cols row) row as = Inr mid"
    "assign_step cat s cols row mid ce = Inr row'"
    by (auto simp: res_fold_append rbind_Inr_iff)
  from mid(2) obtain i v w where step: "column_index s c = Some i"
    "eval_expr (run_query cat) e cols row None = Inr v"
    "coerce_to v (col_data_type (sch_columns s ! i)) = Some w" "i < length mid" "row' = mid[i := w]"
    by (auto simp: assign_step_def ce rbind_Inr_iff ok_or_def vec_set_def split: option.splits if_splits)
  from snoc.IH [OF mid(1)] step show ?case
    by (auto simp: assigned_def ce nth_list_update split: option.splits)
qed

lemma update_row_kept:
  assumes "update_row cat t cols as (Some e) (p, row) = Inr (row', k)"
    and "not_candidate t (Some e) p \<Longrightarrow> \<not> keeps (run_query cat) e cols row"
  shows "if keeps (run_query cat) e cols row
         then assigned cat (tb_schema t) cols as row row' \<and> k = 1
         else row' = row \<and> k = 0"
  using assms by (auto simp: update_row_def rbind_Inr_iff split: if_splits dest: selected_keeps assign_steps_assigned)

lemma execute_update_rows:
  assumes "catalog_ok cat" "map_of (cat_tables cat) (to_ascii_lowercase n) = Some t"
    and "index_safe t e" "rows_indexable t" "execute_update ln cat n as (Some e) = Inr (r, cat')"
  defines "cols \<equiv> table_columns (to_ascii_lowercase n) (tb_schema t)"
  shows "\<exists>t'. map_of (cat_tables cat') (to_ascii_lowercase n) = Some t' \<and> tb_row_ids t' = tb_row_ids t \<and>
     list_all2 (\<lambda>row row'. if keeps (run_query cat) e cols row
        then assigned cat (tb_schema t) cols as row row' else row' = row)
       (tb_rows t) (tb_rows t')"
proof -
  have t: "table_ok t" by (rule catalog_ok_lookup [OF assms(1,2)])
  from assms(2,5) obtain rs where ex:
    "res_map (update_row cat t cols as (Some e)) (enumerate 0 (tb_rows t)) = Inr rs"
    "cat' = put_table cat (to_ascii_lowercase n) (rebuild_index ln (t\<lparr>tb_rows := map fst rs\<rparr>))"
    by (auto simp: execute_update_def Let_def rbind_Inr_iff cols_def dest!: validatedD)
  have "list_all2 (\<lambda>row row'. if keeps (run_query cat) e cols row
        then assigned cat (tb_schema t) cols as row row' else row' = row)
       (tb_rows t) (map fst rs)"
    unfolding list_all2_conv_all_nth
  proof (intro conjI allI impI)
    show "length (tb_rows t) = length (map fst rs)" using res_map_length [OF ex(1)] by simp
    fix p assume p: "p < length (tb_rows t)"
    then have "update_row cat t cols as (Some e) (p, tb_rows t ! p) = Inr (rs ! p)"
      using ex(1) by (auto simp: res_map_Inr_iff list_all2_conv_all_nth nth_enumerate_eq)
    then have "update_row cat t cols as (Some e) (p, tb_rows t ! p) = Inr (fst (rs ! p), snd (rs ! p))" by simp
    from update_row_kept [OF this] not_candidate_not_kept [OF t assms(3,4) p] p res_map_length [OF ex(1)]
    show "if keeps (run_query cat) e cols (tb_rows t ! p)
        then assigned cat (tb_schema t) cols as (tb_rows t ! p) (map fst rs ! p)
        else map fst rs ! p = tb_rows t ! p"
      by (auto simp: cols_def split: if_splits)
  qed
  then show ?thesis by (simp add: ex(2) put_table_def)
qed

section \<open>A failed statement changes nothing\<close>

lemma execute_statement_not_error: "execute_statement ln debug cat st = Inr (r, cat') \<Longrightarrow> r \<noteq> RError msg"
  by (cases st)
    (auto simp: execute_statement_def rbind_Inr_iff fail_def Let_def execute_create_table_def
      execute_drop_table_def execute_create_index_def execute_drop_index_def execute_alter_table_def
      execute_insert_def execute_update_def execute_delete_def
      split: if_splits option.splits dest!: validatedD)

lemma executor_execute_error:
  assumes "executor_execute ln debug cat st = Inr (RError msg, cat')"
  shows "cat' = cat"
  using assms
  by (auto simp: executor_execute_def execute_catalog_def rbind_Inr_iff dest: execute_statement_not_error
      split: if_splits sum.splits error.splits)

end
