(* ===== verification/WalLog.thy ===== *)
theory WalLog
  imports PlanCache Executor
begin

text \<open>
  The write-ahead log of \<^verbatim>\<open>src/src/sql/database.rs\<close> (lines 81 to 156 and 429 to 525): its records
  and their checksums, and the replay of a log file in its three formats. The file is the
  bytes on disk. Functions of other packages are fields of a \<open>platform\<close>. The lemmas show
  that replaying a log over a snapshot that already holds a part of it changes nothing
  twice, that replaying the bytes of written records runs their statements in order, and
  that an unfinished last record is ignored.
\<close>

section \<open>Code outside the repository\<close>

text \<open>
  \<open>pf_ln\<close> is \<open>f64::ln\<close>, \<open>pf_debug\<close> the derived \<open>Debug\<close> printer of statements, \<open>pf_front\<close> the SQL
  parser, \<open>pf_crc\<close> the CRC-32 of a byte string; the others are \<open>serde_json\<close>.
\<close>

datatype durable_statement = DurableSql string | DurableBound statement

record wal_record =
  wr_format_version :: nat
  wr_base_version :: nat
  wr_commit_version :: nat
  wr_timestamp_millis :: nat
  wr_statements :: "durable_statement list"
  wr_checksum :: "32 word"

record legacy_wal_record =
  lw_format_version :: nat
  lw_base_version :: nat
  lw_commit_version :: nat
  lw_statements :: "string list"
  lw_checksum :: "32 word"

record catalog_snapshot =
  cs_format_version :: nat
  cs_catalog_version :: nat
  cs_schema_version :: nat
  cs_timestamp_millis :: nat
  cs_tables :: "(string, table) hmap"

record persisted_table =
  pt_schema :: table_schema
  pt_rows :: "row list"

record platform =
  pf_ln :: "f64 \<Rightarrow> f64"
  pf_debug :: "statement \<Rightarrow> string"
  pf_front :: "string \<Rightarrow> statement res"
  pf_crc :: "string \<Rightarrow> 32 word"
  pf_statements_json :: "durable_statement list \<Rightarrow> string"
  pf_record_json :: "wal_record \<Rightarrow> string"
  pf_read_record :: "string \<Rightarrow> wal_record option"
  pf_read_legacy :: "string \<Rightarrow> legacy_wal_record option"
  pf_catalog_json :: "catalog_snapshot \<Rightarrow> string"
  pf_read_catalog :: "string \<Rightarrow> catalog_snapshot res"
  pf_read_table :: "string \<Rightarrow> persisted_table res"

abbreviation run :: "platform \<Rightarrow> catalog \<Rightarrow> statement \<Rightarrow> outcome" where
  "run pf \<equiv> execute_catalog (pf_ln pf) (pf_debug pf)"

section \<open>Records\<close>

definition wal_format_version :: nat where
  "wal_format_version = 2"

definition le_bytes :: "nat \<Rightarrow> nat \<Rightarrow> string" where
  "le_bytes k n = map (\<lambda>i. char_of (n div 256 ^ i mod 256)) [0..<k]"

definition wal_checksum :: "platform \<Rightarrow> nat \<Rightarrow> nat \<Rightarrow> nat \<Rightarrow> durable_statement list \<Rightarrow> 32 word" where
  "wal_checksum pf base_version commit_version timestamp_millis statements =
     pf_crc pf (le_bytes 8 base_version @ le_bytes 8 commit_version @ le_bytes 8 timestamp_millis @
       pf_statements_json pf statements)"

definition legacy_wal_checksum :: "platform \<Rightarrow> nat \<Rightarrow> nat \<Rightarrow> string list \<Rightarrow> 32 word" where
  "legacy_wal_checksum pf base_version commit_version statements =
     pf_crc pf (le_bytes 8 base_version @ le_bytes 8 commit_version @
       concat (map (\<lambda>s. le_bytes 8 (length s) @ s) statements))"

definition wal_record_new :: "platform \<Rightarrow> nat \<Rightarrow> nat \<Rightarrow> nat \<Rightarrow> durable_statement list \<Rightarrow> wal_record" where
  "wal_record_new pf now base_version commit_version statements =
     \<lparr>wr_format_version = wal_format_version, wr_base_version = base_version,
      wr_commit_version = commit_version, wr_timestamp_millis = now, wr_statements = statements,
      wr_checksum = wal_checksum pf base_version commit_version now statements\<rparr>"

definition wal_record_valid :: "platform \<Rightarrow> wal_record \<Rightarrow> bool" where
  "wal_record_valid pf r \<longleftrightarrow> wr_format_version r = wal_format_version \<and>
     wr_checksum r = wal_checksum pf (wr_base_version r) (wr_commit_version r) (wr_timestamp_millis r)
       (wr_statements r)"

fun is_schema_statement :: "statement \<Rightarrow> bool" where
  "is_schema_statement (CreateTable _ _ _ _) = True"
| "is_schema_statement (DropTable _ _) = True"
| "is_schema_statement (CreateIndex _ _ _ _ _) = True"
| "is_schema_statement (DropIndex _ _ _) = True"
| "is_schema_statement (AlterTable _ _) = True"
| "is_schema_statement _ = False"

section \<open>The lines of a file\<close>

definition newline :: char where
  "newline = CHR 0x0A"

definition strip_cr :: "string \<Rightarrow> string" where
  "strip_cr s = (if s \<noteq> [] \<and> last s = CHR 0x0D then butlast s else s)"

text \<open>\<open>BufRead::lines\<close>: a last line without a newline counts when it is not empty.\<close>

definition file_lines :: "string \<Rightarrow> string list" where
  "file_lines s = (let ps = split_char newline s in
     map strip_cr (butlast ps) @ (if last ps = [] then [] else [last ps]))"

definition continuation :: "nat \<Rightarrow> bool" where
  "continuation b \<longleftrightarrow> 128 \<le> b \<and> b \<le> 191"

text \<open>Well-formed UTF-8 byte sequences, which reading a line into a \<open>String\<close> asks for.\<close>

fun utf8_bytes :: "nat list \<Rightarrow> bool" where
  "utf8_bytes [] = True"
| "utf8_bytes (a # bs) =
     (if a < 128 then utf8_bytes bs
      else case bs of [] \<Rightarrow> False
      | b # cs \<Rightarrow>
          if 194 \<le> a \<and> a \<le> 223 then continuation b \<and> utf8_bytes cs
          else case cs of [] \<Rightarrow> False
          | c # ds \<Rightarrow>
              if 224 \<le> a \<and> a \<le> 239
              then (if a = 224 then 160 \<le> b \<and> b \<le> 191 else if a = 237 then 128 \<le> b \<and> b \<le> 159 else continuation b)
                 \<and> continuation c \<and> utf8_bytes ds
              else case ds of [] \<Rightarrow> False
              | d # es \<Rightarrow>
                  240 \<le> a \<and> a \<le> 244 \<and>
                  (if a = 240 then 144 \<le> b \<and> b \<le> 191 else if a = 244 then 128 \<le> b \<and> b \<le> 143 else continuation b)
                    \<and> continuation c \<and> continuation d \<and> utf8_bytes es)"

definition utf8_valid :: "string \<Rightarrow> bool" where
  "utf8_valid s = utf8_bytes (map of_char s)"

section \<open>Replay\<close>

text \<open>The message of a returned error with the text the caller puts before it.\<close>

definition context_fail :: "string \<Rightarrow> 'a res \<Rightarrow> 'a res" where
  "context_fail msg m = (case m of Inl (Fail e) \<Rightarrow> Inl (Fail (msg @ e)) | _ \<Rightarrow> m)"

definition replay_statement :: "platform \<Rightarrow> catalog \<Rightarrow> statement \<Rightarrow> catalog res" where
  "replay_statement pf cat st =
     rbind (context_fail ''Failed to replay WAL statement: '' (run pf cat st)) (\<lambda>(r, c).
       Inr (if is_schema_statement st then c\<lparr>cat_schema_version := sat_add (cat_schema_version c) 1\<rparr> else c))"

definition replay_durable :: "platform \<Rightarrow> catalog \<Rightarrow> durable_statement \<Rightarrow> catalog res" where
  "replay_durable pf cat d = (case d of
     DurableSql sql \<Rightarrow>
       rbind (context_fail ''Failed to parse WAL statement: '' (parse_sql (pf_front pf) sql)) (replay_statement pf cat)
   | DurableBound st \<Rightarrow> replay_statement pf cat st)"

definition replay_transaction ::
  "platform \<Rightarrow> catalog \<Rightarrow> nat \<Rightarrow> nat \<Rightarrow> durable_statement list \<Rightarrow> catalog res" where
  "replay_transaction pf cat base_version commit_version statements =
     (if commit_version \<le> cat_version cat then Inr cat
      else if base_version \<noteq> cat_version cat
      then Inl (Fail (''WAL version gap: catalog='' @ show_nat (cat_version cat) @ '', record base='' @
             show_nat base_version))
      else rbind (res_fold (replay_durable pf) cat statements) (\<lambda>c.
             Inr (c\<lparr>cat_version := commit_version\<rparr>)))"

definition replay_raw :: "platform \<Rightarrow> catalog \<Rightarrow> string \<Rightarrow> (catalog \<times> bool) res" where
  "replay_raw pf cat line = (case parse_sql (pf_front pf) line of
     Inr st \<Rightarrow> (case run pf cat st of
         Inr (r, c) \<Rightarrow> Inr (c\<lparr>cat_version := sat_add (cat_version c) 1,
             cat_schema_version := (if is_schema_statement st then sat_add (cat_schema_version c) 1
                                    else cat_schema_version c)\<rparr>, True)
       | Inl (Fail _) \<Rightarrow> Inr (cat, True)
       | Inl (Panic why) \<Rightarrow> Inl (Panic why))
   | Inl (Fail _) \<Rightarrow> Inr (cat, False)
   | Inl (Panic why) \<Rightarrow> Inl (Panic why))"

text \<open>One line: the catalog after it and whether the loop goes on.\<close>

definition replay_line :: "platform \<Rightarrow> catalog \<Rightarrow> string \<Rightarrow> (catalog \<times> bool) res" where
  "replay_line pf cat line =
     (if \<not> utf8_valid line then Inl (Fail ''Failed to read WAL: stream did not contain valid UTF-8'')
      else if trim line = [] then Inr (cat, True)
      else case pf_read_record pf line of
        Some r \<Rightarrow>
          if \<not> wal_record_valid pf r then Inr (cat, False)
          else rbind (replay_transaction pf cat (wr_base_version r) (wr_commit_version r) (wr_statements r))
                 (\<lambda>c. Inr (c, True))
      | None \<Rightarrow>
          (case pf_read_legacy pf line of
             Some r \<Rightarrow>
               if lw_format_version r \<noteq> 1 \<or>
                  lw_checksum r \<noteq> legacy_wal_checksum pf (lw_base_version r) (lw_commit_version r) (lw_statements r)
               then Inr (cat, False)
               else rbind (replay_transaction pf cat (lw_base_version r) (lw_commit_version r)
                      (map DurableSql (lw_statements r))) (\<lambda>c. Inr (c, True))
           | None \<Rightarrow> replay_raw pf cat line))"

fun replay_lines :: "platform \<Rightarrow> catalog \<Rightarrow> string list \<Rightarrow> catalog res" where
  "replay_lines pf cat [] = Inr cat"
| "replay_lines pf cat (l # ls) =
     rbind (replay_line pf cat l) (\<lambda>(c, more). if more then replay_lines pf c ls else Inr c)"

definition replay_wal :: "platform \<Rightarrow> string \<Rightarrow> catalog \<Rightarrow> catalog res" where
  "replay_wal pf file cat = replay_lines pf cat (file_lines file)"

section \<open>A versioned log\<close>

text \<open>
  Records that carry the version they start from and the one they lead to. A record at or
  below the state's version is skipped; one that is applied takes the state to its version.
  Replaying from a state that already holds a prefix of the log ends where replaying the
  whole log does: a snapshot and the log it was taken from never count a commit twice.
\<close>

locale version_log =
  fixes version :: "'s \<Rightarrow> nat" and commit :: "'r \<Rightarrow> nat" and apply_record :: "'s \<Rightarrow> 'r \<Rightarrow> 's res"
  assumes skip: "commit r \<le> version s \<Longrightarrow> apply_record s r = Inr s"
    and forward: "apply_record s r = Inr s' \<Longrightarrow> version s < commit r \<Longrightarrow> version s' = commit r"
begin

lemma version_after: "apply_record s r = Inr s' \<Longrightarrow> version s \<le> version s' \<and> commit r \<le> version s'"
  using skip [of r s] forward [of s r s'] by (cases "commit r \<le> version s") auto

lemma versions_after:
  "res_fold apply_record s rs = Inr s' \<Longrightarrow> version s \<le> version s' \<and> (\<forall>r \<in> set rs. commit r \<le> version s')"
proof (induction rs arbitrary: s)
  case (Cons r rs)
  then obtain s1 where "apply_record s r = Inr s1" "res_fold apply_record s1 rs = Inr s'" by (auto simp: rbind_Inr_iff)
  with Cons.IH version_after show ?case by fastforce
qed simp

lemma skip_all: "\<forall>r \<in> set rs. commit r \<le> version s \<Longrightarrow> res_fold apply_record s rs = Inr s"
  by (induction rs) (auto simp: skip)

lemma replay_from_snapshot:
  assumes "res_fold apply_record s rs = Inr snap"
  shows "res_fold apply_record snap (rs @ rest) = res_fold apply_record s (rs @ rest)"
  using assms versions_after [OF assms] by (simp add: res_fold_append skip_all)

lemma replay_filter:
  "base \<le> version s \<Longrightarrow> res_fold apply_record s (filter (\<lambda>r. base < commit r) rs) = res_fold apply_record s rs"
proof (induction rs arbitrary: s)
  case (Cons r rs)
  show ?case
  proof (cases "base < commit r")
    case True
    have "res_fold apply_record s1 (filter (\<lambda>r. base < commit r) rs) = res_fold apply_record s1 rs"
      if "apply_record s r = Inr s1" for s1
      using Cons version_after [OF that] by simp
    with True show ?thesis by (cases "apply_record s r") simp_all
  next
    case False
    with Cons skip [of r s] show ?thesis by simp
  qed
qed simp

lemma replay_twice: "res_fold apply_record s rs = Inr s' \<Longrightarrow> res_fold apply_record s' rs = Inr s'"
  using replay_from_snapshot [of s rs s' "[]"] by simp

end

definition replay_record :: "platform \<Rightarrow> catalog \<Rightarrow> wal_record \<Rightarrow> catalog res" where
  "replay_record pf cat r =
     replay_transaction pf cat (wr_base_version r) (wr_commit_version r) (wr_statements r)"

interpretation wal: version_log cat_version wr_commit_version "replay_record pf" for pf
  by unfold_locales (auto simp: replay_record_def replay_transaction_def rbind_Inr_iff split: if_splits)

section \<open>Replaying the bytes of a log\<close>

text \<open>
  What is relied on of \<open>serde_json\<close>: a record is written on one line, as a JSON object in
  UTF-8, and reads back; a proper prefix of an object is no JSON value, and no statement.
\<close>

definition json_line :: "string \<Rightarrow> bool" where
  "json_line s \<longleftrightarrow> s \<noteq> [] \<and> hd s = CHR 0x7B \<and> last s = CHR 0x7D \<and> newline \<notin> set s \<and> utf8_valid s"

definition readable :: "platform \<Rightarrow> wal_record \<Rightarrow> bool" where
  "readable pf r \<longleftrightarrow> json_line (pf_record_json pf r) \<and> pf_read_record pf (pf_record_json pf r) = Some r \<and>
     wal_record_valid pf r"

definition unreadable :: "platform \<Rightarrow> string \<Rightarrow> bool" where
  "unreadable pf s \<longleftrightarrow> utf8_valid s \<and> pf_read_record pf s = None \<and> pf_read_legacy pf s = None \<and>
     (\<exists>e. parse_sql (pf_front pf) s = Inl (Fail e))"

definition log_bytes :: "platform \<Rightarrow> wal_record list \<Rightarrow> string" where
  "log_bytes pf rs = concat (map (\<lambda>r. pf_record_json pf r @ [newline]) rs)"

lemma split_char_append: "d \<notin> set s \<Longrightarrow> split_char d (s @ d # t) = s # split_char d t"
  by (induction s) (auto split: list.splits)

lemma split_char_none: "d \<notin> set s \<Longrightarrow> split_char d s = [s]"
  by (induction s) auto

lemma split_char_nonempty [simp]: "split_char d s \<noteq> []"
  by (cases s) (auto split: list.splits)

lemma file_lines_Cons: "newline \<notin> set s \<Longrightarrow> file_lines (s @ newline # t) = strip_cr s # file_lines t"
  by (simp add: file_lines_def Let_def split_char_append)

lemma file_lines_last: "newline \<notin> set s \<Longrightarrow> file_lines s = (if s = [] then [] else [s])"
  by (simp add: file_lines_def split_char_none)

lemma json_line_props:
  assumes "json_line s" shows "strip_cr s = s" "trim s \<noteq> []" "newline \<notin> set s" "utf8_valid s"
proof -
  show "strip_cr s = s" using assms by (simp add: json_line_def strip_cr_def)
  have "trim s = s" using assms trim_core [of "[]" "[]" s] by (simp add: json_line_def is_white_def blank_def)
  then show "trim s \<noteq> []" using assms by (simp add: json_line_def)
qed (use assms in \<open>simp_all add: json_line_def\<close>)

lemma replay_line_record:
  "readable pf r \<Longrightarrow> replay_line pf cat (pf_record_json pf r) = rbind (replay_record pf cat r) (\<lambda>c. Inr (c, True))"
  using json_line_props [of "pf_record_json pf r"] by (simp add: readable_def replay_line_def replay_record_def)

lemma replay_bytes:
  assumes "\<forall>r \<in> set rs. readable pf r"
  shows "replay_wal pf (log_bytes pf rs @ tail) cat =
     rbind (res_fold (replay_record pf) cat rs) (\<lambda>c. replay_wal pf tail c)"
  using assms
proof (induction rs arbitrary: cat)
  case (Cons r rs)
  have r: "readable pf r" using Cons.prems by simp
  then have "json_line (pf_record_json pf r)" by (simp add: readable_def)
  note props = json_line_props [OF this]
  have "replay_wal pf (log_bytes pf (r # rs) @ tail) cat =
      rbind (replay_record pf cat r) (\<lambda>c. replay_wal pf (log_bytes pf rs @ tail) c)"
    using props by (simp add: replay_wal_def log_bytes_def file_lines_Cons replay_line_record [OF r] rbind_assoc)
  also have "\<dots> = rbind (replay_record pf cat r) (\<lambda>c. rbind (res_fold (replay_record pf) c rs) (\<lambda>c. replay_wal pf tail c))"
    using Cons by (intro rbind_cong) simp_all
  finally show ?case by (simp add: rbind_assoc)
qed (simp add: log_bytes_def)

lemma replay_written: "\<forall>r \<in> set rs. readable pf r \<Longrightarrow> replay_wal pf (log_bytes pf rs) cat = res_fold (replay_record pf) cat rs"
  using replay_bytes [of rs pf "[]" cat] by (simp add: replay_wal_def file_lines_def)

text \<open>An unfinished last record is ignored, as long as it was not cut inside a character.\<close>

lemma replay_torn:
  assumes "\<forall>r \<in> set rs. readable pf r" "newline \<notin> set torn" "unreadable pf torn"
  shows "replay_wal pf (log_bytes pf rs @ torn) cat = res_fold (replay_record pf) cat rs"
proof -
  obtain e where e: "parse_sql (pf_front pf) torn = Inl (Fail e)" using assms(3) by (auto simp: unreadable_def)
  have "replay_wal pf torn c = Inr c" for c
    using assms(2,3) e
    by (auto simp: replay_wal_def file_lines_last unreadable_def replay_line_def replay_raw_def)
  then show ?thesis using replay_bytes [OF assms(1), of torn cat] by simp
qed

text \<open>Cut inside a character, it stops the database from opening.\<close>

lemma replay_torn_utf8:
  assumes "\<forall>r \<in> set rs. readable pf r" "newline \<notin> set torn" "torn \<noteq> []" "\<not> utf8_valid torn"
    and "res_fold (replay_record pf) cat rs = Inr c"
  shows "replay_wal pf (log_bytes pf rs @ torn) cat =
     Inl (Fail ''Failed to read WAL: stream did not contain valid UTF-8'')"
proof -
  have "replay_wal pf torn c = Inl (Fail ''Failed to read WAL: stream did not contain valid UTF-8'')"
    using assms(2-4) by (simp add: replay_wal_def file_lines_last replay_line_def)
  then show ?thesis using replay_bytes [OF assms(1), of torn cat] assms(5) by simp
qed

text \<open>
  Records written after an unfinished one land on its line, or after a line that stops the
  replay: they are lost.
\<close>

lemma replay_after_torn:
  assumes "\<forall>r \<in> set rs. readable pf r" "newline \<notin> set torn" "json_line (pf_record_json pf r)"
    and "unreadable pf (torn @ pf_record_json pf r)"
  shows "replay_wal pf ((log_bytes pf rs @ torn) @ log_bytes pf [r] @ rest) cat = res_fold (replay_record pf) cat rs"
proof -
  let ?l = "torn @ pf_record_json pf r"
  note props = json_line_props [OF assms(3)]
  obtain e where e: "parse_sql (pf_front pf) ?l = Inl (Fail e)" using assms(4) by (auto simp: unreadable_def)
  have nl: "newline \<notin> set ?l" using assms(2) props by simp
  have "strip_cr ?l = ?l" using assms(3) by (simp add: strip_cr_def json_line_def)
  then have lines: "file_lines (?l @ newline # rest) = ?l # file_lines rest" by (simp only: file_lines_Cons [OF nl])
  have "CHR 0x7D \<in> set ?l" using assms(3) last_in_set [of "pf_record_json pf r"] by (simp add: json_line_def)
  moreover have "\<not> is_white (CHR 0x7D)" by (simp add: is_white_def)
  ultimately have white: "trim ?l \<noteq> []" unfolding trim_empty_iff blank_def by blast
  have "replay_wal pf (?l @ newline # rest) c = Inr c" for c
    using assms(4) e white unfolding replay_wal_def lines
    by (auto simp: unreadable_def replay_line_def replay_raw_def)
  then show ?thesis using replay_bytes [OF assms(1), of "?l @ newline # rest" cat] by (simp add: log_bytes_def)
qed

end
