(* ===== verification/Lock.thy ===== *)
theory Lock
  imports Rdb_Prelude
begin

text \<open>
  The lock of a data directory, \<^verbatim>\<open>src/src/lock.rs\<close>: each engine holds an exclusive lock on a
  file of its own while it is open. The lemmas show that a held lock refuses a second
  engine and leaves the other engine's alone.
\<close>

datatype lock_io = LockOk | LockDirFailed | LockOpenFailed

text \<open>\<open>PathBuf::join\<close> with a relative name; \<open>held\<close> are the lock files on which some process holds an exclusive lock.\<close>

definition path_join :: "string \<Rightarrow> string \<Rightarrow> string" where
  "path_join dir name = (if dir = [] \<or> last dir = CHR ''/'' then dir @ name else dir @ ''/'' @ name)"

definition lock_path :: "string \<Rightarrow> string \<Rightarrow> string" where
  "lock_path data_dir engine = path_join data_dir (''.'' @ engine @ ''.lock'')"

definition lock_acquire ::
  "lock_io \<Rightarrow> string \<Rightarrow> string set \<Rightarrow> string \<Rightarrow> string \<Rightarrow> string set res" where
  "lock_acquire os err held data_dir engine = (case os of
     LockDirFailed \<Rightarrow> Inl (Fail (''Failed to create data directory: '' @ err))
   | LockOpenFailed \<Rightarrow> Inl (Fail (''Failed to open '' @ lock_path data_dir engine @ '' lock: '' @ err))
   | LockOk \<Rightarrow>
       if lock_path data_dir engine \<in> held
       then Inl (Fail (''The '' @ engine @ '' engine is active in data directory '' @ quoted data_dir))
       else Inr (insert (lock_path data_dir engine) held))"

definition lock_drop :: "string set \<Rightarrow> string \<Rightarrow> string \<Rightarrow> string set" where
  "lock_drop held data_dir engine = held - {lock_path data_dir engine}"

text \<open>How far opening an engine gets.\<close>

datatype open_io = OpenOk | OpenDirFailed | OpenLockFailed lock_io | OpenWalFailed

definition lock_result :: "open_io \<Rightarrow> lock_io" where
  "lock_result os = (case os of OpenLockFailed l \<Rightarrow> l | _ \<Rightarrow> LockOk)"

lemma lock_acquire_Inr_iff:
  "lock_acquire os err held data_dir engine = Inr held' \<longleftrightarrow>
     os = LockOk \<and> lock_path data_dir engine \<notin> held \<and> held' = insert (lock_path data_dir engine) held"
  by (auto simp: lock_acquire_def split: lock_io.splits)

lemma lock_exclusive:
  "lock_acquire os err held data_dir engine = Inr held' \<Longrightarrow> lock_acquire os' err' held' data_dir engine \<noteq> Inr held''"
  by (simp add: lock_acquire_Inr_iff)

lemma lock_released:
  "lock_acquire os err held data_dir engine = Inr held' \<Longrightarrow> lock_drop held' data_dir engine = held"
  by (auto simp: lock_acquire_Inr_iff lock_drop_def)

lemma engines_independent:
  "lock_acquire LockOk err held data_dir ''sql'' = Inr held' \<Longrightarrow> lock_path data_dir ''kv'' \<notin> held \<Longrightarrow>
   \<exists>held''. lock_acquire LockOk err held' data_dir ''kv'' = Inr held''"
  by (auto simp: lock_acquire_Inr_iff lock_path_def path_join_def)

end
