(* ===== verification/Database.thy ===== *)
theory Database
  imports WalLog Lock
begin

text \<open>
  The database of \<^verbatim>\<open>src/src/sql/database.rs\<close> (lines 20 to 79, 230 to 427 and 527 to 662): opening a data
  directory, statements in autocommit mode, the write-ahead log and the snapshot. The state
  holds the shared catalog, the plan cache, whether the log file is open, and the bytes on
  disk; the outcome of the file operations is an argument, so that every early return is a
  branch. The lemmas show what a statement leaves in memory and on disk on every branch.
\<close>

section \<open>State\<close>

definition catalog_format_version :: nat where
  "catalog_format_version = 1"

record sql_options =
  opt_plan_cache_capacity :: nat
  opt_memory_pool_capacity :: nat
  opt_bloom_false_positive_rate :: f64

definition options_default :: sql_options where
  "options_default = \<lparr>opt_plan_cache_capacity = 256, opt_memory_pool_capacity = 32,
     opt_bloom_false_positive_rate = default_bloom_false_positive_rate\<rparr>"

text \<open>The data directory: \<open>sql_wal.log\<close>, \<open>catalog.json\<close>, its temporary, the archived logs and \<open>tables/\<close>.\<close>

record disk =
  disk_wal :: "string option"
  disk_catalog :: "string option"
  disk_catalog_tmp :: "string option"
  disk_archive :: "(string \<times> string) list"
  disk_tables :: "(string \<times> string) list option"

definition disk_empty :: disk where
  "disk_empty = \<lparr>disk_wal = None, disk_catalog = None, disk_catalog_tmp = None, disk_archive = [], disk_tables = None\<rparr>"

record database =
  db_catalog :: catalog
  db_auto_save :: bool
  db_options :: sql_options
  db_wal_open :: bool
  db_cache :: plan_cache
  db_disk :: disk

text \<open>
  What the operating system does: the clock, the text of an error, and where an append to
  the log or the publication of a snapshot fails, with the number of bytes written so far.
\<close>

datatype log_io = LogOk | LogWriteFailed nat | LogSyncFailed

datatype save_io =
    SaveOk | SnapshotCreateFailed | SnapshotWriteFailed nat | SnapshotSyncFailed | SnapshotRenameFailed
  | ArchiveDirFailed | ArchiveRenameFailed | ReopenFailed

record io =
  io_now :: nat
  io_error :: string
  io_log :: log_io
  io_save :: save_io

section \<open>Opening\<close>

definition database_with_options :: "sql_options \<Rightarrow> database" where
  "database_with_options opts = \<lparr>db_catalog = catalog_default, db_auto_save = False, db_options = opts,
     db_wal_open = False, db_cache = plan_cache_new (opt_plan_cache_capacity opts), db_disk = disk_empty\<rparr>"

definition has_json_extension :: "string \<Rightarrow> bool" where
  "has_json_extension name \<longleftrightarrow> 5 < length name \<and> drop (length name - 5) name = ''.json''"

definition read_to_string :: "string \<Rightarrow> string \<Rightarrow> string res" where
  "read_to_string msg s = (if utf8_valid s then Inr s else Inl (Fail (msg @ ''stream did not contain valid UTF-8'')))"

definition load_legacy_table :: "platform \<Rightarrow> (string, table) hmap \<Rightarrow> string \<times> string \<Rightarrow> (string, table) hmap res" where
  "load_legacy_table pf tables f =
     (if \<not> has_json_extension (fst f) then Inr tables
      else rbind (read_to_string ''Failed to read table file: '' (snd f)) (\<lambda>content.
        rbind (context_fail ''Failed to parse legacy table: '' (pf_read_table pf content)) (\<lambda>p.
          let t = (table_new (pf_ln pf) (pt_schema p))\<lparr>tb_rows := pt_rows p\<rparr>
          in Inr (AList.update (sch_name (pt_schema p)) (migrate_legacy_rows (pf_ln pf) t) tables))))"

definition load_catalog :: "platform \<Rightarrow> disk \<Rightarrow> catalog res" where
  "load_catalog pf d = (case disk_catalog d of
     Some bytes \<Rightarrow>
       rbind (read_to_string ''Failed to read catalog: '' bytes) (\<lambda>content.
         rbind (context_fail ''Failed to parse catalog: '' (pf_read_catalog pf content)) (\<lambda>s.
           if cs_format_version s \<noteq> catalog_format_version
           then Inl (Fail (''Unsupported catalog format '' @ show_nat (cs_format_version s)))
           else Inr ((catalog_from_tables (pf_ln pf) (cs_tables s))
                  \<lparr>cat_version := cs_catalog_version s, cat_schema_version := cs_schema_version s\<rparr>)))
   | None \<Rightarrow>
       (case disk_tables d of
          None \<Rightarrow> Inr (catalog_from_tables (pf_ln pf) [])
        | Some files \<Rightarrow>
            rbind (res_fold (load_legacy_table pf) [] files) (\<lambda>tables.
              Inr (catalog_from_tables (pf_ln pf) tables))))"

text \<open>The catalog the files of the data directory stand for.\<close>

definition recover :: "platform \<Rightarrow> disk \<Rightarrow> catalog res" where
  "recover pf d = rbind (load_catalog pf d) (\<lambda>cat.
     case disk_wal d of None \<Rightarrow> Inr cat | Some file \<Rightarrow> replay_wal pf file cat)"

text \<open>\<open>open_with_options\<close> behind the lock, and with the creation of the directory, the lock and the log file.\<close>

definition open_files :: "platform \<Rightarrow> disk \<Rightarrow> sql_options \<Rightarrow> database res" where
  "open_files pf d opts = rbind (recover pf d) (\<lambda>cat.
     Inr \<lparr>db_catalog = configure_bloom_false_positive_rate (pf_ln pf) cat (opt_bloom_false_positive_rate opts),
          db_auto_save = True, db_options = opts, db_wal_open = True,
          db_cache = plan_cache_new (opt_plan_cache_capacity opts),
          db_disk = d\<lparr>disk_wal := Some (case disk_wal d of None \<Rightarrow> [] | Some file \<Rightarrow> file)\<rparr>\<rparr>)"

definition open_with_options ::
  "platform \<Rightarrow> open_io \<Rightarrow> string \<Rightarrow> string set \<Rightarrow> string \<Rightarrow> disk \<Rightarrow> sql_options \<Rightarrow> (database \<times> string set) res" where
  "open_with_options pf os err held data_dir d opts =
     (if os = OpenDirFailed then Inl (Fail (''Failed to create data directory: '' @ err))
      else rbind (lock_acquire (lock_result os) err held data_dir ''sql'') (\<lambda>held'.
        rbind (open_files pf d opts) (\<lambda>db.
          if os = OpenWalFailed then Inl (Fail (''Failed to open WAL: '' @ err)) else Inr (db, held'))))"

lemma open_with_options_ok:
  "lock_path data_dir ''sql'' \<notin> held \<Longrightarrow> open_files pf d opts = Inr db \<Longrightarrow>
   open_with_options pf OpenOk err held data_dir d opts = Inr (db, insert (lock_path data_dir ''sql'') held)"
  by (simp add: open_with_options_def lock_acquire_def lock_result_def)

section \<open>Snapshots\<close>

definition wal_bytes :: "disk \<Rightarrow> string" where
  "wal_bytes d = (case disk_wal d of None \<Rightarrow> [] | Some file \<Rightarrow> file)"

definition catalog_snapshot_of :: "nat \<Rightarrow> catalog \<Rightarrow> catalog_snapshot" where
  "catalog_snapshot_of now cat =
     \<lparr>cs_format_version = catalog_format_version, cs_catalog_version = cat_version cat,
      cs_schema_version = cat_schema_version cat, cs_timestamp_millis = now, cs_tables = cat_tables cat\<rparr>"

definition archive_name :: "nat \<Rightarrow> nat \<Rightarrow> string" where
  "archive_name version now = ''sql-'' @ show_nat version @ ''-'' @ show_nat now @ ''.wal''"

text \<open>The second half of \<open>save\<close>: the log is closed, moved to the archive and opened anew.\<close>

definition rotate_wal :: "io \<Rightarrow> database \<Rightarrow> unit res \<times> database" where
  "rotate_wal os db =
     (let db1 = db\<lparr>db_wal_open := False\<rparr>;
          d = db_disk db;
          archived = d\<lparr>disk_wal := None, disk_archive := disk_archive d @
            [(archive_name (cat_version (db_catalog db)) (io_now os), wal_bytes d)]\<rparr>;
          d1 = (if wal_bytes d = [] then d else archived)
      in if wal_bytes d \<noteq> [] \<and> io_save os = ArchiveDirFailed
         then (Inl (Fail (''Failed to create SQL WAL archive: '' @ io_error os)), db1)
         else if wal_bytes d \<noteq> [] \<and> io_save os = ArchiveRenameFailed
         then (Inl (Fail (''Failed to archive SQL WAL: '' @ io_error os)), db1)
         else if io_save os = ReopenFailed
         then (Inl (Fail (''Failed to reopen WAL: '' @ io_error os)), db1\<lparr>db_disk := d1\<rparr>)
         else (Inr (), db1\<lparr>db_wal_open := True, db_disk := d1\<lparr>disk_wal := Some (wal_bytes d1)\<rparr>\<rparr>))"

definition save :: "platform \<Rightarrow> io \<Rightarrow> database \<Rightarrow> unit res \<times> database" where
  "save pf os db =
     (if \<not> db_auto_save db then (Inr (), db)
      else let encoded = pf_catalog_json pf (catalog_snapshot_of (io_now os) (db_catalog db));
               d = db_disk db;
               with_tmp = (\<lambda>bytes. db\<lparr>db_disk := d\<lparr>disk_catalog_tmp := Some bytes\<rparr>\<rparr>)
           in case io_save os of
                SnapshotCreateFailed \<Rightarrow> (Inl (Fail (''Failed to create catalog snapshot: '' @ io_error os)), db)
              | SnapshotWriteFailed n \<Rightarrow>
                  (Inl (Fail (''Failed to write catalog snapshot: '' @ io_error os)), with_tmp (take n encoded))
              | SnapshotSyncFailed \<Rightarrow>
                  (Inl (Fail (''Failed to sync catalog snapshot: '' @ io_error os)), with_tmp encoded)
              | SnapshotRenameFailed \<Rightarrow>
                  (Inl (Fail (''Failed to publish catalog snapshot: '' @ io_error os)), with_tmp encoded)
              | _ \<Rightarrow>
                  let db1 = db\<lparr>db_disk := d\<lparr>disk_catalog := Some encoded, disk_catalog_tmp := None\<rparr>\<rparr>
                  in if db_wal_open db1 then rotate_wal os db1 else (Inr (), db1))"

section \<open>Statements in autocommit mode\<close>

definition log_transaction ::
  "platform \<Rightarrow> io \<Rightarrow> database \<Rightarrow> nat \<Rightarrow> nat \<Rightarrow> durable_statement list \<Rightarrow> unit res \<times> database" where
  "log_transaction pf os db base_version commit_version statements =
     (let record_bytes = pf_record_json pf (wal_record_new pf (io_now os) base_version commit_version statements) @ [newline];
          append = (\<lambda>bytes. db\<lparr>db_disk := (db_disk db)\<lparr>disk_wal := Some (wal_bytes (db_disk db) @ bytes)\<rparr>\<rparr>)
      in if \<not> db_wal_open db then (Inr (), db)
         else case io_log os of
           LogOk \<Rightarrow> (Inr (), append record_bytes)
         | LogWriteFailed n \<Rightarrow> (Inl (Fail (''Failed to write WAL: '' @ io_error os)), append (take n record_bytes))
         | LogSyncFailed \<Rightarrow> (Inl (Fail (''Failed to sync WAL: '' @ io_error os)), append record_bytes))"

text \<open>The catalog a commit publishes: filters as configured, versions advanced.\<close>

definition published :: "platform \<Rightarrow> database \<Rightarrow> catalog \<Rightarrow> bool \<Rightarrow> catalog" where
  "published pf db working schema_changed =
     (configure_bloom_false_positive_rate (pf_ln pf) working (opt_bloom_false_positive_rate (db_options db)))
       \<lparr>cat_schema_version := (if schema_changed then sat_add (cat_schema_version (db_catalog db)) 1
                               else cat_schema_version (db_catalog db)),
        cat_version := sat_add (cat_version (db_catalog db)) 1\<rparr>"

definition execute_autocommit_durable ::
  "platform \<Rightarrow> io \<Rightarrow> database \<Rightarrow> durable_statement \<Rightarrow> statement \<Rightarrow> (execution_result \<times> database) res" where
  "execute_autocommit_durable pf os db durable st =
     (case run pf (db_catalog db) st of
        Inl (Panic why) \<Rightarrow> Inl (Panic why)
      | Inl (Fail e) \<Rightarrow> Inr (RError e, db)
      | Inr (r, working) \<Rightarrow>
          if \<not> is_write_statement st then Inr (r, db)
          else
            let schema = is_schema_statement st;
                new = published pf db working schema
            in case log_transaction pf os db (cat_version (db_catalog db)) (cat_version new) [durable] of
                 (Inl (Fail e), db1) \<Rightarrow> Inr (RError (''WAL error: '' @ e), db1)
               | (Inl (Panic why), db1) \<Rightarrow> Inl (Panic why)
               | (Inr _, db1) \<Rightarrow>
                   let db2 = db1\<lparr>db_catalog := new\<rparr>
                   in if schema \<and> db_auto_save db2
                      then case save pf os db2 of
                             (Inl (Fail e), db3) \<Rightarrow> Inr (RError (''Statement committed but snapshot failed: '' @ e), db3)
                           | (Inl (Panic why), db3) \<Rightarrow> Inl (Panic why)
                           | (Inr _, db3) \<Rightarrow> Inr (r, db3)
                      else Inr (r, db2))"

definition db_parse_cached :: "platform \<Rightarrow> database \<Rightarrow> string \<Rightarrow> statement res \<times> database" where
  "db_parse_cached pf db sql =
     (let (r, c) = parse_cached (pf_front pf) (db_cache db) (cat_schema_version (db_catalog db)) sql
      in (r, db\<lparr>db_cache := c\<rparr>))"

fun is_session_statement :: "statement \<Rightarrow> bool" where
  "is_session_statement (SetVariable _ _) = True"
| "is_session_statement (Prepare _ _) = True"
| "is_session_statement (ExecutePrepared _ _) = True"
| "is_session_statement (DeallocatePrepared _) = True"
| "is_session_statement _ = False"

definition database_execute :: "platform \<Rightarrow> io \<Rightarrow> database \<Rightarrow> string \<Rightarrow> (execution_result \<times> database) res" where
  "database_execute pf os db sql =
     (case db_parse_cached pf db sql of
        (Inl (Panic why), db1) \<Rightarrow> Inl (Panic why)
      | (Inl (Fail e), db1) \<Rightarrow> Inr (RError e, db1)
      | (Inr st, db1) \<Rightarrow>
          if is_transaction_control st
          then Inr (RError ''BEGIN/COMMIT/ROLLBACK require SQLDatabase::session()'', db1)
          else if is_session_statement st
          then Inr (RError ''Prepared statements and user variables require SQLDatabase::session()'', db1)
          else execute_autocommit_durable pf os db1 (DurableSql (trim sql)) st)"

definition list_tables :: "database \<Rightarrow> string list" where
  "list_tables db = sort (map fst (cat_tables (db_catalog db)))"

definition table_row_count :: "database \<Rightarrow> string \<Rightarrow> nat option" where
  "table_row_count db name =
     map_option (\<lambda>t. length (tb_rows t)) (map_of (cat_tables (db_catalog db)) (to_ascii_lowercase name))"

end
