(* ===== verification/Session.thy ===== *)
theory Session
  imports Database
begin

text \<open>
  Connections of \<^verbatim>\<open>src/src/sql/database.rs\<close> (lines 304 to 312, 399 to 405, 673 to 1063 and 1086 to 1094): user
  variables, prepared statements and optimistic transactions. A transaction works on a
  copy of the catalog and commits when the catalog's version has not moved. The lemmas show
  that a commit has the effect of its statements on the current catalog, that a conflict and
  a rollback change nothing, and, over every interleaving of sessions, that transactions are
  serialisable.
\<close>

section \<open>State\<close>

record transaction_state =
  tx_base_version :: nat
  tx_catalog :: catalog
  tx_statements :: "durable_statement list"
  tx_schema_changed :: bool

record prepared_statement =
  ps_sql :: string
  ps_statement :: statement
  ps_parameter_count :: nat
  ps_schema_version :: nat

record session =
  ss_transaction :: "transaction_state option"
  ss_variables :: "(string, val) hmap"
  ss_prepared :: "(string, prepared_statement) hmap"

definition session_new :: session where
  "session_new = \<lparr>ss_transaction = None, ss_variables = [], ss_prepared = []\<rparr>"

type_synonym step_result = "(execution_result \<times> database \<times> session) res"

section \<open>Transactions\<close>

definition session_begin :: "database \<Rightarrow> session \<Rightarrow> execution_result \<times> database \<times> session" where
  "session_begin db ss = (case ss_transaction ss of
     Some _ \<Rightarrow> (RError ''A transaction is already active'', db, ss)
   | None \<Rightarrow> (TransactionStarted, db,
       ss\<lparr>ss_transaction := Some \<lparr>tx_base_version = cat_version (db_catalog db), tx_catalog = db_catalog db,
          tx_statements = [], tx_schema_changed = False\<rparr>\<rparr>))"

definition session_rollback :: "database \<Rightarrow> session \<Rightarrow> execution_result \<times> database \<times> session" where
  "session_rollback db ss = (TransactionRolledBack, db, ss\<lparr>ss_transaction := None\<rparr>)"

definition conflict_message :: "nat \<Rightarrow> nat \<Rightarrow> string" where
  "conflict_message base current = ''Serialization conflict: transaction snapshot version '' @ show_nat base @
     '', current version '' @ show_nat current"

text \<open>A commit whose log record could not be written keeps the transaction, with the catalog it would publish.\<close>

definition session_commit :: "platform \<Rightarrow> io \<Rightarrow> database \<Rightarrow> session \<Rightarrow> execution_result \<times> database \<times> session" where
  "session_commit pf os db ss = (case ss_transaction ss of
     None \<Rightarrow> (TransactionCommitted, db, ss)
   | Some tx \<Rightarrow>
       let ended = ss\<lparr>ss_transaction := None\<rparr>; cat = db_catalog db in
       if cat_version cat \<noteq> tx_base_version tx
       then (RError (conflict_message (tx_base_version tx) (cat_version cat)), db, ended)
       else if tx_statements tx = [] then (TransactionCommitted, db, ended)
       else let new = published pf db (tx_catalog tx) (tx_schema_changed tx) in
         case log_transaction pf os db (tx_base_version tx) (cat_version new) (tx_statements tx) of
           (Inl err, db1) \<Rightarrow>
             (RError (''WAL error: '' @ (case err of Fail e \<Rightarrow> e | Panic e \<Rightarrow> e)), db1,
              ss\<lparr>ss_transaction := Some (tx\<lparr>tx_catalog := new\<rparr>)\<rparr>)
         | (Inr _, db1) \<Rightarrow>
             (TransactionCommitted,
              db1\<lparr>db_catalog := new,
                  db_cache := (if tx_schema_changed tx then plan_cache_clear (db_cache db1) else db_cache db1)\<rparr>,
              ended))"

text \<open>A statement inside or outside a transaction, and what is logged for it.\<close>

definition execute_in :: "platform \<Rightarrow> io \<Rightarrow> database \<Rightarrow> session \<Rightarrow> durable_statement \<Rightarrow> statement \<Rightarrow> step_result" where
  "execute_in pf os db ss durable st = (case ss_transaction ss of
     Some tx \<Rightarrow>
       (case run pf (tx_catalog tx) st of
          Inl (Panic why) \<Rightarrow> Inl (Panic why)
        | Inl (Fail e) \<Rightarrow> Inr (RError e, db, ss)
        | Inr (r, c) \<Rightarrow>
            let tx1 = tx\<lparr>tx_catalog := c\<rparr>;
                tx2 = (if is_write_statement st
                       then tx1\<lparr>tx_statements := tx_statements tx @ [durable],
                                tx_schema_changed := tx_schema_changed tx \<or> is_schema_statement st\<rparr>
                       else tx1)
            in Inr (r, db, ss\<lparr>ss_transaction := Some tx2\<rparr>))
   | None \<Rightarrow>
       rbind (execute_autocommit_durable pf os db durable st) (\<lambda>(r, db1). Inr (r, db1, ss)))"

section \<open>Prepared statements\<close>

definition session_prepare :: "platform \<Rightarrow> database \<Rightarrow> string \<Rightarrow> prepared_statement res \<times> database" where
  "session_prepare pf db sql = (case db_parse_cached pf db sql of
     (Inl e, db1) \<Rightarrow> (Inl e, db1)
   | (Inr st, db1) \<Rightarrow>
       if is_transaction_control st \<or> is_session_statement st
       then (Inl (Fail ''Transaction/session control statements cannot be prepared''), db1)
       else (Inr \<lparr>ps_sql = trim sql, ps_statement = st, ps_parameter_count = parameter_count st,
                  ps_schema_version = cat_schema_version (db_catalog db1)\<rparr>, db1))"

definition current_statement :: "platform \<Rightarrow> database \<Rightarrow> prepared_statement \<Rightarrow> statement res \<times> database" where
  "current_statement pf db p =
     (if cat_schema_version (db_catalog db) = ps_schema_version p then (Inr (ps_statement p), db)
      else db_parse_cached pf db (ps_sql p))"

definition session_execute_prepared ::
  "platform \<Rightarrow> io \<Rightarrow> database \<Rightarrow> session \<Rightarrow> prepared_statement \<Rightarrow> val list \<Rightarrow> step_result" where
  "session_execute_prepared pf os db ss p vs = (case current_statement pf db p of
     (r, db1) \<Rightarrow>
       (case rbind (rbind r (\<lambda>st. bind_parameters st vs)) optimize_statement of
          Inl (Panic why) \<Rightarrow> Inl (Panic why)
        | Inl (Fail e) \<Rightarrow> Inr (RError e, db1, ss)
        | Inr st \<Rightarrow> execute_in pf os db1 ss (DurableBound st) st))"

section \<open>One statement of a session\<close>

definition variable_not_set :: "string \<Rightarrow> string" where
  "variable_not_set name = ''User variable '' @ quoted (CHR ''@'' # name) @ '' is not set''"

definition prepared_missing :: "string \<Rightarrow> string" where
  "prepared_missing name = ''Prepared statement '' @ quoted name @ '' does not exist''"

definition prepare_text :: "session \<Rightarrow> prepare_source \<Rightarrow> string res" where
  "prepare_text ss source = (case source of
     PrepareSql sql \<Rightarrow> Inr sql
   | PrepareVariable name \<Rightarrow>
       (case map_of (ss_variables ss) name of
          Some (VText sql) \<Rightarrow> Inr sql
        | Some _ \<Rightarrow> Inl (Fail (''User variable '' @ quoted (CHR ''@'' # name) @ '' must contain SQL text''))
        | None \<Rightarrow> Inl (Fail (variable_not_set name))))"

definition session_prepare_named ::
  "platform \<Rightarrow> database \<Rightarrow> session \<Rightarrow> string \<Rightarrow> prepare_source \<Rightarrow> step_result" where
  "session_prepare_named pf db ss name source = (case prepare_text ss source of
     Inl (Panic why) \<Rightarrow> Inl (Panic why)
   | Inl (Fail e) \<Rightarrow> Inr (RError e, db, ss)
   | Inr sql \<Rightarrow>
       (case session_prepare pf db sql of
          (Inl (Panic why), db1) \<Rightarrow> Inl (Panic why)
        | (Inl (Fail e), db1) \<Rightarrow> Inr (RError e, db1, ss)
        | (Inr p, db1) \<Rightarrow> Inr (RowsAffected 0, db1, ss\<lparr>ss_prepared := AList.update name p (ss_prepared ss)\<rparr>)))"

definition session_execute_named ::
  "platform \<Rightarrow> io \<Rightarrow> database \<Rightarrow> session \<Rightarrow> string \<Rightarrow> string list \<Rightarrow> step_result" where
  "session_execute_named pf os db ss name names = (case map_of (ss_prepared ss) name of
     None \<Rightarrow> Inr (RError (prepared_missing name), db, ss)
   | Some p \<Rightarrow>
       (case res_map (\<lambda>v. ok_or (map_of (ss_variables ss) v) (variable_not_set v)) names of
          Inl (Panic why) \<Rightarrow> Inl (Panic why)
        | Inl (Fail e) \<Rightarrow> Inr (RError e, db, ss)
        | Inr vs \<Rightarrow> session_execute_prepared pf os db ss p vs))"

definition session_deallocate :: "database \<Rightarrow> session \<Rightarrow> string \<Rightarrow> execution_result \<times> database \<times> session" where
  "session_deallocate db ss name =
     (if map_of (ss_prepared ss) name \<noteq> None
      then (RowsAffected 0, db, ss\<lparr>ss_prepared := AList.delete name (ss_prepared ss)\<rparr>)
      else (RError (prepared_missing name), db, ss))"

definition session_execute :: "platform \<Rightarrow> io \<Rightarrow> database \<Rightarrow> session \<Rightarrow> string \<Rightarrow> step_result" where
  "session_execute pf os db ss sql = (case db_parse_cached pf db sql of
     (Inl (Panic why), db1) \<Rightarrow> Inl (Panic why)
   | (Inl (Fail e), db1) \<Rightarrow> Inr (RError e, db1, ss)
   | (Inr st, db1) \<Rightarrow>
       (case st of
          Begin \<Rightarrow> Inr (session_begin db1 ss)
        | Commit \<Rightarrow> Inr (session_commit pf os db1 ss)
        | Rollback \<Rightarrow> Inr (session_rollback db1 ss)
        | SetVariable name v \<Rightarrow>
            Inr (RowsAffected 0, db1, ss\<lparr>ss_variables := AList.update name v (ss_variables ss)\<rparr>)
        | Prepare name source \<Rightarrow> session_prepare_named pf db1 ss name source
        | ExecutePrepared name names \<Rightarrow> session_execute_named pf os db1 ss name names
        | DeallocatePrepared name \<Rightarrow> Inr (session_deallocate db1 ss name)
        | _ \<Rightarrow> execute_in pf os db1 ss (DurableSql (trim sql)) st))"

section \<open>Batches\<close>

definition split_statements :: "string \<Rightarrow> string list" where
  "split_statements sql = filter (\<lambda>s. s \<noteq> []) (map trim (split_char CHR '';'' sql))"

fun run_batch :: "platform \<Rightarrow> io list \<Rightarrow> database \<Rightarrow> session \<Rightarrow> string list \<Rightarrow> (execution_result list \<times> database) res" where
  "run_batch pf (os # oss) db ss (sql # sqls) =
     rbind (session_execute pf os db ss sql) (\<lambda>(r, db1, ss1).
       rbind (run_batch pf oss db1 ss1 sqls) (\<lambda>(rs, db2). Inr (r # rs, db2)))"
| "run_batch pf oss db ss sqls = Inr ([], db)"

text \<open>\<open>execute_batch\<close>, with one outcome of the file operations per statement.\<close>

definition execute_batch :: "platform \<Rightarrow> (nat \<Rightarrow> io) \<Rightarrow> database \<Rightarrow> string \<Rightarrow> (execution_result list \<times> database) res" where
  "execute_batch pf os db sql =
     (let sqls = split_statements sql in run_batch pf (map os [0..<length sqls]) db session_new sqls)"

section \<open>The result columns of a prepared statement\<close>

fun prepared_expression_type :: "expr \<Rightarrow> table option \<Rightarrow> data_type" where
  "prepared_expression_type (Literal v) t = data_type_of v"
| "prepared_expression_type (Column q name) t =
     (case Option.bind t (\<lambda>t. schema_column (tb_schema t) name) of
        Some c \<Rightarrow> col_data_type c | None \<Rightarrow> DText)"
| "prepared_expression_type (Binary l op r) t =
     (if op = BAdd \<or> op = BSubtract \<or> op = BMultiply \<or> op = BDivide
      then (case (prepared_expression_type l t, prepared_expression_type r t) of
              (DFloat, _) \<Rightarrow> DFloat
            | (_, DFloat) \<Rightarrow> DFloat
            | (DInteger, DInteger) \<Rightarrow> DInteger
            | (DNull, d) \<Rightarrow> d
            | (d, DNull) \<Rightarrow> d
            | _ \<Rightarrow> DText)
      else DBoolean)"
| "prepared_expression_type (Unary op e) t = (if op = UNot then DBoolean else prepared_expression_type e t)"
| "prepared_expression_type (IsNull _ _) t = DBoolean"
| "prepared_expression_type (Like _ _ _) t = DBoolean"
| "prepared_expression_type (InList _ _ _) t = DBoolean"
| "prepared_expression_type (InSubquery _ _ _) t = DBoolean"
| "prepared_expression_type (Exists _ _) t = DBoolean"
| "prepared_expression_type (Aggregate func e d) t =
     (case func of AggCount \<Rightarrow> DInteger | AggAvg \<Rightarrow> DFloat
      | _ \<Rightarrow> (case e of None \<Rightarrow> DText | Some x \<Rightarrow> prepared_expression_type x t))"
| "prepared_expression_type _ t = DText"

fun aggregate_name :: "aggregate_function \<Rightarrow> string" where
  "aggregate_name AggCount = ''count''"
| "aggregate_name AggSum = ''sum''"
| "aggregate_name AggAvg = ''avg''"
| "aggregate_name AggMax = ''max''"
| "aggregate_name AggMin = ''min''"

definition item_metadata :: "(table \<times> string) option \<Rightarrow> select_item \<Rightarrow> (string \<times> data_type) list" where
  "item_metadata source item = (case item of
     Wildcard qualifier \<Rightarrow>
       (case source of
          Some (t, visible_name) \<Rightarrow>
            if (case qualifier of None \<Rightarrow> True | Some n \<Rightarrow> eq_ignore_ascii_case n visible_name)
            then map (\<lambda>c. (col_name c, col_data_type c)) (sch_columns (tb_schema t)) else []
        | None \<Rightarrow> [])
   | SelectExpr e shown \<Rightarrow>
       [(case shown of Some n \<Rightarrow> n
         | None \<Rightarrow> (case e of Column _ name \<Rightarrow> name | Aggregate func _ _ \<Rightarrow> aggregate_name func | _ \<Rightarrow> ''expression''),
         prepared_expression_type e (map_option fst source))])"

definition prepared_result_metadata ::
  "database \<Rightarrow> prepared_statement \<Rightarrow> val list option \<Rightarrow> (string \<times> data_type) list" where
  "prepared_result_metadata db p values =
     (let bound = (case values of None \<Rightarrow> ps_statement p
          | Some vs \<Rightarrow> (case bind_parameters (ps_statement p) vs of Inr st \<Rightarrow> st | Inl _ \<Rightarrow> ps_statement p))
      in case bound of
           QueryStatement q \<Rightarrow>
             let source = (case query_from q of
                   Some (TableRef name shown) \<Rightarrow>
                     map_option (\<lambda>t. (t, case shown of Some a \<Rightarrow> a | None \<Rightarrow> name)) (map_of (cat_tables (db_catalog db)) name)
                 | _ \<Rightarrow> None)
             in concat (map (item_metadata source) (query_projection q))
         | _ \<Rightarrow> [])"

section \<open>What a statement does to the versions\<close>

definition same_versions :: "catalog \<Rightarrow> catalog \<Rightarrow> bool" where
  "same_versions c c' \<longleftrightarrow> cat_version c' = cat_version c \<and> cat_schema_version c' = cat_schema_version c"

lemma put_table_versions [simp]:
  "cat_version (put_table c n t) = cat_version c" "cat_schema_version (put_table c n t) = cat_schema_version c"
  by (simp_all add: put_table_def)

lemma rename_other_versions [simp]:
  "cat_version (rename_other_tables ln a b c cat) = cat_version cat"
  "cat_schema_version (rename_other_tables ln a b c cat) = cat_schema_version cat"
  by (simp_all add: rename_other_tables_def)

lemma apply_alter_versions:
  "apply_alter_operation ln name s op = Inr s' \<Longrightarrow> same_versions (fst s) (fst s')"
  by (cases op) (auto simp: apply_alter_operation_def same_versions_def refreshed_def refreshed_unless_early_def
      alter_rename_column_def rbind_Inr_iff Let_def fail_def split: prod.splits option.splits if_splits)

lemma execute_alter_versions: "execute_alter_table ln cat name ops = Inr (r, c) \<Longrightarrow> same_versions cat c"
proof -
  assume a: "execute_alter_table ln cat name ops = Inr (r, c)"
  then obtain t s where fold: "res_fold (apply_alter_operation ln (to_ascii_lowercase name)) (cat, t) ops = Inr s"
    and c: "cat_version c = cat_version (fst s)" "cat_schema_version c = cat_schema_version (fst s)"
    by (auto simp: execute_alter_table_def Let_def rbind_Inr_iff split: prod.splits)
  have "same_versions cat (fst s)"
    by (rule res_fold_invariant [OF fold, where I = "\<lambda>s. same_versions cat (fst s)"])
      (auto simp: same_versions_def dest: apply_alter_versions)
  with c show ?thesis by (simp add: same_versions_def)
qed

lemma execute_statement_versions: "execute_statement ln debug cat st = Inr (r, c) \<Longrightarrow> same_versions cat c"
  by (cases st) (auto simp: execute_statement_def same_versions_def execute_create_table_def execute_drop_table_def
      execute_create_index_def execute_drop_index_def execute_insert_def execute_update_def execute_delete_def
      Let_def rbind_Inr_iff fail_def dest!: validatedD execute_alter_versions split: if_splits prod.splits option.splits)

lemma run_versions: "run pf cat st = Inr (r, c) \<Longrightarrow> same_versions cat c"
  by (auto simp: execute_catalog_def rbind_Inr_iff dest: execute_statement_versions split: if_splits)

lemma run_read: "run pf cat st = Inr (r, c) \<Longrightarrow> \<not> is_write_statement st \<Longrightarrow> c = cat"
  by (cases st) (auto simp: execute_catalog_def execute_statement_def rbind_Inr_iff fail_def)

lemma published_versions [simp]:
  "cat_version (published pf db c b) = sat_add (cat_version (db_catalog db)) 1"
  by (simp add: published_def)

section \<open>Each operation on its own\<close>

lemma parse_cached_db:
  "db_parse_cached pf db sql = (r, db1) \<Longrightarrow> db_catalog db1 = db_catalog db"
  by (auto simp: db_parse_cached_def split: prod.splits)

lemma log_transaction_catalog: "log_transaction pf os db b c sts = (r, db1) \<Longrightarrow> db_catalog db1 = db_catalog db"
  by (auto simp: log_transaction_def Let_def split: if_splits log_io.splits)

lemma save_catalog: "save pf os db = (r, db1) \<Longrightarrow> db_catalog db1 = db_catalog db"
  by (auto simp: save_def rotate_wal_def Let_def split: if_splits save_io.splits)

lemma commit_conflict:
  assumes "ss_transaction ss = Some tx" "cat_version (db_catalog db) \<noteq> tx_base_version tx"
  shows "session_commit pf os db ss =
     (RError (conflict_message (tx_base_version tx) (cat_version (db_catalog db))), db, ss\<lparr>ss_transaction := None\<rparr>)"
  using assms by (simp add: session_commit_def)

lemma in_transaction_db:
  "ss_transaction ss \<noteq> None \<Longrightarrow> execute_in pf os db ss d st = Inr (r, db', ss') \<Longrightarrow> db' = db"
  by (auto simp: execute_in_def Let_def split: sum.splits error.splits option.splits)

section \<open>Autocommit\<close>

text \<open>What a statement in autocommit mode does to the shared catalog, on every branch.\<close>

lemma autocommit_catalog:
  assumes "execute_autocommit_durable pf os db d st = Inr (r, db')"
  shows "db_catalog db' = db_catalog db \<or>
    (\<exists>r0 working. is_write_statement st \<and> run pf (db_catalog db) st = Inr (r0, working) \<and>
       db_catalog db' = published pf db working (is_schema_statement st))"
proof (cases "run pf (db_catalog db) st")
  case (Inl e)
  with assms show ?thesis by (cases e) (auto simp: execute_autocommit_durable_def)
next
  case (Inr p)
  obtain r0 working where p: "p = (r0, working)" by (cases p)
  let ?new = "published pf db working (is_schema_statement st)"
  obtain lr db1 where log: "log_transaction pf os db (cat_version (db_catalog db)) (cat_version ?new) [d] = (lr, db1)"
    by (cases "log_transaction pf os db (cat_version (db_catalog db)) (cat_version ?new) [d]")
  obtain sr db3 where save: "save pf os (db1\<lparr>db_catalog := ?new\<rparr>) = (sr, db3)"
    by (cases "save pf os (db1\<lparr>db_catalog := ?new\<rparr>)")
  show ?thesis
    using assms Inr log save log_transaction_catalog [OF log] save_catalog [OF save]
    by (auto simp: execute_autocommit_durable_def p Let_def split: if_splits sum.splits error.splits)
qed

lemma autocommit_version:
  "execute_autocommit_durable pf os db d st = Inr (r, db') \<Longrightarrow>
   db_catalog db' = db_catalog db \<or> cat_version (db_catalog db') = sat_add (cat_version (db_catalog db)) 1"
  using autocommit_catalog by fastforce

section \<open>Statements run one after another\<close>

text \<open>What a logged statement does when it runs: text is parsed and optimised first.\<close>

definition exec_durable :: "platform \<Rightarrow> catalog \<Rightarrow> durable_statement \<Rightarrow> catalog res" where
  "exec_durable pf cat d =
     rbind (case d of DurableSql sql \<Rightarrow> compile (pf_front pf) (normalize_sql sql) | DurableBound st \<Rightarrow> Inr st)
       (\<lambda>st. rbind (run pf cat st) (\<lambda>(r, c). Inr c))"

definition stands_for :: "platform \<Rightarrow> durable_statement \<Rightarrow> statement \<Rightarrow> bool" where
  "stands_for pf d st \<longleftrightarrow>
     (case d of DurableSql sql \<Rightarrow> compile (pf_front pf) (normalize_sql sql) = Inr st | DurableBound st' \<Rightarrow> st' = st)"

lemma exec_durable_run: "stands_for pf d st \<Longrightarrow> run pf cat st = Inr (r, c) \<Longrightarrow> exec_durable pf cat d = Inr c"
  by (cases d) (auto simp: stands_for_def exec_durable_def)

text \<open>
  A transaction whose base version is still current holds what its statements make of the
  current catalog.
\<close>

definition tx_ok :: "platform \<Rightarrow> catalog \<Rightarrow> transaction_state \<Rightarrow> bool" where
  "tx_ok pf cat tx \<longleftrightarrow> tx_base_version tx \<le> cat_version cat \<and>
     (tx_base_version tx = cat_version cat \<longrightarrow> res_fold (exec_durable pf) cat (tx_statements tx) = Inr (tx_catalog tx))"

lemma tx_ok_step:
  assumes "tx_ok pf cat tx" "stands_for pf d st" "run pf (tx_catalog tx) st = Inr (r, c)"
  shows "tx_ok pf cat (tx\<lparr>tx_catalog := c, tx_statements := tx_statements tx @ [d], tx_schema_changed := b\<rparr>)"
  using assms by (auto simp: tx_ok_def res_fold_append exec_durable_run)

lemma tx_ok_begin: "tx_ok pf cat \<lparr>tx_base_version = cat_version cat, tx_catalog = cat, tx_statements = [], tx_schema_changed = False\<rparr>"
  by (simp add: tx_ok_def)

lemma tx_ok_other: "tx_ok pf cat tx \<Longrightarrow> cat_version cat < cat_version cat' \<Longrightarrow> tx_ok pf cat' tx"
  by (simp add: tx_ok_def)

section \<open>Interleaved sessions\<close>

record system =
  sys_db :: database
  sys_sessions :: "nat \<Rightarrow> session"

definition system_new :: "database \<Rightarrow> system" where
  "system_new db = \<lparr>sys_db = db, sys_sessions = (\<lambda>_. session_new)\<rparr>"

definition sys_update :: "system \<Rightarrow> nat \<Rightarrow> database \<Rightarrow> session \<Rightarrow> system" where
  "sys_update s i db ss = s\<lparr>sys_db := db, sys_sessions := (sys_sessions s)(i := ss)\<rparr>"

text \<open>
  One call of one session, atomic under the locks of the catalog and of the session; the
  log is written without error. A checkpoint may come at any time.
\<close>

inductive sys_step :: "platform \<Rightarrow> system \<Rightarrow> system \<Rightarrow> bool" for pf where
  statement: "io_log os = LogOk \<Longrightarrow> session_execute pf os (sys_db s) (sys_sessions s i) sql = Inr (r, db', ss') \<Longrightarrow>
     sys_step pf s (sys_update s i db' ss')"
| prepared: "io_log os = LogOk \<Longrightarrow>
     session_execute_prepared pf os (sys_db s) (sys_sessions s i) p vs = Inr (r, db', ss') \<Longrightarrow>
     sys_step pf s (sys_update s i db' ss')"
| prepare: "session_prepare pf (sys_db s) sql = (p, db') \<Longrightarrow> sys_step pf s (s\<lparr>sys_db := db'\<rparr>)"
| direct: "io_log os = LogOk \<Longrightarrow> database_execute pf os (sys_db s) sql = Inr (r, db') \<Longrightarrow>
     sys_step pf s (s\<lparr>sys_db := db'\<rparr>)"
| checkpoint: "save pf os (sys_db s) = (r, db') \<Longrightarrow> sys_step pf s (s\<lparr>sys_db := db'\<rparr>)"

inductive sys_reachable :: "platform \<Rightarrow> database \<Rightarrow> system \<Rightarrow> bool" for pf db0 where
  start: "sys_reachable pf db0 (system_new db0)"
| step: "sys_reachable pf db0 s \<Longrightarrow> sys_step pf s s' \<Longrightarrow> sys_reachable pf db0 s'"

inductive_cases sys_stepE: "sys_step pf s s'"

text \<open>What one call may do to the catalog and to its own transaction.\<close>

definition quiet :: "platform \<Rightarrow> database \<Rightarrow> session \<Rightarrow> database \<Rightarrow> session \<Rightarrow> bool" where
  "quiet pf db ss db' ss' \<longleftrightarrow> db_catalog db' = db_catalog db \<and>
     ((\<forall>tx. ss_transaction ss = Some tx \<longrightarrow> tx_ok pf (db_catalog db) tx) \<longrightarrow>
      (\<forall>tx. ss_transaction ss' = Some tx \<longrightarrow> tx_ok pf (db_catalog db) tx))"

definition commits :: "database \<Rightarrow> database \<Rightarrow> session \<Rightarrow> bool" where
  "commits db db' ss' \<longleftrightarrow> cat_version (db_catalog db') = sat_add (cat_version (db_catalog db)) 1 \<and> ss_transaction ss' = None"

definition call_ok :: "platform \<Rightarrow> database \<Rightarrow> session \<Rightarrow> database \<Rightarrow> session \<Rightarrow> bool" where
  "call_ok pf db ss db' ss' \<longleftrightarrow> cache_ok (pf_front pf) (db_cache db') \<and> (quiet pf db ss db' ss' \<or> commits db db' ss')"

lemma parse_cached_ok:
  assumes "db_parse_cached pf db sql = (r, db1)" "cache_ok (pf_front pf) (db_cache db)"
  shows "cache_ok (pf_front pf) (db_cache db1)" "r = compile (pf_front pf) (normalize_sql sql)"
    "db_catalog db1 = db_catalog db"
proof -
  let ?v = "cat_schema_version (db_catalog db)"
  have eq: "r = fst (parse_cached (pf_front pf) (db_cache db) ?v sql)"
    "db1 = db\<lparr>db_cache := snd (parse_cached (pf_front pf) (db_cache db) ?v sql)\<rparr>"
    using assms(1) by (simp_all add: db_parse_cached_def case_prod_beta)
  show "cache_ok (pf_front pf) (db_cache db1)" using parse_cached_keeps [OF assms(2)] by (simp add: eq)
  show "r = compile (pf_front pf) (normalize_sql sql)" using parse_cached_value [OF assms(2)] by (simp add: eq)
  show "db_catalog db1 = db_catalog db" by (simp add: eq)
qed

lemma log_transaction_cache: "log_transaction pf os db b c sts = (r, db1) \<Longrightarrow> db_cache db1 = db_cache db"
  by (auto simp: log_transaction_def Let_def split: if_splits log_io.splits)

lemma log_transaction_ok: "io_log os = LogOk \<Longrightarrow> log_transaction pf os db b c sts = (r, db1) \<Longrightarrow> r = Inr ()"
  by (auto simp: log_transaction_def Let_def split: if_splits)

lemma save_cache: "save pf os db = (r, db1) \<Longrightarrow> db_cache db1 = db_cache db"
  by (auto simp: save_def rotate_wal_def Let_def split: if_splits save_io.splits)

lemma autocommit_cache: "execute_autocommit_durable pf os db d st = Inr (r, db') \<Longrightarrow> db_cache db' = db_cache db"
  by (auto simp: execute_autocommit_durable_def Let_def dest!: log_transaction_cache save_cache
      split: sum.splits error.splits prod.splits if_splits)

lemma execute_in_ok:
  assumes "execute_in pf os db ss d st = Inr (r, db', ss')" "stands_for pf d st"
    "cache_ok (pf_front pf) (db_cache db)"
  shows "call_ok pf db ss db' ss'"
proof (cases "ss_transaction ss")
  case None
  then obtain auto: "execute_autocommit_durable pf os db d st = Inr (r, db')" and "ss' = ss"
    using assms(1) by (auto simp: execute_in_def rbind_Inr_iff)
  with None autocommit_cache [OF auto] autocommit_version [OF auto] assms(3) show ?thesis
    by (auto simp: call_ok_def quiet_def commits_def)
next
  case (Some tx)
  show ?thesis
  proof (cases "run pf (tx_catalog tx) st")
    case (Inl e)
    with assms Some show ?thesis by (cases e) (auto simp: execute_in_def call_ok_def quiet_def)
  next
    case (Inr p)
    obtain r0 c where p: "p = (r0, c)" by (cases p)
    show ?thesis
    proof (cases "is_write_statement st")
      case True
      from assms(1) Some Inr True have "db' = db"
        "ss_transaction ss' = Some (tx\<lparr>tx_catalog := c, tx_statements := tx_statements tx @ [d],
            tx_schema_changed := tx_schema_changed tx \<or> is_schema_statement st\<rparr>)"
        by (auto simp: execute_in_def p Let_def)
      with tx_ok_step [OF _ assms(2)] Inr p assms(3) Some show ?thesis by (auto simp: call_ok_def quiet_def)
    next
      case False
      from run_read [OF Inr [unfolded p] False] have "c = tx_catalog tx" .
      with assms Some Inr False show ?thesis by (auto simp: execute_in_def p Let_def call_ok_def quiet_def)
    qed
  qed
qed

lemma commit_ok:
  assumes "session_commit pf os db ss = (r, db', ss')" "cache_ok (pf_front pf) (db_cache db)" "io_log os = LogOk"
  shows "call_ok pf db ss db' ss'"
proof (cases "ss_transaction ss")
  case None
  with assms show ?thesis by (auto simp: session_commit_def call_ok_def quiet_def)
next
  case (Some tx)
  let ?new = "published pf db (tx_catalog tx) (tx_schema_changed tx)"
  obtain lr db1 where log: "log_transaction pf os db (tx_base_version tx) (cat_version ?new) (tx_statements tx) = (lr, db1)"
    by (cases "log_transaction pf os db (tx_base_version tx) (cat_version ?new) (tx_statements tx)")
  from log_transaction_ok [OF assms(3) log] log_transaction_cache [OF log] Some log assms(1,2) show ?thesis
    by (auto simp: session_commit_def call_ok_def quiet_def commits_def Let_def split: if_splits)
qed

lemma call_ok_parse: "db_parse_cached pf db sql = (r, db1) \<Longrightarrow> call_ok pf db1 ss db' ss' \<Longrightarrow> call_ok pf db ss db' ss'"
  by (auto simp: call_ok_def quiet_def commits_def dest: parse_cached_db)

lemma call_ok_same: "cache_ok (pf_front pf) (db_cache db) \<Longrightarrow> ss_transaction ss' = ss_transaction ss \<Longrightarrow> call_ok pf db ss db ss'"
  by (simp add: call_ok_def quiet_def)

lemma execute_prepared_ok:
  assumes "session_execute_prepared pf os db ss p vs = Inr (r, db', ss')" "cache_ok (pf_front pf) (db_cache db)"
  shows "call_ok pf db ss db' ss'"
proof -
  obtain st0 db1 where cur: "current_statement pf db p = (st0, db1)" by (cases "current_statement pf db p")
  then have db1: "cache_ok (pf_front pf) (db_cache db1)" "db_catalog db1 = db_catalog db"
    using assms(2) parse_cached_ok [of pf db "ps_sql p" st0 db1] by (auto simp: current_statement_def split: if_splits)
  have "call_ok pf db1 ss db' ss'"
  proof (cases "rbind (rbind st0 (\<lambda>st. bind_parameters st vs)) optimize_statement")
    case (Inl e)
    with assms(1) cur db1 show ?thesis by (cases e) (auto simp: session_execute_prepared_def intro: call_ok_same)
  next
    case (Inr st)
    then have "execute_in pf os db1 ss (DurableBound st) st = Inr (r, db', ss')"
      using assms(1) cur by (simp add: session_execute_prepared_def)
    then show ?thesis by (rule execute_in_ok) (use db1 in \<open>simp_all add: stands_for_def\<close>)
  qed
  with db1 show ?thesis by (simp add: call_ok_def quiet_def commits_def)
qed

lemma prepare_ok:
  assumes "session_prepare pf db sql = (p, db')" "cache_ok (pf_front pf) (db_cache db)"
  shows "cache_ok (pf_front pf) (db_cache db')" "db_catalog db' = db_catalog db"
proof -
  obtain r db1 where parse: "db_parse_cached pf db sql = (r, db1)" by (cases "db_parse_cached pf db sql")
  with assms(1) have "db' = db1" by (auto simp: session_prepare_def split: sum.splits if_splits)
  with parse_cached_ok [OF parse assms(2)] show "cache_ok (pf_front pf) (db_cache db')" "db_catalog db' = db_catalog db"
    by simp_all
qed

lemma prepare_named_ok:
  assumes "session_prepare_named pf db ss name source = Inr (r, db', ss')" "cache_ok (pf_front pf) (db_cache db)"
  shows "call_ok pf db ss db' ss'"
  using assms prepare_ok [of pf db] 
  by (auto simp: session_prepare_named_def call_ok_def quiet_def split: sum.splits error.splits prod.splits)

lemma execute_named_ok:
  assumes "session_execute_named pf os db ss name names = Inr (r, db', ss')" "cache_ok (pf_front pf) (db_cache db)"
  shows "call_ok pf db ss db' ss'"
  using assms by (auto simp: session_execute_named_def intro: call_ok_same execute_prepared_ok
      split: option.splits sum.splits error.splits)

lemma normalize_trim: "normalize_sql (trim sql) = normalize_sql sql"
  by (simp add: normalize_sql_def)

lemma begin_ok:
  assumes "session_begin db ss = (r, db', ss')" "cache_ok (pf_front pf) (db_cache db)"
  shows "call_ok pf db ss db' ss'"
  using assms by (auto simp: session_begin_def call_ok_def quiet_def tx_ok_begin split: option.splits)

lemma rollback_ok:
  assumes "session_rollback db ss = (r, db', ss')" "cache_ok (pf_front pf) (db_cache db)"
  shows "call_ok pf db ss db' ss'"
  using assms by (auto simp: session_rollback_def call_ok_def quiet_def)

lemma deallocate_ok:
  assumes "session_deallocate db ss name = (r, db', ss')" "cache_ok (pf_front pf) (db_cache db)"
  shows "call_ok pf db ss db' ss'"
  using assms by (auto simp: session_deallocate_def intro: call_ok_same split: if_splits)

lemma session_execute_ok:
  assumes ex: "session_execute pf os db ss sql = Inr (r, db', ss')" and "cache_ok (pf_front pf) (db_cache db)" "io_log os = LogOk"
  shows "call_ok pf db ss db' ss'"
proof -
  obtain p db1 where parse: "db_parse_cached pf db sql = (p, db1)" by (cases "db_parse_cached pf db sql")
  note db1 = parse_cached_ok [OF parse assms(2)]
  have "call_ok pf db1 ss db' ss'"
  proof (cases p)
    case (Inl e)
    with ex parse db1(1) show ?thesis by (cases e) (auto simp: session_execute_def intro: call_ok_same)
  next
    case (Inr st)
    have "stands_for pf (DurableSql (trim sql)) st" using Inr db1(2) by (simp add: stands_for_def normalize_trim)
    note plain = execute_in_ok [OF _ this db1(1)]
    show ?thesis
      using ex Inr parse db1(1) assms(3) plain
      by (cases st)
        (auto simp: session_execute_def
          intro: begin_ok rollback_ok deallocate_ok commit_ok prepare_named_ok execute_named_ok call_ok_same)
  qed
  with db1(3) show ?thesis by (simp add: call_ok_def quiet_def commits_def)
qed

lemma direct_ok:
  assumes "database_execute pf os db sql = Inr (r, db')" "cache_ok (pf_front pf) (db_cache db)"
  shows "cache_ok (pf_front pf) (db_cache db') \<and>
    (db_catalog db' = db_catalog db \<or> cat_version (db_catalog db') = sat_add (cat_version (db_catalog db)) 1)"
proof -
  obtain p db1 where parse: "db_parse_cached pf db sql = (p, db1)" by (cases "db_parse_cached pf db sql")
  from parse_cached_ok [OF parse assms(2)] assms(1) parse show ?thesis
    by (auto simp: database_execute_def dest: autocommit_cache autocommit_version split: sum.splits error.splits if_splits)
qed

section \<open>Transactions are serialisable\<close>

definition sys_ok :: "platform \<Rightarrow> system \<Rightarrow> bool" where
  "sys_ok pf s \<longleftrightarrow> cache_ok (pf_front pf) (db_cache (sys_db s)) \<and>
     (cat_version (db_catalog (sys_db s)) < u64_max \<longrightarrow>
      (\<forall>i tx. ss_transaction (sys_sessions s i) = Some tx \<longrightarrow> tx_ok pf (db_catalog (sys_db s)) tx))"

text \<open>The catalog of the database after a call is the one before, or a later one.\<close>

definition moved :: "database \<Rightarrow> database \<Rightarrow> bool" where
  "moved db db' \<longleftrightarrow> db_catalog db' = db_catalog db \<or>
     cat_version (db_catalog db') = sat_add (cat_version (db_catalog db)) 1"

lemma tx_ok_moved:
  assumes "moved db db'" "cat_version (db_catalog db') < u64_max"
  shows "cat_version (db_catalog db) < u64_max" "tx_ok pf (db_catalog db) tx \<Longrightarrow> tx_ok pf (db_catalog db') tx"
proof -
  show "cat_version (db_catalog db) < u64_max" using assms by (auto simp: moved_def sat_add_def)
  show "tx_ok pf (db_catalog db') tx" if "tx_ok pf (db_catalog db) tx"
  proof (cases "db_catalog db' = db_catalog db")
    case False
    from that show ?thesis by (rule tx_ok_other) (use False assms in \<open>auto simp: moved_def sat_add_def\<close>)
  qed (use that in simp)
qed

lemma sys_ok_call:
  assumes "sys_ok pf s" "call_ok pf (sys_db s) (sys_sessions s i) db' ss'"
  shows "sys_ok pf (sys_update s i db' ss')"
proof -
  have "moved (sys_db s) db'" using assms(2) by (auto simp: call_ok_def quiet_def commits_def moved_def)
  note moved = tx_ok_moved [OF this]
  show ?thesis
    using assms moved by (auto simp: sys_ok_def sys_update_def call_ok_def quiet_def commits_def)
qed

lemma sys_ok_db:
  assumes "sys_ok pf s" "cache_ok (pf_front pf) (db_cache db')" "moved (sys_db s) db'"
  shows "sys_ok pf (s\<lparr>sys_db := db'\<rparr>)"
  using assms tx_ok_moved [OF assms(3)] by (auto simp: sys_ok_def)

lemma sys_step_ok:
  assumes "sys_step pf s s'" "sys_ok pf s"
  shows "sys_ok pf s'"
proof -
  have cache: "cache_ok (pf_front pf) (db_cache (sys_db s))" using assms(2) by (simp add: sys_ok_def)
  from assms(1) show ?thesis
  proof cases
    case (statement os i sql r db' ss')
    from session_execute_ok [OF statement(3) cache statement(2)] sys_ok_call [OF assms(2)] statement(1)
    show ?thesis by simp
  next
    case (prepared os i p vs r db' ss')
    from execute_prepared_ok [OF prepared(3) cache] sys_ok_call [OF assms(2)] prepared(1) show ?thesis by simp
  next
    case (prepare sql p db')
    from prepare_ok [OF prepare(2) cache] sys_ok_db [OF assms(2)] prepare(1) show ?thesis by (simp add: moved_def)
  next
    case (direct os sql r db')
    from direct_ok [OF direct(3) cache] sys_ok_db [OF assms(2), of db'] direct(1) show ?thesis by (simp add: moved_def)
  next
    case (checkpoint os r db')
    from save_catalog [OF checkpoint(2)] save_cache [OF checkpoint(2)] cache sys_ok_db [OF assms(2), of db'] checkpoint(1)
    show ?thesis by (simp add: moved_def)
  qed
qed

lemma sys_reachable_ok: "sys_reachable pf db0 s \<Longrightarrow> cache_ok (pf_front pf) (db_cache db0) \<Longrightarrow> sys_ok pf s"
proof (induction rule: sys_reachable.induct)
  case start
  then show ?case by (simp add: sys_ok_def system_new_def session_new_def)
qed (blast intro: sys_step_ok)

text \<open>
  A transaction that commits in any reachable state publishes what its statements, run one
  after another, make of the catalog at that moment.
\<close>

lemma commit_serialisable:
  assumes "sys_reachable pf db0 s" "cache_ok (pf_front pf) (db_cache db0)"
    and "cat_version (db_catalog (sys_db s)) < u64_max"
    and tx: "ss_transaction (sys_sessions s i) = Some tx" "tx_statements tx \<noteq> []"
    and commit: "session_commit pf os (sys_db s) (sys_sessions s i) = (TransactionCommitted, db', ss')"
  shows "\<exists>c. res_fold (exec_durable pf) (db_catalog (sys_db s)) (tx_statements tx) = Inr c \<and>
     db_catalog db' = published pf (sys_db s) c (tx_schema_changed tx)"
proof -
  have "sys_ok pf s" using assms(1,2) by (rule sys_reachable_ok)
  with assms(3) tx(1) have "tx_ok pf (db_catalog (sys_db s)) tx" by (simp add: sys_ok_def)
  moreover have "cat_version (db_catalog (sys_db s)) = tx_base_version tx"
    using commit tx(1) by (auto simp: session_commit_def Let_def split: if_splits)
  ultimately have "res_fold (exec_durable pf) (db_catalog (sys_db s)) (tx_statements tx) = Inr (tx_catalog tx)"
    by (simp add: tx_ok_def)
  moreover have "db_catalog db' = published pf (sys_db s) (tx_catalog tx) (tx_schema_changed tx)"
    using commit tx by (auto simp: session_commit_def Let_def split: if_splits prod.splits sum.splits)
  ultimately show ?thesis by blast
qed

end
