(* ===== verification/Content.thy ===== *)
theory Content
  imports Executor
begin

text \<open>
  Two catalogs with the same schemas and rows, whatever their row ids, filters and index
  structures: the relation \<open>same_content\<close>. The lemmas show that queries answer the same on
  both and that a write statement that succeeds on one succeeds on the other, with the same
  result and the same content afterwards. Recovery rests on it: a replayed catalog differs
  from the live one in its row ids and in how its indexes came to be.
\<close>

section \<open>The relation\<close>

definition same_table :: "table \<Rightarrow> table \<Rightarrow> bool" where
  "same_table t t' \<longleftrightarrow> tb_schema t' = tb_schema t \<and> tb_rows t' = tb_rows t \<and>
     tb_next_row_id t' \<le> tb_next_row_id t \<and> table_ok t \<and> table_ok t'"

definition same_content :: "catalog \<Rightarrow> catalog \<Rightarrow> bool" where
  "same_content c c' \<longleftrightarrow> wf_map (cat_tables c) \<and>
     list_all2 (\<lambda>(n, t) (n', t'). n' = n \<and> same_table t t') (cat_tables c) (cat_tables c')"

lemma same_table_refl: "table_ok t \<Longrightarrow> same_table t t"
  by (simp add: same_table_def)

lemma same_table_simps:
  "same_table t t' \<Longrightarrow> tb_schema t' = tb_schema t" "same_table t t' \<Longrightarrow> tb_rows t' = tb_rows t"
  by (simp_all add: same_table_def)

lemma same_table_ok: "same_table t t' \<Longrightarrow> table_ok t" "same_table t t' \<Longrightarrow> table_ok t'"
  by (simp_all add: same_table_def)

lemma same_content_refl: "catalog_ok c \<Longrightarrow> same_content c c"
  by (auto simp: same_content_def catalog_ok_def intro!: list.rel_refl_strong same_table_refl)

lemma same_keys:
  "list_all2 (\<lambda>(n, t) (n', t'). n' = n \<and> R t t') m m' \<Longrightarrow> map fst m' = map fst m"
  by (induction rule: list_all2_induct) auto

lemma same_content_ok:
  assumes "same_content c c'"
  shows "catalog_ok c \<and> catalog_ok c'"
proof -
  have rel: "list_all2 (\<lambda>(n, t) (n', t'). n' = n \<and> same_table t t') (cat_tables c) (cat_tables c')"
    and wf: "wf_map (cat_tables c)" using assms by (simp_all add: same_content_def)
  have oks: "\<forall>(n, t) \<in> set m. table_ok t" "\<forall>(n, t) \<in> set m'. table_ok t"
    if "list_all2 (\<lambda>(n, t) (n', t'). n' = n \<and> same_table t t') m m'" for m m'
    using that by (induction rule: list_all2_induct) (auto dest: same_table_ok)
  from oks [OF rel] wf same_keys [OF rel] show ?thesis by (simp add: catalog_ok_def wf_map_def)
qed

lemma rel_map_of:
  "list_all2 (\<lambda>(n, t) (n', t'). n' = n \<and> R t t') m m' \<Longrightarrow> rel_option R (map_of m k) (map_of m' k)"
  by (induction rule: list_all2_induct) auto

lemma same_lookup: "same_content c c' \<Longrightarrow> rel_option same_table (map_of (cat_tables c) k) (map_of (cat_tables c') k)"
  unfolding same_content_def by (blast intro: rel_map_of)

lemma same_lookup_Some:
  assumes "same_content c c'" "map_of (cat_tables c) k = Some t"
  obtains t' where "map_of (cat_tables c') k = Some t'" "same_table t t'"
  using same_lookup [OF assms(1), of k] assms(2) by (auto simp: option_rel_Some1)

lemma same_lookup_None: "same_content c c' \<Longrightarrow> map_of (cat_tables c) k = None \<longleftrightarrow> map_of (cat_tables c') k = None"
  using same_lookup [of c c' k] by (cases "map_of (cat_tables c) k"; cases "map_of (cat_tables c') k") auto

lemma rel_update:
  "list_all2 (\<lambda>(n, t) (n', t'). n' = n \<and> R t t') m m' \<Longrightarrow> R t t' \<Longrightarrow>
   list_all2 (\<lambda>(n, t) (n', t'). n' = n \<and> R t t') (AList.update k t m) (AList.update k t' m')"
  by (induction rule: list_all2_induct) auto

lemma same_put: "same_content c c' \<Longrightarrow> same_table t t' \<Longrightarrow> same_content (put_table c k t) (put_table c' k t')"
  by (simp add: same_content_def put_table_def rel_update)

lemma same_delete:
  assumes "same_content c c'"
  shows "same_content (c\<lparr>cat_tables := AList.delete k (cat_tables c)\<rparr>) (c'\<lparr>cat_tables := AList.delete k (cat_tables c')\<rparr>)"
proof -
  have "list_all2 (\<lambda>(n, t) (n', t'). n' = n \<and> same_table t t') (AList.delete k m) (AList.delete k m')"
    if "list_all2 (\<lambda>(n, t) (n', t'). n' = n \<and> same_table t t') m m'" for m m'
    using that by (induction rule: list_all2_induct) auto
  then show ?thesis using assms by (simp add: same_content_def)
qed

section \<open>Index scans select the same positions\<close>

definition key_scanned :: "string list \<Rightarrow> index_key \<Rightarrow> (comparison_op \<times> key_part) option \<Rightarrow> index_key \<Rightarrow> bool" where
  "key_scanned cols prefix rng key \<longleftrightarrow>
     (if length prefix = length cols \<and> rng = None then key = prefix
      else starts_with key prefix \<and> range_matches rng (length prefix) key)"

lemma id_at_inj:
  assumes "table_ok t" "p < length (tb_rows t)" "q < length (tb_rows t)" "tb_row_ids t ! p = tb_row_ids t ! q"
  shows "p = q"
  using assms by (auto simp: table_ok_def ids_ok_def strict_sorted_iff nth_eq_iff_index_eq)

lemma scan_ids_position:
  assumes "table_ok t" "index_ok t ix" "p < length (tb_rows t)"
  shows "tb_row_ids t ! p \<in> scan_ids ix prefix rng \<longleftrightarrow>
     (\<exists>key. index_key (tb_schema t) (tb_rows t ! p) (ix_columns (bt_definition ix)) = Some key \<and>
        key_scanned (ix_columns (bt_definition ix)) prefix rng key)"
proof -
  have bt: "btree_ok ix" using assms(2) by (simp add: index_ok_def)
  have look: "tb_row_ids t ! p \<in> btree_lookup ix key \<longleftrightarrow>
      index_key (tb_schema t) (tb_rows t ! p) (ix_columns (bt_definition ix)) = Some key" for key
    using assms by (auto simp: index_ok_def ids_with_def dest: id_at_inj [OF assms(1,3)])
  show ?thesis
  proof (cases "length prefix = length (ix_columns (bt_definition ix)) \<and> rng = None")
    case True
    with btree_filtered_lookup [OF bt, of prefix] look show ?thesis by (auto simp: scan_ids_def key_scanned_def)
  next
    case False
    then have "tb_row_ids t ! p \<in> scan_ids ix prefix rng \<longleftrightarrow> (\<exists>key. tb_row_ids t ! p \<in> btree_lookup ix key \<and>
        starts_with key prefix \<and> range_matches rng (length prefix) key)"
      unfolding btree_entry_iff [OF bt] by (auto simp: scan_ids_def)
    with False look show ?thesis by (auto simp: key_scanned_def)
  qed
qed

text \<open>Two candidate sets, over the ids of two tables, that select the same positions.\<close>

definition same_positions :: "table \<Rightarrow> table \<Rightarrow> nat set \<Rightarrow> nat set \<Rightarrow> bool" where
  "same_positions t t' ids ids' \<longleftrightarrow>
     (\<forall>p < length (tb_rows t). tb_row_ids t ! p \<in> ids \<longleftrightarrow> tb_row_ids t' ! p \<in> ids')"

lemma same_scan_ids:
  assumes "same_table t t'" "index_ok t ix" "index_ok t' ix'" "bt_definition ix' = bt_definition ix"
  shows "same_positions t t' (scan_ids ix prefix rng) (scan_ids ix' prefix rng)"
  using assms by (simp add: same_positions_def scan_ids_position same_table_ok same_table_simps)

definition same_best ::
  "table \<Rightarrow> table \<Rightarrow> (nat set \<times> string \<times> nat) option \<Rightarrow> (nat set \<times> string \<times> nat) option \<Rightarrow> bool" where
  "same_best t t' = rel_option (rel_prod (same_positions t t') (=))"

lemma same_pick:
  assumes "same_table t t'" "index_ok t ix" "index_ok t' ix'" "bt_definition ix' = bt_definition ix"
    and "same_best t t' best best'"
  shows "same_best t t' (pick_candidate preds best (n, ix)) (pick_candidate preds best' (n', ix'))"
proof -
  obtain prefix rng where scan: "scan_prefix preds (ix_columns (bt_definition ix)) [] = (prefix, rng)" by fastforce
  show ?thesis
    using assms(5) same_scan_ids [OF assms(1-4), of prefix rng]
    by (cases best; cases best')
      (auto simp: same_best_def pick_candidate_def scan_index_def scan assms(4))
qed

lemma same_fold:
  assumes "same_table t t'" "list_all2 (\<lambda>(n, ix) (n', ix'). bt_definition ix' = bt_definition ix \<and> index_ok t ix \<and> index_ok t' ix') m m'"
    and "same_best t t' best best'"
  shows "same_best t t' (foldl (pick_candidate preds) best m) (foldl (pick_candidate preds) best' m')"
  using assms(2,3)
proof (induction m m' arbitrary: best best' rule: list_all2_induct)
  case (Cons x m y m')
  obtain n ix n' ix' where xy: "x = (n, ix)" "y = (n', ix')" by (cases x, cases y)
  have "same_best t t' (pick_candidate preds best x) (pick_candidate preds best' y)"
    unfolding xy by (rule same_pick [OF assms(1)]) (use Cons xy in auto)
  with Cons.IH show ?case by simp
qed simp

lemma same_indexes:
  assumes "same_table t t'"
  shows "list_all2 (\<lambda>(n, ix) (n', ix'). bt_definition ix' = bt_definition ix \<and> index_ok t ix \<and> index_ok t' ix')
     (tb_indexes t) (tb_indexes t')"
proof -
  have defs: "map (map_prod id bt_definition) (tb_indexes t') = map (map_prod id bt_definition) (tb_indexes t)"
    and ok: "\<And>n ix. (n, ix) \<in> set (tb_indexes t) \<Longrightarrow> index_ok t ix"
      "\<And>n ix. (n, ix) \<in> set (tb_indexes t') \<Longrightarrow> index_ok t' ix"
    using assms by (auto simp: same_table_def table_ok_def)
  have len: "length (tb_indexes t') = length (tb_indexes t)" using defs by (metis length_map)
  show ?thesis
  proof (rule list_all2_all_nthI [OF len [symmetric]])
    fix i assume i: "i < length (tb_indexes t)"
    obtain n ix n' ix' where xy: "tb_indexes t ! i = (n, ix)" "tb_indexes t' ! i = (n', ix')"
      by (metis surj_pair)
    have "map_prod id bt_definition (tb_indexes t' ! i) = map_prod id bt_definition (tb_indexes t ! i)"
      using defs i len by (metis nth_map)
    with xy ok i len show "(\<lambda>(n, ix) (n', ix'). bt_definition ix' = bt_definition ix \<and> index_ok t ix \<and> index_ok t' ix')
        (tb_indexes t ! i) (tb_indexes t' ! i)"
      using nth_mem [OF i] nth_mem [of i "tb_indexes t'"] by auto
  qed
qed

lemma same_candidates:
  assumes "same_table t t'"
  shows "rel_option (rel_prod (same_positions t t') (=)) (candidate_row_ids t sel) (candidate_row_ids t' sel)"
proof (cases sel)
  case (Some e)
  have "same_best t t' (foldl (pick_candidate (collect_index_predicates e)) None (tb_indexes t))
      (foldl (pick_candidate (collect_index_predicates e)) None (tb_indexes t'))"
    by (rule same_fold [OF assms same_indexes [OF assms]]) (simp add: same_best_def)
  then show ?thesis
    unfolding candidate_row_ids_def Some same_best_def
    by (cases "foldl (pick_candidate (collect_index_predicates e)) None (tb_indexes t)";
        cases "foldl (pick_candidate (collect_index_predicates e)) None (tb_indexes t')") auto
qed (simp add: candidate_row_ids_def)

lemma ids_length: "table_ok t \<Longrightarrow> length (tb_row_ids t) = length (tb_rows t)"
  by (simp add: table_ok_def ids_ok_def)

lemma same_not_candidate:
  assumes "same_table t t'" "p < length (tb_rows t)"
  shows "not_candidate t' sel p = not_candidate t sel p"
proof -
  have len: "length (tb_row_ids t) = length (tb_rows t)" "length (tb_row_ids t') = length (tb_rows t)"
    using ids_length assms(1) by (auto simp: same_table_def)
  show ?thesis using same_candidates [OF assms(1), of sel] assms(2) len
    by (cases "candidate_row_ids t sel"; cases "candidate_row_ids t' sel")
      (auto simp: not_candidate_def same_positions_def)
qed

lemma relation_not_candidate:
  assumes "table_ok t"
  shows "relation_from_table t name sel =
     \<lparr>rel_columns = map (\<lambda>c. \<lparr>bc_table = name, bc_name = col_name c\<rparr>) (sch_columns (tb_schema t)),
      rel_rows = map snd (filter (\<lambda>(pos, row). \<not> not_candidate t sel pos) (enumerate 0 (tb_rows t)))\<rparr>"
  by (cases "candidate_row_ids t sel")
    (auto simp: relation_from_table_def not_candidate_def intro!: arg_cong [where f = "map snd"] filter_cong split: option.splits)

lemma same_relation: "same_table t t' \<Longrightarrow> relation_from_table t' name sel = relation_from_table t name sel"
  by (auto simp: relation_not_candidate same_table_ok same_table_simps in_set_enumerate_eq same_not_candidate
      intro!: arg_cong [where f = "map snd"] filter_cong)

section \<open>Queries\<close>

lemma same_source:
  assumes "same_content c c'"
  shows "source_relation run c' src ctes sel = source_relation run c src ctes sel"
proof (cases src)
  case (TableRef name shown)
  show ?thesis using same_lookup [OF assms, of name]
    by (cases "map_of (cat_tables c) name"; cases "map_of (cat_tables c') name"; cases "map_of ctes name")
      (simp_all add: TableRef source_relation_def same_relation)
qed (simp add: source_relation_def)

lemma same_query_body: "same_content c c' \<Longrightarrow> execute_query_body run c' q ctes = execute_query_body run c q ctes"
  unfolding execute_query_body_def by (simp only: same_source)

lemma same_query: "same_content c c' \<Longrightarrow> execute_query c' q ctes = execute_query c q ctes"
proof (induction q arbitrary: ctes rule: measure_induct_rule [of size])
  case (less q)
  have run: "(\<lambda>q' ctes'. if size q' < size q then execute_query c' q' ctes' else Inl (Panic ''not a subquery'')) =
      (\<lambda>q' ctes'. if size q' < size q then execute_query c q' ctes' else Inl (Panic ''not a subquery''))"
    using less by (intro ext) auto
  show ?case
    by (subst (1 2) execute_query.simps) (simp only: run same_query_body [OF less.prems])
qed

lemma same_run_query: "same_content c c' \<Longrightarrow> run_query c' = run_query c"
  by (simp add: run_query_def fun_eq_iff same_query)

section \<open>Validation\<close>

lemma same_check:
  assumes "same_content c c'" "same_table t t'"
  shows "check_constraint c' t' = check_constraint c t"
  unfolding check_constraint_def [abs_def] same_run_query [OF assms(1)] same_table_simps [OF assms(2)] ..

lemma same_clash: assumes "same_table t t'" shows "unique_clash t' = unique_clash t"
  unfolding unique_clash_def [abs_def] same_table_simps [OF assms] ..

lemma same_unique_holds: "same_table t t' \<Longrightarrow> unique_holds t' = unique_holds t"
  by (simp add: unique_holds_def same_clash same_table_simps)

lemma same_foreign_key:
  assumes "same_content c c'" "same_table t t'"
  shows "validate_foreign_key c' t' k = validate_foreign_key c t k"
proof (cases k)
  case (ForeignKey fk)
  show ?thesis
  proof (cases "map_of (cat_tables c) (fk_foreign_table fk)")
    case None
    then have "map_of (cat_tables c') (fk_foreign_table fk) = None" using same_lookup_None [OF assms(1)] by simp
    with None show ?thesis by (simp add: ForeignKey validate_foreign_key_def)
  next
    case (Some p)
    then obtain p' where p': "map_of (cat_tables c') (fk_foreign_table fk) = Some p'" "same_table p p'"
      by (rule same_lookup_Some [OF assms(1)])
    have "validate_child_row p' = validate_child_row p"
      unfolding validate_child_row_def [abs_def] same_table_simps [OF p'(2)] ..
    with Some p' show ?thesis
      by (simp add: ForeignKey validate_foreign_key_def parent_is_unique_def same_table_simps [OF p'(2)]
          same_table_simps [OF assms(2)])
  qed
qed (simp_all add: validate_foreign_key_def)

lemma same_validate_table:
  assumes "same_content c c'" "same_table t t'" "validate_table c (n, t) = Inr ()"
  shows "validate_table c' (n', t') = Inr ()"
proof -
  have "validate_checks c' t' = validate_checks c t"
    by (simp add: validate_checks_def same_check [OF assms(1,2)] same_table_simps [OF assms(2)] fun_eq_iff)
  with assms(2,3) show ?thesis
    by (simp add: validate_table_def rbind_Inr_iff same_table_simps validate_unique_iff same_table_ok same_unique_holds)
qed

lemma rel_in_set:
  "list_all2 (\<lambda>(n, t) (n', t'). n' = n \<and> R t t') m m' \<Longrightarrow> (n, t') \<in> set m' \<Longrightarrow> \<exists>t. (n, t) \<in> set m \<and> R t t'"
  by (induction rule: list_all2_induct) auto

lemma same_validate:
  assumes "same_content c c'" "validate_catalog c = Inr ()"
  shows "validate_catalog c' = Inr ()"
proof -
  have rel: "list_all2 (\<lambda>(n, t) (n', t'). n' = n \<and> same_table t t') (cat_tables c) (cat_tables c')"
    using assms(1) by (simp add: same_content_def)
  have both: "validate_table c' (n, t') = Inr () \<and> res_all (validate_foreign_key c' t') (sch_constraints (tb_schema t')) = Inr ()"
    if "(n, t') \<in> set (cat_tables c')" for n t'
  proof -
    from rel_in_set [OF rel that] obtain t where t: "(n, t) \<in> set (cat_tables c)" "same_table t t'" by blast
    have valid: "validate_table c (n, t) = Inr ()" "\<forall>k \<in> set (sch_constraints (tb_schema t)). validate_foreign_key c t k = Inr ()"
      using assms(2) t(1)
      by (fastforce simp: validate_catalog_def validate_foreign_keys_def rbind_Inr_iff res_all_Inr_iff)+
    have "validate_table c' (n, t') = Inr ()" by (rule same_validate_table [OF assms(1) t(2) valid(1)])
    with valid(2) show ?thesis
      by (simp add: res_all_Inr_iff same_foreign_key [OF assms(1) t(2)] same_table_simps [OF t(2)])
  qed
  then show ?thesis by (auto simp: validate_catalog_def validate_foreign_keys_def rbind_Inr_iff res_all_Inr_iff)
qed

section \<open>Changes\<close>

text \<open>The same schema and rows, without the invariant, which the statement handlers restore.\<close>

definition raw_same :: "table \<Rightarrow> table \<Rightarrow> bool" where
  "raw_same t t' \<longleftrightarrow> tb_schema t' = tb_schema t \<and> tb_rows t' = tb_rows t \<and> tb_next_row_id t' \<le> tb_next_row_id t"

lemma same_table_iff: "same_table t t' \<longleftrightarrow> raw_same t t' \<and> table_ok t \<and> table_ok t'"
  by (auto simp: same_table_def raw_same_def)

lemma raw_same_rebuild [simp]: "raw_same (rebuild_index ln t) (rebuild_index ln t') = raw_same t t'"
  by (simp add: raw_same_def)

lemma raw_same_refresh: "raw_same t t' \<Longrightarrow> raw_same (refresh_constraint_metadata ln t) (refresh_constraint_metadata ln t')"
  by (simp add: refresh_constraint_metadata_def) (simp add: raw_same_def)

lemma same_conflicts: "same_table t t' \<Longrightarrow> unique_conflict_positions t' row = unique_conflict_positions t row"
  by (auto simp: unique_conflict_positions_iff same_table_ok same_table_simps same_clash)

lemma raw_insert_row:
  assumes "raw_same t t'" "insert_row_indexed t row = Inr u"
  obtains u' where "insert_row_indexed t' row = Inr u'" "raw_same u u'"
  using assms by (auto simp: insert_row_indexed_def raw_same_def rbind_Inr_iff Let_def sat_add_def)

lemma raw_replace_row:
  assumes "same_table t t'" "replace_row_indexed t p row = Inr u"
  obtains u' where "replace_row_indexed t' p row = Inr u'" "raw_same u u'"
proof -
  have p: "p < length (tb_rows t)" "validate_row (tb_schema t) row = Inr ()"
    "tb_rows u = (tb_rows t)[p := row]" "tb_schema u = tb_schema t" "tb_next_row_id u = tb_next_row_id t"
    using assms(2) by (auto simp: replace_row_indexed_def rbind_Inr_iff ok_or_def get_Some_iff split: option.splits)
  have "length (tb_row_ids t') = length (tb_rows t)" using assms(1) ids_length by (auto simp: same_table_def)
  with p(1,2) assms(1) have "\<exists>u'. replace_row_indexed t' p row = Inr u' \<and> tb_rows u' = (tb_rows t)[p := row] \<and>
      tb_schema u' = tb_schema t \<and> tb_next_row_id u' = tb_next_row_id t'"
    by (simp add: replace_row_indexed_def same_table_simps)
  with p assms(1) that show thesis by (auto simp: raw_same_def same_table_def)
qed

lemma same_upsert: "same_content c c' \<Longrightarrow> upsert_step c' = upsert_step c"
  by (simp add: upsert_step_def [abs_def] same_run_query)

lemma same_insert_one:
  assumes c: "same_content c c'" and t: "same_table t t'"
    and ins: "insert_one c n od (t, k) row = Inr (u, k')" and u: "tb_next_row_id u < u64_max"
  obtains u' where "insert_one c' n od (t', k) row = Inr (u', k')" "same_table u u'"
proof -
  have "\<exists>u'. insert_one c' n od (t', k) row = Inr (u', k') \<and> raw_same u u'"
  proof (cases "sorted_list_of_set (unique_conflict_positions t row)")
    case Nil
    with ins obtain "insert_row_indexed t row = Inr u" and k: "k' = k + 1"
      by (auto simp: insert_one_def rbind_Inr_iff)
    then obtain u' where "insert_row_indexed t' row = Inr u'" "raw_same u u'"
      using t raw_insert_row [of t t' row u] by (auto simp: same_table_iff)
    with Nil k t show ?thesis by (simp add: insert_one_def same_conflicts)
  next
    case (Cons p ps)
    with ins obtain current updated where od: "od \<noteq> []" "ps = []" and cur: "idx (tb_rows t) p = Inr current"
      and upd: "res_fold (upsert_step c n (tb_schema t) row) current od = Inr updated"
      and res: "(if list_all2 value_eq updated current then Inr (t, k)
          else rbind (replace_row_indexed t p updated) (\<lambda>t'. Inr (t', k + 2))) = Inr (u, k')"
      by (auto simp: insert_one_def rbind_Inr_iff fail_def split: if_splits)
    have upd': "res_fold (upsert_step c' n (tb_schema t') row) current od = Inr updated"
      using upd by (simp add: same_upsert [OF c] same_table_simps [OF t])
    have "\<exists>u'. (if list_all2 value_eq updated current then Inr (t', k)
          else rbind (replace_row_indexed t' p updated) (\<lambda>t'. Inr (t', k + 2))) = Inr (u', k') \<and> raw_same u u'"
    proof (cases "list_all2 value_eq updated current")
      case True
      with res t show ?thesis by (simp add: same_table_iff)
    next
      case False
      with res have "replace_row_indexed t p updated = Inr u" "k' = k + 2" by (auto simp: rbind_Inr_iff)
      moreover from this(1) obtain u' where "replace_row_indexed t' p updated = Inr u'" "raw_same u u'"
        by (rule raw_replace_row [OF t])
      ultimately show ?thesis using False by simp
    qed
    moreover have "insert_one c' n od (t', k) row = (if list_all2 value_eq updated current then Inr (t', k)
          else rbind (replace_row_indexed t' p updated) (\<lambda>t'. Inr (t', k + 2)))"
      using Cons od cur upd' t by (simp add: insert_one_def same_conflicts same_table_simps)
    ultimately show ?thesis by simp
  qed
  then obtain u' where u': "insert_one c' n od (t', k) row = Inr (u', k')" "raw_same u u'" by blast
  moreover have "tb_next_row_id u' < u64_max" using u'(2) u by (simp add: raw_same_def)
  ultimately have "same_table u u'"
    using insert_one_ok(2) [OF ins u] insert_one_ok(2) [OF u'(1)] t by (simp add: same_table_iff)
  with u'(1) that show thesis by blast
qed

lemma same_insert_fold:
  assumes "same_content c c'" "res_fold (insert_one c n od) (t, k) rows = Inr (u, k')" "tb_next_row_id u < u64_max"
    and "same_table t t'"
  shows "\<exists>u'. res_fold (insert_one c' n od) (t', k) rows = Inr (u', k') \<and> same_table u u'"
  using assms(2,4)
proof (induction rows arbitrary: t t' k)
  case (Cons row rows)
  from Cons.prems(1) obtain t1 k1 where step: "insert_one c n od (t, k) row = Inr (t1, k1)"
    and rest: "res_fold (insert_one c n od) (t1, k1) rows = Inr (u, k')" by (auto simp: rbind_Inr_iff)
  have "tb_next_row_id t1 < u64_max" using insert_fold_ok [OF rest assms(3)] by simp
  from same_insert_one [OF assms(1) Cons.prems(2) step this] obtain t1'
    where "insert_one c' n od (t', k) row = Inr (t1', k1)" "same_table t1 t1'" .
  with Cons.IH [OF rest] show ?case by simp
qed simp

section \<open>Statements\<close>

definition raw_content :: "catalog \<Rightarrow> catalog \<Rightarrow> bool" where
  "raw_content c c' \<longleftrightarrow> list_all2 (\<lambda>(n, t) (n', t'). n' = n \<and> raw_same t t') (cat_tables c) (cat_tables c')"

lemma same_content_raw: "same_content c c' \<Longrightarrow> raw_content c c'"
  unfolding same_content_def raw_content_def
  by (auto simp: same_table_iff elim: list_all2_mono)

lemma same_contentI:
  assumes "raw_content c c'" "catalog_ok c" "catalog_ok c'"
  shows "same_content c c'"
proof -
  have lift: "list_all2 (\<lambda>(n, t) (n', t'). n' = n \<and> same_table t t') m m'"
    if "list_all2 (\<lambda>(n, t) (n', t'). n' = n \<and> raw_same t t') m m'"
      "\<forall>(n, t) \<in> set m. table_ok t" "\<forall>(n, t) \<in> set m'. table_ok t" for m m'
    using that by (induction rule: list_all2_induct) (auto simp: same_table_iff)
  show ?thesis unfolding same_content_def
    using assms by (auto simp: raw_content_def catalog_ok_def intro!: lift)
qed

lemma raw_put: "raw_content c c' \<Longrightarrow> raw_same t t' \<Longrightarrow> raw_content (put_table c k t) (put_table c' k t')"
  by (simp add: raw_content_def put_table_def rel_update)

lemma raw_same_refl [simp]: "raw_same t t"
  by (simp add: raw_same_def)

lemma raw_ids_left: "raw_content c c' \<Longrightarrow> ids_left c \<Longrightarrow> ids_left c'"
proof -
  have "\<forall>(n, t) \<in> set m'. tb_next_row_id t < u64_max"
    if "list_all2 (\<lambda>(n, t) (n', t'). n' = n \<and> raw_same t t') m m'" "\<forall>(n, t) \<in> set m. tb_next_row_id t < u64_max" for m m'
    using that by (induction rule: list_all2_induct) (auto simp: raw_same_def)
  then show "raw_content c c' \<Longrightarrow> ids_left c \<Longrightarrow> ids_left c'" by (simp add: raw_content_def ids_left_def)
qed

text \<open>A handler follows another when its success carries over, with related catalogs.\<close>

definition follows :: "outcome \<Rightarrow> outcome \<Rightarrow> bool" where
  "follows m m' \<longleftrightarrow> (\<forall>r c1. m = Inr (r, c1) \<longrightarrow> (\<exists>c1'. m' = Inr (r, c1') \<and> raw_content c1 c1'))"

lemma followsI: "(\<And>r c1. m = Inr (r, c1) \<Longrightarrow> \<exists>c1'. m' = Inr (r, c1') \<and> raw_content c1 c1') \<Longrightarrow> follows m m'"
  by (simp add: follows_def)

lemma follows_create_table:
  assumes "same_content c c'"
  shows "follows (execute_create_table ln c n cols cs b) (execute_create_table ln c' n cols cs b)"
proof -
  let ?n = "to_ascii_lowercase n"
  let ?M = "res_fold (create_step (set (map (\<lambda>c. to_ascii_lowercase (col_name c)) cols))) (cols, 0) cs"
  have raw: "raw_content c c'" using assms by (rule same_content_raw)
  show ?thesis
  proof (cases "map_of (cat_tables c) ?n")
    case None
    then have "map_of (cat_tables c') ?n = None" using same_lookup_None [OF assms] by simp
    with None raw show ?thesis
      by (cases ?M; cases "duplicate_column {} cols")
        (auto simp: follows_def execute_create_table_def Let_def fail_def raw_put split: if_splits)
  next
    case (Some t)
    then obtain t' where "map_of (cat_tables c') ?n = Some t'" using same_lookup_Some [OF assms] by blast
    with Some raw show ?thesis by (auto simp: follows_def execute_create_table_def Let_def fail_def)
  qed
qed

lemma raw_find:
  assumes "list_all2 (\<lambda>(n, t) (n', t'). n' = n \<and> raw_same t t') m m'"
  shows "find (\<lambda>(other, t). other \<noteq> name \<and> P (tb_schema t)) m = None \<longleftrightarrow>
         find (\<lambda>(other, t). other \<noteq> name \<and> P (tb_schema t)) m' = None"
  using assms by (induction rule: list_all2_induct) (auto simp: raw_same_def split: if_splits)

lemma follows_drop_table:
  assumes "same_content c c'"
  shows "follows (execute_drop_table c n b) (execute_drop_table c' n b)"
proof (rule followsI)
  fix r c1
  let ?n = "to_ascii_lowercase n"
  assume ex: "execute_drop_table c n b = Inr (r, c1)"
  have raw: "raw_content c c'" using assms by (rule same_content_raw)
  have del: "raw_content (c\<lparr>cat_tables := AList.delete ?n (cat_tables c)\<rparr>) (c'\<lparr>cat_tables := AList.delete ?n (cat_tables c')\<rparr>)"
    using same_content_raw [OF same_delete [OF assms]] .
  show "\<exists>c1'. execute_drop_table c' n b = Inr (r, c1') \<and> raw_content c1 c1'"
  proof (cases "map_of (cat_tables c) ?n")
    case None
    then have "map_of (cat_tables c') ?n = None" using same_lookup_None [OF assms] by simp
    with None ex raw show ?thesis by (auto simp: execute_drop_table_def fail_def Let_def split: if_splits)
  next
    case (Some t)
    then obtain t' where t': "map_of (cat_tables c') ?n = Some t'" using same_lookup_Some [OF assms] by blast
    have "find (\<lambda>(other, t). other \<noteq> ?n \<and> list_ex (references ?n) (sch_constraints (tb_schema t))) (cat_tables c) = None"
      using ex Some by (auto simp: execute_drop_table_def fail_def Let_def split: option.splits)
    moreover from this have "find (\<lambda>(other, t). other \<noteq> ?n \<and> list_ex (references ?n) (sch_constraints (tb_schema t))) (cat_tables c') = None"
      using raw_find [OF raw [unfolded raw_content_def], of ?n "\<lambda>s. list_ex (references ?n) (sch_constraints s)"] by simp
    ultimately show ?thesis using ex Some t' del by (auto simp: execute_drop_table_def Let_def)
  qed
qed

lemma follows_create_index:
  assumes "same_content c c'"
  shows "follows (execute_create_index ln c n tn cols u b) (execute_create_index ln c' n tn cols u b)"
proof (rule followsI)
  fix r c1
  let ?n = "to_ascii_lowercase tn"
  assume ex: "execute_create_index ln c n tn cols u b = Inr (r, c1)"
  then obtain t where t: "map_of (cat_tables c) ?n = Some t"
    by (auto simp: execute_create_index_def rbind_Inr_iff ok_or_def Let_def split: option.splits)
  obtain t' where t': "map_of (cat_tables c') ?n = Some t'" "same_table t t'" by (rule same_lookup_Some [OF assms t])
  let ?s = "(tb_schema t)\<lparr>sch_indexes := sch_indexes (tb_schema t) @
      [\<lparr>ix_name = to_ascii_lowercase n, ix_columns = cols, ix_unique = u, ix_automatic = False\<rparr>]\<rparr>"
  have same: "same_table (rebuild_index ln (t\<lparr>tb_schema := ?s\<rparr>)) (rebuild_index ln (t'\<lparr>tb_schema := ?s\<rparr>))"
    using t'(2) rebuild_keeps_ok [of t "t\<lparr>tb_schema := ?s\<rparr>"] rebuild_keeps_ok [of t' "t'\<lparr>tb_schema := ?s\<rparr>"]
    by (simp add: same_table_iff raw_same_def)
  have "validate_unique_indexes (rebuild_index ln (t'\<lparr>tb_schema := ?s\<rparr>)) = Inr ()"
    if "validate_unique_indexes (rebuild_index ln (t\<lparr>tb_schema := ?s\<rparr>)) = Inr ()"
    using that same by (simp add: validate_unique_iff same_table_ok [OF same] same_unique_holds [OF same])
  moreover have "raw_content c c'" "raw_content (put_table c ?n (rebuild_index ln (t\<lparr>tb_schema := ?s\<rparr>)))
      (put_table c' ?n (rebuild_index ln (t'\<lparr>tb_schema := ?s\<rparr>)))"
    using assms same by (auto simp: same_table_iff intro: raw_put same_content_raw)
  ultimately show "\<exists>c1'. execute_create_index ln c' n tn cols u b = Inr (r, c1') \<and> raw_content c1 c1'"
    using ex t t' by (auto simp: execute_create_index_def Let_def rbind_Inr_iff fail_def same_table_simps split: if_splits)
qed

lemma follows_drop_index:
  assumes "same_content c c'"
  shows "follows (execute_drop_index ln c n tn b) (execute_drop_index ln c' n tn b)"
proof (rule followsI)
  fix r c1
  let ?n = "to_ascii_lowercase tn"
  assume ex: "execute_drop_index ln c n tn b = Inr (r, c1)"
  then obtain t where t: "map_of (cat_tables c) ?n = Some t"
    by (auto simp: execute_drop_index_def rbind_Inr_iff ok_or_def Let_def split: option.splits)
  obtain t' where t': "map_of (cat_tables c') ?n = Some t'" "same_table t t'" by (rule same_lookup_Some [OF assms t])
  have "raw_content (put_table c ?n (rebuild_index ln (t\<lparr>tb_schema := s\<rparr>))) (put_table c' ?n (rebuild_index ln (t'\<lparr>tb_schema := s\<rparr>)))" for s
    using t'(2) same_content_raw [OF assms] by (auto simp: same_table_iff raw_same_def intro!: raw_put)
  then show "\<exists>c1'. execute_drop_index ln c' n tn b = Inr (r, c1') \<and> raw_content c1 c1'"
    using ex t t' same_content_raw [OF assms]
    by (auto simp: execute_drop_index_def Let_def rbind_Inr_iff fail_def same_table_simps split: if_splits option.splits)
qed

lemma followsD: "follows m m' \<Longrightarrow> m = Inr (r, c1) \<Longrightarrow> \<exists>c1'. m' = Inr (r, c1') \<and> raw_content c1 c1'"
  by (simp add: follows_def)

lemma validated_follows:
  assumes "same_content c c'" "validated r c = Inr (r', c1)"
  shows "\<exists>c1'. validated r c' = Inr (r', c1') \<and> raw_content c1 c1'"
  using validatedD [OF assms(2)] same_validate [OF assms(1)] same_content_raw [OF assms(1)]
  by (simp add: validated_def)

lemma same_insert_rows: "same_content c c' \<Longrightarrow> insert_rows c' = insert_rows c"
  by (simp add: insert_rows_def [abs_def] same_run_query)

lemma follows_insert:
  assumes "same_content c c'" "execute_insert c n cols src od = Inr (r, c1)" "ids_left c1"
  shows "\<exists>c1'. execute_insert c' n cols src od = Inr (r, c1') \<and> raw_content c1 c1'"
proof -
  let ?n = "to_ascii_lowercase n"
  from assms(2) obtain exprs t rows u k where ex: "insert_rows c src = Inr exprs" "map_of (cat_tables c) ?n = Some t"
    "res_map (build_row (tb_schema t) cols) exprs = Inr rows"
    "res_fold (insert_one c ?n od) (t, 0) rows = Inr (u, k)" and v: "validated (RowsAffected k) (put_table c ?n u) = Inr (r, c1)"
    by (auto simp: execute_insert_def Let_def rbind_Inr_iff ok_or_def split: option.splits)
  have wf: "wf_map (cat_tables c)" using assms(1) by (simp add: same_content_def)
  have "tb_next_row_id u < u64_max" using validatedD [OF v] assms(3) ids_left_put [OF wf] by simp
  note fold = same_insert_fold [OF assms(1) ex(4) this]
  obtain t' where t': "map_of (cat_tables c') ?n = Some t'" "same_table t t'" by (rule same_lookup_Some [OF assms(1) ex(2)])
  from fold [OF t'(2)] obtain u' where u': "res_fold (insert_one c' ?n od) (t', 0) rows = Inr (u', k)" "same_table u u'" by blast
  have "same_content (put_table c ?n u) (put_table c' ?n u')" by (rule same_put [OF assms(1) u'(2)])
  from validated_follows [OF this v] show ?thesis
    using ex t' u' same_insert_rows [OF assms(1)] by (simp add: execute_insert_def same_table_simps)
qed

lemma same_selected: "same_content c c' \<Longrightarrow> selected c' = selected c"
  unfolding selected_def [abs_def] by (simp only: same_run_query)

lemma same_assign: "same_content c c' \<Longrightarrow> assign_step c' = assign_step c"
  unfolding assign_step_def [abs_def] by (simp only: same_run_query)

lemma same_update_row:
  assumes "same_content c c'" "same_table t t'" "p < length (tb_rows t)"
  shows "update_row c' t' cols as sel (p, row) = update_row c t cols as sel (p, row)"
  unfolding update_row_def prod.case same_not_candidate [OF assms(2,3)] same_selected [OF assms(1)]
    same_assign [OF assms(1)] same_table_simps [OF assms(2)] ..

lemma follows_update:
  assumes "same_content c c'"
  shows "follows (execute_update ln c n as sel) (execute_update ln c' n as sel)"
proof (rule followsI)
  fix r c1
  let ?n = "to_ascii_lowercase n"
  assume "execute_update ln c n as sel = Inr (r, c1)"
  then obtain t rs where ex: "map_of (cat_tables c) ?n = Some t"
    "res_map (update_row c t (table_columns ?n (tb_schema t)) as sel) (enumerate 0 (tb_rows t)) = Inr rs"
    and v: "validated (RowsAffected (sum_list (map snd rs))) (put_table c ?n (rebuild_index ln (t\<lparr>tb_rows := map fst rs\<rparr>))) = Inr (r, c1)"
    by (auto simp: execute_update_def Let_def rbind_Inr_iff ok_or_def split: option.splits)
  obtain t' where t': "map_of (cat_tables c') ?n = Some t'" "same_table t t'" by (rule same_lookup_Some [OF assms ex(1)])
  have rs: "res_map (update_row c' t' (table_columns ?n (tb_schema t)) as sel) (enumerate 0 (tb_rows t)) = Inr rs"
    unfolding ex(2) [symmetric]
    by (rule res_map_cong [OF refl]) (auto simp: in_set_enumerate_eq same_update_row [OF assms t'(2)])
  have len: "length rs = length (tb_rows t)" using res_map_length [OF ex(2)] by simp
  have "same_table (rebuild_index ln (t\<lparr>tb_rows := map fst rs\<rparr>)) (rebuild_index ln (t'\<lparr>tb_rows := map fst rs\<rparr>))"
    using t'(2) len rebuild_keeps_ok [of t "t\<lparr>tb_rows := map fst rs\<rparr>"] rebuild_keeps_ok [of t' "t'\<lparr>tb_rows := map fst rs\<rparr>"]
    by (simp add: same_table_iff raw_same_def)
  from validated_follows [OF same_put [OF assms this] v]
  show "\<exists>c1'. execute_update ln c' n as sel = Inr (r, c1') \<and> raw_content c1 c1'"
    using t' rs by (simp add: execute_update_def same_table_simps)
qed

lemma same_delete_fold:
  assumes "same_content c c'" "same_table t t'"
    and "res_fold (delete_step c t cols sel) (rows, ids, d) xs = Inr (rows1, ids1, d1)"
    and "\<forall>(p, row) \<in> set xs. p < length (tb_rows t)"
  shows "\<exists>ids1'. res_fold (delete_step c' t' cols sel) (rows, ids', d) xs = Inr (rows1, ids1', d1)"
  using assms(3,4)
proof (induction xs arbitrary: rows ids ids' d)
  case (Cons x xs)
  obtain p row where x: "x = (p, row)" by (cases x)
  with Cons.prems(2) have p: "p < length (tb_rows t)" by simp
  have len: "p < length (tb_row_ids t)" "p < length (tb_row_ids t')"
    using p assms(2) ids_length by (auto simp: same_table_def)
  from Cons.prems(1) obtain st where step: "delete_step c t cols sel (rows, ids, d) (p, row) = Inr st"
    and rest: "res_fold (delete_step c t cols sel) st xs = Inr (rows1, ids1, d1)" by (auto simp: x rbind_Inr_iff)
  from step obtain m where m: "(if not_candidate t sel p then Inr False else selected c cols sel row) = Inr m"
    and st: "st = (if m then (rows, ids, d + 1) else (rows @ [row], ids @ [tb_row_ids t ! p], d))"
    using len(1) by (auto simp: delete_step_def rbind_Inr_iff split: if_splits)
  have "delete_step c' t' cols sel (rows, ids', d) (p, row) =
      Inr (if m then (rows, ids', d + 1) else (rows @ [row], ids' @ [tb_row_ids t' ! p], d))"
    unfolding delete_step_def prod.case same_not_candidate [OF assms(2) p] same_selected [OF assms(1)] m
    using len(2) by simp
  moreover have "\<exists>ids1'. res_fold (delete_step c' t' cols sel)
      (if m then (rows, ids', d + 1) else (rows @ [row], ids' @ [tb_row_ids t' ! p], d)) xs = Inr (rows1, ids1', d1)"
    using Cons.IH rest Cons.prems(2) by (auto simp: st split: if_splits)
  ultimately show ?case by (simp add: x)
qed simp

lemma follows_delete:
  assumes "same_content c c'"
  shows "follows (execute_delete ln c n sel) (execute_delete ln c' n sel)"
proof (rule followsI)
  fix r c1
  let ?n = "to_ascii_lowercase n"
  assume del: "execute_delete ln c n sel = Inr (r, c1)"
  then obtain t rows ids d where ex: "map_of (cat_tables c) ?n = Some t"
    "res_fold (delete_step c t (table_columns ?n (tb_schema t)) sel) ([], [], 0) (enumerate 0 (tb_rows t)) = Inr (rows, ids, d)"
    and v: "validated (RowsAffected d) (put_table c ?n (rebuild_index ln (t\<lparr>tb_rows := rows, tb_row_ids := ids\<rparr>))) = Inr (r, c1)"
    by (auto simp: execute_delete_def Let_def rbind_Inr_iff ok_or_def split: option.splits)
  obtain t' where t': "map_of (cat_tables c') ?n = Some t'" "same_table t t'" by (rule same_lookup_Some [OF assms ex(1)])
  have "\<forall>(p, row) \<in> set (enumerate 0 (tb_rows t)). p < length (tb_rows t)" by (auto simp: in_set_enumerate_eq)
  from same_delete_fold [OF assms t'(2) ex(2) this, of "[]"] obtain ids'
    where ids': "res_fold (delete_step c' t' (table_columns ?n (tb_schema t)) sel) ([], [], 0) (enumerate 0 (tb_rows t)) = Inr (rows, ids', d)"
    by blast
  let ?u = "t\<lparr>tb_rows := rows, tb_row_ids := ids\<rparr>" and ?u' = "t'\<lparr>tb_rows := rows, tb_row_ids := ids'\<rparr>"
  have "table_ok (rebuild_index ln ?u)" by (rule delete_rebuild_ok [OF same_table_ok(1) [OF t'(2)] ex(2)])
  moreover have "table_ok (rebuild_index ln ?u')"
    by (rule delete_rebuild_ok [OF same_table_ok(2) [OF t'(2)]]) (use ids' in \<open>simp add: same_table_simps [OF t'(2)]\<close>)
  ultimately have "same_table (rebuild_index ln ?u) (rebuild_index ln ?u')"
    using t'(2) by (simp add: same_table_iff raw_same_def)
  from validated_follows [OF same_put [OF assms this] v]
  show "\<exists>c1'. execute_delete ln c' n sel = Inr (r, c1') \<and> raw_content c1 c1'"
    using t' ids' by (simp add: execute_delete_def same_table_simps)
qed

subsection \<open>ALTER TABLE\<close>

text \<open>An alter operation reads only the schema and the rows of its table, and sets only them.\<close>

definition moved_to :: "table \<Rightarrow> table \<Rightarrow> table" where
  "moved_to t' u = t'\<lparr>tb_rows := tb_rows u, tb_schema := tb_schema u\<rparr>"

lemma moved_to_self: "raw_same t t' \<Longrightarrow> moved_to t' t = t'"
  by (cases t') (simp add: moved_to_def raw_same_def)

lemma moved_to_same: "raw_same t t' \<Longrightarrow> same_ids t u \<Longrightarrow> raw_same u (moved_to t' u)"
  by (simp add: raw_same_def moved_to_def same_ids_def)

lemma keep_rows: "tb_rows t' = rows \<Longrightarrow> t'\<lparr>tb_rows := rows\<rparr> = t'"
  by (cases t') simp

lemma moved_schema: "raw_same t t' \<Longrightarrow> moved_to t' (t\<lparr>tb_schema := s\<rparr>) = t'\<lparr>tb_schema := s\<rparr>"
  by (simp add: moved_to_def raw_same_def keep_rows)

lemma moved_rows: "moved_to t' (t\<lparr>tb_rows := rows, tb_schema := s\<rparr>) = t'\<lparr>tb_rows := rows, tb_schema := s\<rparr>"
  by (simp add: moved_to_def)

lemmas alter_defs = alter_add_column_def alter_drop_column_def alter_rename_column_def alter_modify_column_def
  alter_set_default_def alter_set_nullable_def alter_set_data_type_def alter_add_constraint_def
  alter_drop_constraint_def alter_drop_primary_key_def set_schema_def

lemma rbind_InrE: "rbind m f = Inr y \<Longrightarrow> (\<And>x. m = Inr x \<Longrightarrow> f x = Inr y \<Longrightarrow> P) \<Longrightarrow> P"
  by (auto simp: rbind_Inr_iff)

lemma rbind_if: "rbind (if b then x else y) f = (if b then rbind x f else rbind y f)"
  by simp

lemma rbind_option: "rbind (case x of None \<Rightarrow> a | Some y \<Rightarrow> b y) f = (case x of None \<Rightarrow> rbind a f | Some y \<Rightarrow> rbind (b y) f)"
  by (cases x) simp_all

lemma rbind_fail: "rbind (fail msg) f = fail msg"
  by (simp add: fail_def)

lemma moved_alter:
  assumes raw: "raw_same t t'"
  shows "alter_add_column t' c cs b = rbind (alter_add_column t c cs b) (\<lambda>u. Inr (map_option (moved_to t') u))"
    and "alter_modify_column t' old c cs = rbind (alter_modify_column t old c cs) (\<lambda>u. Inr (moved_to t' u))"
    and "alter_set_default t' col v = rbind (alter_set_default t col v) (\<lambda>u. Inr (moved_to t' u))"
    and "alter_set_nullable t' col b = rbind (alter_set_nullable t col b) (\<lambda>u. Inr (moved_to t' u))"
    and "alter_set_data_type t' col dt = rbind (alter_set_data_type t col dt) (\<lambda>u. Inr (moved_to t' u))"
    and "alter_add_constraint t' k = rbind (alter_add_constraint t k) (\<lambda>u. Inr (moved_to t' u))"
    and "alter_drop_constraint t' col b = rbind (alter_drop_constraint t col b) (\<lambda>u. Inr (moved_to t' u))"
    and "alter_drop_primary_key t' = rbind (alter_drop_primary_key t) (\<lambda>u. Inr (moved_to t' u))"
proof -
  have s: "tb_schema t' = tb_schema t" "tb_rows t' = tb_rows t" using raw by (simp_all add: raw_same_def)
  note ms = rbind_assoc rbind_simps rbind_if rbind_fail moved_schema [OF raw] moved_rows moved_to_self [OF raw] option.map
  show "alter_add_column t' c cs b = rbind (alter_add_column t c cs b) (\<lambda>u. Inr (map_option (moved_to t') u))"
    unfolding alter_add_column_def Let_def s ms ..
  show "alter_modify_column t' old c cs = rbind (alter_modify_column t old c cs) (\<lambda>u. Inr (moved_to t' u))"
    unfolding alter_modify_column_def Let_def s ms ..
  show "alter_set_default t' col v = rbind (alter_set_default t col v) (\<lambda>u. Inr (moved_to t' u))"
    unfolding alter_set_default_def set_schema_def Let_def s ms ..
  show "alter_set_nullable t' col b = rbind (alter_set_nullable t col b) (\<lambda>u. Inr (moved_to t' u))"
    unfolding alter_set_nullable_def set_schema_def Let_def s ms ..
  show "alter_set_data_type t' col dt = rbind (alter_set_data_type t col dt) (\<lambda>u. Inr (moved_to t' u))"
    unfolding alter_set_data_type_def Let_def s ms ..
  show "alter_add_constraint t' k = rbind (alter_add_constraint t k) (\<lambda>u. Inr (moved_to t' u))"
    unfolding alter_add_constraint_def set_schema_def Let_def s ms ..
  show "alter_drop_constraint t' col b = rbind (alter_drop_constraint t col b) (\<lambda>u. Inr (moved_to t' u))"
    unfolding alter_drop_constraint_def set_schema_def Let_def s rbind_option ms ..
  show "alter_drop_primary_key t' = rbind (alter_drop_primary_key t) (\<lambda>u. Inr (moved_to t' u))"
    unfolding alter_drop_primary_key_def set_schema_def Let_def s ms ..
qed

lemma raw_inbound: "raw_content c c' \<Longrightarrow> inbound_reference c' n k = inbound_reference c n k"
proof -
  have "list_ex (\<lambda>(other, t). other \<noteq> n \<and> list_ex (inbound_changed n k) (sch_constraints (tb_schema t))) m' =
        list_ex (\<lambda>(other, t). other \<noteq> n \<and> list_ex (inbound_changed n k) (sch_constraints (tb_schema t))) m"
    if "list_all2 (\<lambda>(n, t) (n', t'). n' = n \<and> raw_same t t') m m'" for m m'
    using that by (induction rule: list_all2_induct) (auto simp: raw_same_def)
  then show "raw_content c c' \<Longrightarrow> inbound_reference c' n k = inbound_reference c n k"
    by (simp add: raw_content_def inbound_reference_def)
qed

lemma moved_drop_column:
  assumes "raw_same t t'" "raw_content c c'" "alter_drop_column c n t k b = Inr u"
  shows "alter_drop_column c' n t' k b = Inr (map_option (moved_to t') u)"
proof -
  have s: "tb_schema t' = tb_schema t" "tb_rows t' = tb_rows t" using assms(1) by (simp_all add: raw_same_def)
  show ?thesis using assms(3) raw_inbound [OF assms(2), of n k]
    by (auto simp: alter_defs s moved_rows moved_to_def Let_def fail_def rbind_Inr_iff split: if_splits option.splits)
qed

lemma raw_rename_other:
  assumes "raw_content c c'"
  shows "raw_content (rename_other_tables ln n old new c) (rename_other_tables ln n old new c')"
proof -
  let ?f = "\<lambda>(other, t). if other \<noteq> n \<and> list_ex (inbound_changed n old) (sch_constraints (tb_schema t))
        then (other, refresh_constraint_metadata ln (t\<lparr>tb_schema := (tb_schema t)\<lparr>sch_constraints :=
               map (rename_inbound n old new) (sch_constraints (tb_schema t))\<rparr>\<rparr>))
        else (other, t)"
  have "raw_same (refresh_constraint_metadata ln (t\<lparr>tb_schema := s\<rparr>)) (refresh_constraint_metadata ln (t'\<lparr>tb_schema := s\<rparr>))"
    if "raw_same t t'" for t t' s
    using that by (intro raw_same_refresh) (simp add: raw_same_def)
  note refresh = this
  have "list_all2 (\<lambda>(n, t) (n', t'). n' = n \<and> raw_same t t') (map ?f m) (map ?f m')"
    if "list_all2 (\<lambda>(n, t) (n', t'). n' = n \<and> raw_same t t') m m'" for m m'
    using that
  proof (induction rule: list_all2_induct)
    case (Cons x m y m')
    obtain a t t' where xy: "x = (a, t)" "y = (a, t')" "raw_same t t'" using Cons.hyps(1) by (cases x, cases y) auto
    have "tb_schema t' = tb_schema t" using xy(3) by (simp add: raw_same_def)
    with Cons.IH xy refresh [OF xy(3)] show ?case by simp
  qed simp
  then show ?thesis using assms by (simp add: raw_content_def rename_other_tables_def)
qed

lemma moved_rename_column:
  assumes "raw_same t t'" "raw_content c c'" "alter_rename_column ln c n t old new = (Inr (c1, u) :: alter_state res)"
  shows "\<exists>c1'. alter_rename_column ln c' n t' old new = Inr (c1', moved_to t' u) \<and> raw_content c1 c1'"
proof -
  have s: "tb_schema t' = tb_schema t" "tb_rows t' = tb_rows t" using assms(1) by (simp_all add: raw_same_def)
  show ?thesis using assms(3) raw_rename_other [OF assms(2), of ln n old new]
    by (auto simp: alter_defs s moved_schema [OF assms(1)] Let_def fail_def rbind_Inr_iff split: if_splits)
qed

lemma follows_alter_operation:
  assumes raw: "raw_same t t'" "raw_content c c'" and "apply_alter_operation ln n (c, t) op = (Inr (c1, u) :: alter_state res)"
  shows "\<exists>c1' u'. apply_alter_operation ln n (c', t') op = Inr (c1', u') \<and> raw_same u u' \<and> raw_content c1 c1'"
proof -
  note ids = alter_same_ids [THEN moved_to_same [OF raw(1)], THEN raw_same_refresh]
  show ?thesis
  proof (cases op)
    case (RenameColumn old new)
    with assms(3) obtain u0 where u0: "alter_rename_column ln c n t old new = Inr (c1, u0)" "u = refresh_constraint_metadata ln u0"
      by (auto simp: apply_alter_operation_def rbind_Inr_iff)
    with moved_rename_column [OF raw u0(1)] ids(3) [OF u0(1)] show ?thesis
      by (auto simp: RenameColumn apply_alter_operation_def)
  next
    case (AddColumn col cs b)
    with assms(3) have "rbind (alter_add_column t col cs b) (\<lambda>x. case x of None \<Rightarrow> Inr (c, t)
        | Some v \<Rightarrow> Inr (c, refresh_constraint_metadata ln v)) = (Inr (c1, u) :: alter_state res)"
      by (simp add: apply_alter_operation_def refreshed_unless_early_def)
    then obtain x where x: "alter_add_column t col cs b = Inr x" and
      u: "(case x of None \<Rightarrow> Inr (c, t) | Some v \<Rightarrow> Inr (c, refresh_constraint_metadata ln v)) = (Inr (c1, u) :: alter_state res)"
      by (rule rbind_InrE)
    have x': "alter_add_column t' col cs b = Inr (map_option (moved_to t') x)" unfolding moved_alter(1) [OF raw(1)] x by simp
    show ?thesis
    proof (cases x)
      case None
      with x' u raw show ?thesis by (simp add: AddColumn apply_alter_operation_def refreshed_unless_early_def)
    next
      case (Some v)
      with x' u raw ids(1) [OF x [unfolded Some]] show ?thesis
        by (auto simp: AddColumn apply_alter_operation_def refreshed_unless_early_def)
    qed
  next
    case (DropColumn col b)
    with assms(3) have "rbind (alter_drop_column c n t col b) (\<lambda>x. case x of None \<Rightarrow> Inr (c, t)
        | Some v \<Rightarrow> Inr (c, refresh_constraint_metadata ln v)) = (Inr (c1, u) :: alter_state res)"
      by (simp add: apply_alter_operation_def refreshed_unless_early_def)
    then obtain x where x: "alter_drop_column c n t col b = Inr x" and
      u: "(case x of None \<Rightarrow> Inr (c, t) | Some v \<Rightarrow> Inr (c, refresh_constraint_metadata ln v)) = (Inr (c1, u) :: alter_state res)"
      by (rule rbind_InrE)
    note x' = moved_drop_column [OF raw x]
    show ?thesis
    proof (cases x)
      case None
      with x' u raw show ?thesis by (simp add: DropColumn apply_alter_operation_def refreshed_unless_early_def)
    next
      case (Some v)
      with x' u raw ids(2) [OF x [unfolded Some]] show ?thesis
        by (auto simp: DropColumn apply_alter_operation_def refreshed_unless_early_def)
    qed
  qed (use assms(3) raw ids in
      \<open>auto simp: apply_alter_operation_def refreshed_def rbind_Inr_iff moved_alter [OF raw(1)]\<close>)
qed

lemma follows_alter_fold:
  assumes "res_fold (apply_alter_operation ln n) (c, t) ops = Inr (c1, u)" "raw_same t t'" "raw_content c c'"
  shows "\<exists>c1' u'. res_fold (apply_alter_operation ln n) (c', t') ops = Inr (c1', u') \<and> raw_same u u' \<and> raw_content c1 c1'"
  using assms
proof (induction ops arbitrary: c t c' t')
  case (Cons op ops)
  from Cons.prems(1) obtain c2 t2 where step: "apply_alter_operation ln n (c, t) op = Inr (c2, t2)"
    and rest: "res_fold (apply_alter_operation ln n) (c2, t2) ops = Inr (c1, u)" by (auto simp: rbind_Inr_iff)
  from follows_alter_operation [OF Cons.prems(2,3) step] obtain c2' t2'
    where "apply_alter_operation ln n (c', t') op = Inr (c2', t2')" "raw_same t2 t2'" "raw_content c2 c2'" by blast
  with Cons.IH [OF rest] show ?case by simp
qed simp

lemma follows_alter:
  assumes "same_content c c'"
  shows "follows (execute_alter_table ln c n ops) (execute_alter_table ln c' n ops)"
proof (rule followsI)
  fix r c1
  let ?n = "to_ascii_lowercase n"
  assume "execute_alter_table ln c n ops = Inr (r, c1)"
  then obtain t c2 u where ex: "map_of (cat_tables c) ?n = Some t"
    "res_fold (apply_alter_operation ln ?n) (c, t) ops = Inr (c2, u)"
    "r = RowsAffected 0" "c1 = put_table c2 ?n (refresh_constraint_metadata ln u)"
    by (auto simp: execute_alter_table_def Let_def rbind_Inr_iff ok_or_def split: option.splits)
  obtain t' where t': "map_of (cat_tables c') ?n = Some t'" "same_table t t'" by (rule same_lookup_Some [OF assms ex(1)])
  from follows_alter_fold [OF ex(2) _ same_content_raw [OF assms], of t'] t'(2) obtain c2' u'
    where "res_fold (apply_alter_operation ln ?n) (c', t') ops = Inr (c2', u')" "raw_same u u'" "raw_content c2 c2'"
    by (auto simp: same_table_iff)
  with t'(1) ex(3,4) show "\<exists>c1'. execute_alter_table ln c' n ops = Inr (r, c1') \<and> raw_content c1 c1'"
    by (auto simp: execute_alter_table_def intro!: raw_put raw_same_refresh)
qed

subsection \<open>Every write statement\<close>

lemma statement_follows:
  assumes "same_content c c'" "is_write_statement st" "execute_statement ln debug c st = Inr (r, c1)" "ids_left c1"
  shows "\<exists>c1'. execute_statement ln debug c' st = Inr (r, c1') \<and> raw_content c1 c1'"
  using assms(2,3)
  by (cases st)
    (auto simp: execute_statement_def intro: follows_create_table [OF assms(1), THEN followsD]
      follows_drop_table [OF assms(1), THEN followsD] follows_create_index [OF assms(1), THEN followsD]
      follows_drop_index [OF assms(1), THEN followsD] follows_alter [OF assms(1), THEN followsD]
      follows_update [OF assms(1), THEN followsD] follows_delete [OF assms(1), THEN followsD]
      follows_insert [OF assms(1) _ assms(4)])

lemma write_follows:
  assumes "same_content c c'" "is_write_statement st" "execute_catalog ln debug c st = Inr (r, c1)" "ids_left c1"
  obtains c1' where "execute_catalog ln debug c' st = Inr (r, c1')" "same_content c1 c1'"
proof -
  from assms(2,3) have st: "execute_statement ln debug c st = Inr (r, c1)" and valid: "validate_catalog c1 = Inr ()"
    by (auto simp: execute_catalog_def rbind_Inr_iff)
  from statement_follows [OF assms(1,2) st assms(4)] obtain c1'
    where c1': "execute_statement ln debug c' st = Inr (r, c1')" "raw_content c1 c1'" by blast
  have ok: "catalog_ok c" "catalog_ok c'" using same_content_ok [OF assms(1)] by simp_all
  have "catalog_ok c1" by (rule execute_statement_ok [OF ok(1) st assms(4)])
  moreover have "catalog_ok c1'"
    by (rule execute_statement_ok [OF ok(2) c1'(1) raw_ids_left [OF c1'(2) assms(4)]])
  ultimately have same: "same_content c1 c1'" by (rule same_contentI [OF c1'(2)])
  have "execute_catalog ln debug c' st = Inr (r, c1')"
    using assms(2) c1'(1) same_validate [OF same valid] by (simp add: execute_catalog_def)
  with same that show thesis by blast
qed

end
