(* ===== verification/Durability.thy ===== *)
theory Durability
  imports Session Content
begin

text \<open>
  What survives a crash. A database is \<open>recoverable\<close> when its files, read by the code that
  opens a data directory, give back the content of its catalog. The lemmas show that every
  acknowledged commit and every checkpoint keep it so, under the conditions the code relies on:
  the file operations succeed, the log record and the snapshot read back, and each logged
  statement parses to the statement that ran. Where one of them fails the code loses
  commits; the last section shows how.
\<close>

section \<open>Logged statements\<close>

text \<open>
  A logged statement replays as it ran: its text parses, without the optimiser, to the
  statement the optimiser had returned.
\<close>

definition stable :: "platform \<Rightarrow> durable_statement \<Rightarrow> bool" where
  "stable pf d = (case d of
     DurableSql sql \<Rightarrow> (case parse_sql (pf_front pf) sql of
         Inr st \<Rightarrow> is_write_statement st \<and> compile (pf_front pf) (normalize_sql sql) = Inr st
       | Inl _ \<Rightarrow> False)
   | DurableBound st \<Rightarrow> is_write_statement st)"

text \<open>No table runs out of row ids while the statements run.\<close>

fun ids_along :: "platform \<Rightarrow> catalog \<Rightarrow> durable_statement list \<Rightarrow> bool" where
  "ids_along pf c [] = True"
| "ids_along pf c (d # ds) = (case exec_durable pf c d of Inr c1 \<Rightarrow> ids_left c1 \<and> ids_along pf c1 ds | Inl _ \<Rightarrow> True)"

lemma same_content_versions [simp]:
  "same_content (c\<lparr>cat_version := v\<rparr>) c' = same_content c c'"
  "same_content (c\<lparr>cat_schema_version := v\<rparr>) c' = same_content c c'"
  "same_content c (c'\<lparr>cat_version := v\<rparr>) = same_content c c'"
  "same_content c (c'\<lparr>cat_schema_version := v\<rparr>) = same_content c c'"
  by (simp_all add: same_content_def)

lemma stable_statement:
  assumes "stable pf d"
  obtains st where "is_write_statement st"
    and "\<And>c. exec_durable pf c d = rbind (run pf c st) (\<lambda>(r, c1). Inr c1)"
    and "\<And>c. replay_durable pf c d = replay_statement pf c st"
proof (cases d)
  case (DurableSql sql)
  with assms obtain st where "parse_sql (pf_front pf) sql = Inr st" "is_write_statement st"
    "compile (pf_front pf) (normalize_sql sql) = Inr st" by (auto simp: stable_def split: sum.splits)
  with that [of st] show ?thesis by (simp add: DurableSql exec_durable_def replay_durable_def context_fail_def)
next
  case (DurableBound st)
  with assms that [of st] show ?thesis by (simp add: stable_def exec_durable_def replay_durable_def)
qed

lemma replay_one:
  assumes "same_content c c'" "stable pf d" "exec_durable pf c d = Inr w" "ids_left w"
  obtains w' where "replay_durable pf c' d = Inr w'" "same_content w w'"
proof -
  obtain st where st: "is_write_statement st" "exec_durable pf c d = rbind (run pf c st) (\<lambda>(r, c1). Inr c1)"
    "replay_durable pf c' d = replay_statement pf c' st"
    by (rule stable_statement [OF assms(2)]) blast
  from assms(3) obtain r where "run pf c st = Inr (r, w)" by (auto simp: st(2) rbind_Inr_iff)
  from write_follows [OF assms(1) st(1) this assms(4)] obtain w'
    where "run pf c' st = Inr (r, w')" "same_content w w'" .
  with that show thesis by (auto simp: st(3) replay_statement_def context_fail_def)
qed

lemma replay_exec:
  assumes "res_fold (exec_durable pf) c ds = Inr w" "same_content c c'" "\<forall>d \<in> set ds. stable pf d" "ids_along pf c ds"
  shows "\<exists>w'. res_fold (replay_durable pf) c' ds = Inr w' \<and> same_content w w'"
  using assms
proof (induction ds arbitrary: c c')
  case (Cons d ds)
  from Cons.prems(1) obtain c1 where step: "exec_durable pf c d = Inr c1" and rest: "res_fold (exec_durable pf) c1 ds = Inr w"
    by (auto simp: rbind_Inr_iff)
  with Cons.prems(3,4) have "stable pf d" "ids_left c1" "ids_along pf c1 ds" by simp_all
  from replay_one [OF Cons.prems(2) this(1) step this(2)] obtain c1'
    where "replay_durable pf c' d = Inr c1'" "same_content c1 c1'" .
  with Cons.IH [OF rest] Cons.prems(3) \<open>ids_along pf c1 ds\<close> show ?case by simp
qed simp

section \<open>Snapshots\<close>

text \<open>What \<open>serde\<close> gives back of a table: the fields marked \<open>skip\<close> have their defaults.\<close>

definition stored_table :: "table \<Rightarrow> table" where
  "stored_table t = t\<lparr>tb_primary_key_index := [], tb_indexes := [], tb_bloom_rate := default_bloom_false_positive_rate\<rparr>"

definition snapshot_readable :: "platform \<Rightarrow> catalog_snapshot \<Rightarrow> bool" where
  "snapshot_readable pf s \<longleftrightarrow> utf8_valid (pf_catalog_json pf s) \<and>
     pf_read_catalog pf (pf_catalog_json pf s) = Inr (s\<lparr>cs_tables := map (\<lambda>(n, t). (n, stored_table t)) (cs_tables s)\<rparr>)"

text \<open>Tables that loading does not take for a legacy format: their constraints are in the schema.\<close>

definition migrated :: "table_schema \<Rightarrow> bool" where
  "migrated s \<longleftrightarrow> (sch_constraints s = [] \<longrightarrow> concat (map legacy_constraint (sch_columns s)) = []) \<and>
     (sch_indexes s = [] \<longrightarrow> automatic_indexes s = [])"

definition snapshot_stable :: "catalog \<Rightarrow> bool" where
  "snapshot_stable cat \<longleftrightarrow> ids_left cat \<and>
     (\<forall>(n, t) \<in> set (cat_tables cat). to_ascii_lowercase n = n \<and> migrated (tb_schema t) \<and> 0 < tb_next_row_id t)"

lemma foldl_max_bound: "(\<forall>i \<in> set ids. i < (b :: nat)) \<Longrightarrow> a < b \<Longrightarrow> foldl max a ids < b"
  by (induction ids arbitrary: a) auto

lemma foldl_max_ge: "a \<le> foldl max (a :: nat) ids \<and> (\<forall>i \<in> set ids. i \<le> foldl max a ids)"
proof (induction ids arbitrary: a)
  case (Cons i ids)
  from Cons [of "max a i"] show ?case by auto
qed simp

lemma migrate_current:
  assumes "migrated (tb_schema t)" "length (tb_row_ids t) = length (tb_rows t)"
  shows "migrate_legacy_rows ln t = rebuild_index ln (t\<lparr>tb_next_row_id := sat_add (foldl max 0 (tb_row_ids t)) 1\<rparr>)"
proof -
  let ?s = "tb_schema t"
  have constraints: "(if sch_constraints ?s = [] then ?s\<lparr>sch_constraints := concat (map legacy_constraint (sch_columns ?s))\<rparr> else ?s) = ?s"
    and indexes: "(if sch_indexes ?s = [] then ?s\<lparr>sch_indexes := automatic_indexes ?s\<rparr> else ?s) = ?s"
    using assms(1) by (cases ?s, simp add: migrated_def del: concat_eq_Nil_conv)+
  show ?thesis unfolding migrate_legacy_rows_def Let_def constraints indexes using assms(2) by simp
qed

lemma migrate_stored:
  assumes "table_ok t" "migrated (tb_schema t)" "0 < tb_next_row_id t" "tb_next_row_id t < u64_max"
  shows "same_table t (migrate_legacy_rows ln (stored_table t))"
proof -
  let ?next = "sat_add (foldl max 0 (tb_row_ids t)) 1"
  let ?u = "(stored_table t)\<lparr>tb_next_row_id := ?next\<rparr>"
  have ids: "ids_ok t" using assms(1) by (simp add: table_ok_def)
  then have bound: "foldl max 0 (tb_row_ids t) < tb_next_row_id t"
    using assms(3) by (intro foldl_max_bound) (auto simp: ids_ok_def)
  then have next_eq: "?next = foldl max 0 (tb_row_ids t) + 1" using assms(4) by (simp add: sat_add_def)
  have "migrate_legacy_rows ln (stored_table t) = rebuild_index ln ?u"
    using migrate_current [of "stored_table t" ln] assms(2) ids by (simp add: stored_table_def ids_ok_def)
  moreover have "ids_ok ?u"
    using ids foldl_max_ge [of 0 "tb_row_ids t"] next_eq by (auto simp: ids_ok_def stored_table_def)
  ultimately show ?thesis
    using assms(1) bound next_eq by (simp add: same_table_def rebuild_index_ok stored_table_def)
qed

lemma foldl_update_distinct:
  assumes "wf_map (acc @ map (\<lambda>(n, t). (n, f t)) m)" "\<forall>(n, t) \<in> set m. g n = n"
  shows "foldl (\<lambda>m (n, t). AList.update (g n) (h t) m) acc (map (\<lambda>(n, t). (n, f t)) m) = acc @ map (\<lambda>(n, t). (n, h (f t))) m"
  using assms
proof (induction m arbitrary: acc)
  case (Cons x m)
  obtain n t where x: "x = (n, t)" by (cases x)
  have "n \<notin> fst ` set acc" using Cons.prems(1) by (auto simp: x wf_map_def)
  then have "AList.update n (h (f t)) acc = acc @ [(n, h (f t))]" by (induction acc) auto
  with Cons.IH [of "acc @ [(n, h (f t))]"] Cons.prems show ?case by (simp add: x wf_map_def case_prod_beta comp_def)
qed simp

lemma load_snapshot:
  assumes "catalog_ok cat" "snapshot_stable cat"
  shows "same_content cat (catalog_from_tables ln (map (\<lambda>(n, t). (n, stored_table t)) (cat_tables cat)))"
proof -
  let ?f = "\<lambda>(n, t). (n, migrate_legacy_rows ln (stored_table t))"
  have "cat_tables (catalog_from_tables ln (map (\<lambda>(n, t). (n, stored_table t)) (cat_tables cat))) = map ?f (cat_tables cat)"
    using foldl_update_distinct [of "[]" stored_table "cat_tables cat" to_ascii_lowercase "migrate_legacy_rows ln"] assms
    by (auto simp: catalog_from_tables_def catalog_ok_def snapshot_stable_def wf_map_def case_prod_beta comp_def)
  moreover have "list_all2 (\<lambda>(n, t) (n', t'). n' = n \<and> same_table t t') m (map ?f m)"
    if "set m \<subseteq> set (cat_tables cat)" for m
    using that
  proof (induction m)
    case (Cons x m)
    obtain n t where x: "x = (n, t)" by (cases x)
    with Cons.prems assms have "same_table t (migrate_legacy_rows ln (stored_table t))"
      by (intro migrate_stored) (auto simp: catalog_ok_def snapshot_stable_def ids_left_def)
    with Cons x show ?case by simp
  qed simp
  ultimately show ?thesis using assms(1) by (simp add: same_content_def catalog_ok_def)
qed

section \<open>Recoverable databases\<close>

definition recoverable :: "platform \<Rightarrow> database \<Rightarrow> bool" where
  "recoverable pf db \<longleftrightarrow> db_wal_open db \<and> (\<exists>rs c0 c'.
     disk_wal (db_disk db) = Some (log_bytes pf rs) \<and> (\<forall>r \<in> set rs. readable pf r) \<and>
     load_catalog pf (db_disk db) = Inr c0 \<and> res_fold (replay_record pf) c0 rs = Inr c' \<and>
     same_content (db_catalog db) c' \<and> cat_version c' = cat_version (db_catalog db))"

lemma recoverableI:
  assumes "db_wal_open db" "disk_wal (db_disk db) = Some (log_bytes pf rs)" "\<forall>r \<in> set rs. readable pf r"
    "load_catalog pf (db_disk db) = Inr c0" "res_fold (replay_record pf) c0 rs = Inr c'"
    "same_content (db_catalog db) c'" "cat_version c' = cat_version (db_catalog db)"
  shows "recoverable pf db"
  using assms unfolding recoverable_def by blast

lemma load_catalog_wal [simp]: "load_catalog pf (d\<lparr>disk_wal := x\<rparr>) = load_catalog pf d"
  by (cases "disk_catalog d"; cases "disk_tables d") (simp_all add: load_catalog_def)

text \<open>Opening the files again, even with an unfinished record after the last one.\<close>

lemma recoverable_recover:
  assumes "recoverable pf db" "torn = [] \<or> newline \<notin> set torn \<and> unreadable pf torn"
  shows "\<exists>c'. recover pf ((db_disk db)\<lparr>disk_wal := Some (wal_bytes (db_disk db) @ torn)\<rparr>) = Inr c' \<and>
     same_content (db_catalog db) c' \<and> cat_version c' = cat_version (db_catalog db)"
proof -
  obtain rs c0 c' where r: "disk_wal (db_disk db) = Some (log_bytes pf rs)" "\<forall>r \<in> set rs. readable pf r"
    "load_catalog pf (db_disk db) = Inr c0" "res_fold (replay_record pf) c0 rs = Inr c'"
    "same_content (db_catalog db) c'" "cat_version c' = cat_version (db_catalog db)"
    using assms(1) by (auto simp: recoverable_def)
  have "replay_wal pf (log_bytes pf rs @ torn) c0 = Inr c'"
    using assms(2) r(4) replay_written [OF r(2), of c0] replay_torn [OF r(2), of torn c0] by auto
  with r show ?thesis by (simp add: recover_def wal_bytes_def)
qed

lemma set_bloom_same: "table_ok t \<Longrightarrow> same_table (set_bloom_false_positive_rate ln t rate) t"
  by (simp add: same_table_def set_bloom_false_positive_rate_def rebuild_keeps_ok [of t])

lemma set_bloom_same': "table_ok t \<Longrightarrow> same_table t (set_bloom_false_positive_rate ln t rate)"
  by (simp add: same_table_def set_bloom_false_positive_rate_def rebuild_keeps_ok [of t])

lemma same_table_trans: "same_table t u \<Longrightarrow> same_table u v \<Longrightarrow> same_table t v"
  by (auto simp: same_table_def)

lemma configure_same:
  assumes "same_content c c'"
  shows "same_content (configure_bloom_false_positive_rate ln c rate) c'"
    "same_content c (configure_bloom_false_positive_rate ln c' rate)"
proof -
  let ?R = "\<lambda>(n, t) (n', t'). n' = n \<and> same_table t t'"
  let ?f = "\<lambda>(n, t). (n, set_bloom_false_positive_rate ln t rate)"
  have keys: "fst \<circ> ?f = (fst :: string \<times> table \<Rightarrow> string)" by (simp add: fun_eq_iff case_prod_beta)
  have "?R (?f x) y" "?R x (?f y)" if "?R x y" for x y
    using that by (auto intro: same_table_trans set_bloom_same set_bloom_same' dest: same_table_ok)
  then have "list_all2 (\<lambda>x y. ?R (?f x) y) (cat_tables c) (cat_tables c')"
    "list_all2 (\<lambda>x y. ?R x (?f y)) (cat_tables c) (cat_tables c')"
    using assms by (auto simp: same_content_def elim!: list_all2_mono)
  then show "same_content (configure_bloom_false_positive_rate ln c rate) c'"
    "same_content c (configure_bloom_false_positive_rate ln c' rate)"
    using assms keys by (simp_all add: same_content_def configure_bloom_false_positive_rate_def wf_map_def
        list_all2_map1 list_all2_map2)
qed

lemma configure_version [simp]: "cat_version (configure_bloom_false_positive_rate ln c rate) = cat_version c"
  by (simp add: configure_bloom_false_positive_rate_def)

lemma published_same: "same_content w w' \<Longrightarrow> same_content (published pf db w b) w'"
  by (simp add: published_def configure_same)

lemma recoverable_cache [simp]: "recoverable pf (db\<lparr>db_cache := c\<rparr>) = recoverable pf db"
  by (simp add: recoverable_def)

text \<open>A logged commit.\<close>

definition good_commit :: "platform \<Rightarrow> io \<Rightarrow> database \<Rightarrow> durable_statement list \<Rightarrow> bool" where
  "good_commit pf os db ds \<longleftrightarrow> io_log os = LogOk \<and> cat_version (db_catalog db) < u64_max \<and>
     (\<forall>d \<in> set ds. stable pf d) \<and> ids_along pf (db_catalog db) ds \<and>
     readable pf (wal_record_new pf (io_now os) (cat_version (db_catalog db)) (cat_version (db_catalog db) + 1) ds)"

lemma commit_recoverable:
  assumes "recoverable pf db" "good_commit pf os db ds" "res_fold (exec_durable pf) (db_catalog db) ds = Inr w"
    and log: "log_transaction pf os db (cat_version (db_catalog db)) (cat_version (published pf db w b)) ds = (lr, db1)"
  shows "recoverable pf (db1\<lparr>db_catalog := published pf db w b\<rparr>)"
proof -
  let ?v = "cat_version (db_catalog db)"
  let ?r = "wal_record_new pf (io_now os) ?v (?v + 1) ds"
  obtain rs c0 c' where r: "db_wal_open db" "disk_wal (db_disk db) = Some (log_bytes pf rs)" "\<forall>r \<in> set rs. readable pf r"
    "load_catalog pf (db_disk db) = Inr c0" "res_fold (replay_record pf) c0 rs = Inr c'"
    "same_content (db_catalog db) c'" "cat_version c' = ?v"
    using assms(1) by (auto simp: recoverable_def)
  have good: "io_log os = LogOk" "?v < u64_max" "\<forall>d \<in> set ds. stable pf d" "ids_along pf (db_catalog db) ds" "readable pf ?r"
    using assms(2) by (auto simp: good_commit_def)
  have v: "cat_version (published pf db w b) = ?v + 1" using good(2) by (simp add: sat_add_def)
  obtain w' where w': "res_fold (replay_durable pf) c' ds = Inr w'" "same_content w w'"
    using replay_exec [OF assms(3) r(6) good(3,4)] by blast
  have "replay_record pf c' ?r = Inr (w'\<lparr>cat_version := ?v + 1\<rparr>)"
    using r(7) w'(1) by (simp add: replay_record_def replay_transaction_def wal_record_new_def)
  then have "res_fold (replay_record pf) c0 (rs @ [?r]) = Inr (w'\<lparr>cat_version := ?v + 1\<rparr>)"
    using r(5) by (simp add: res_fold_append)
  moreover have "db1 = db\<lparr>db_disk := (db_disk db)\<lparr>disk_wal := Some (log_bytes pf (rs @ [?r]))\<rparr>\<rparr>"
    using log good(1) r(1,2) unfolding v by (simp add: log_transaction_def wal_bytes_def log_bytes_def Let_def)
  moreover have "\<forall>x \<in> set (rs @ [?r]). readable pf x" using r(3) good(5) by auto
  ultimately show ?thesis
    using r(1,4) published_same [OF w'(2)] v
    by (intro recoverableI [of _ pf "rs @ [?r]" c0 "w'\<lparr>cat_version := ?v + 1\<rparr>"]) simp_all
qed

text \<open>A checkpoint.\<close>

definition good_snapshot :: "platform \<Rightarrow> io \<Rightarrow> catalog \<Rightarrow> bool" where
  "good_snapshot pf os cat \<longleftrightarrow> io_save os = SaveOk \<and> snapshot_stable cat \<and> snapshot_readable pf (catalog_snapshot_of (io_now os) cat)"

lemma save_recoverable:
  assumes "recoverable pf db" "good_snapshot pf os (db_catalog db)" "save pf os db = (r, db')"
  shows "recoverable pf db' \<and> r = Inr ()"
proof (cases "db_auto_save db")
  case False
  with assms show ?thesis by (simp add: save_def)
next
  case True
  let ?cat = "db_catalog db"
  let ?snap = "catalog_snapshot_of (io_now os) ?cat"
  have open': "db_wal_open db" and ok: "catalog_ok ?cat"
    using assms(1) by (auto simp: recoverable_def dest: same_content_ok)
  from assms True open' have db': "db_catalog db' = ?cat" "db_wal_open db'" "r = Inr ()"
    "disk_catalog (db_disk db') = Some (pf_catalog_json pf ?snap)" "disk_wal (db_disk db') = Some (log_bytes pf [])"
    by (auto simp: save_def good_snapshot_def rotate_wal_def Let_def log_bytes_def wal_bytes_def split: if_splits option.splits)
  let ?c0 = "(catalog_from_tables (pf_ln pf) (map (\<lambda>(n, t). (n, stored_table t)) (cat_tables ?cat)))
      \<lparr>cat_version := cat_version ?cat, cat_schema_version := cat_schema_version ?cat\<rparr>"
  have "load_catalog pf (db_disk db') = Inr ?c0"
    using assms(2) db'(4)
    by (simp add: load_catalog_def read_to_string_def good_snapshot_def snapshot_readable_def context_fail_def
        catalog_snapshot_of_def)
  moreover have "same_content ?cat ?c0"
    using load_snapshot [OF ok] assms(2) by (simp add: good_snapshot_def)
  ultimately have "recoverable pf db'"
    using db' by (intro recoverableI [of _ pf "[]" ?c0 ?c0]) simp_all
  with db'(3) show ?thesis by simp
qed

text \<open>A directory that has not been used, and a directory opened again.\<close>

lemma open_empty_recoverable:
  assumes "open_files pf disk_empty opts = Inr db"
  shows "recoverable pf db"
proof -
  let ?c0 = "catalog_from_tables (pf_ln pf) []"
  have load: "load_catalog pf disk_empty = Inr ?c0" by (simp add: load_catalog_def disk_empty_def)
  with assms have db: "db_catalog db = configure_bloom_false_positive_rate (pf_ln pf) ?c0 (opt_bloom_false_positive_rate opts)"
    "db_wal_open db" "db_disk db = disk_empty\<lparr>disk_wal := Some []\<rparr>"
    by (auto simp: open_files_def recover_def disk_empty_def)
  have "same_content ?c0 ?c0" by (simp add: same_content_def catalog_from_tables_def wf_map_def)
  then show ?thesis
    using db load by (intro recoverableI [of _ pf "[]" ?c0 ?c0])
      (simp_all add: configure_same log_bytes_def)
qed

lemma reopen:
  assumes "recoverable pf db" "torn = [] \<or> newline \<notin> set torn \<and> unreadable pf torn"
  shows "\<exists>db'. open_files pf ((db_disk db)\<lparr>disk_wal := Some (wal_bytes (db_disk db) @ torn)\<rparr>) opts = Inr db' \<and>
     same_content (db_catalog db) (db_catalog db') \<and> cat_version (db_catalog db') = cat_version (db_catalog db)"
proof -
  obtain c' where "recover pf ((db_disk db)\<lparr>disk_wal := Some (wal_bytes (db_disk db) @ torn)\<rparr>) = Inr c'"
    "same_content (db_catalog db) c'" "cat_version c' = cat_version (db_catalog db)"
    using recoverable_recover [OF assms] by blast
  then show ?thesis
    by (simp add: open_files_def configure_same)
qed

text \<open>A statement in autocommit mode, and the commit of a transaction.\<close>

lemma autocommit_recoverable:
  assumes "recoverable pf db" "execute_autocommit_durable pf os db d st = Inr (r, db')" "stands_for pf d st"
    and "is_write_statement st \<Longrightarrow> good_commit pf os db [d]"
    and "is_schema_statement st \<Longrightarrow> good_snapshot pf os (db_catalog db')"
  shows "recoverable pf db'"
proof (cases "run pf (db_catalog db) st")
  case (Inl e)
  with assms(1,2) show ?thesis by (cases e) (auto simp: execute_autocommit_durable_def)
next
  case (Inr p)
  obtain r0 w where p: "p = (r0, w)" by (cases p)
  show ?thesis
  proof (cases "is_write_statement st")
    case False
    with assms(1,2) Inr p show ?thesis by (auto simp: execute_autocommit_durable_def)
  next
    case True
    let ?new = "published pf db w (is_schema_statement st)"
    obtain lr db1 where log: "log_transaction pf os db (cat_version (db_catalog db)) (cat_version ?new) [d] = (lr, db1)"
      by (cases "log_transaction pf os db (cat_version (db_catalog db)) (cat_version ?new) [d]")
    obtain sr db3 where save: "save pf os (db1\<lparr>db_catalog := ?new\<rparr>) = (sr, db3)"
      by (cases "save pf os (db1\<lparr>db_catalog := ?new\<rparr>)")
    note good = assms(4) [OF True]
    have "res_fold (exec_durable pf) (db_catalog db) [d] = Inr w"
      using exec_durable_run [OF assms(3)] Inr p by simp
    from commit_recoverable [OF assms(1) good this log] have rec: "recoverable pf (db1\<lparr>db_catalog := ?new\<rparr>)" .
    have lr: "lr = Inr ()" using log_transaction_ok [OF _ log] good by (simp add: good_commit_def)
    show ?thesis
      using assms(2,5) Inr True log lr save rec save_catalog [OF save] save_recoverable [OF rec _ save]
      by (auto simp: execute_autocommit_durable_def p Let_def split: if_splits sum.splits error.splits)
  qed
qed

lemma session_commit_recoverable:
  assumes "recoverable pf db" "ss_transaction ss = Some tx" "tx_ok pf (db_catalog db) tx"
    and "tx_statements tx \<noteq> [] \<Longrightarrow> good_commit pf os db (tx_statements tx)"
    and commit: "session_commit pf os db ss = (TransactionCommitted, db', ss')"
  shows "recoverable pf db'"
proof (cases "tx_statements tx = []")
  case True
  with assms show ?thesis by (auto simp: session_commit_def Let_def split: if_splits)
next
  case False
  let ?new = "published pf db (tx_catalog tx) (tx_schema_changed tx)"
  have v: "tx_base_version tx = cat_version (db_catalog db)"
    using commit assms(2) by (auto simp: session_commit_def Let_def split: if_splits)
  obtain lr db1 where log: "log_transaction pf os db (cat_version (db_catalog db)) (cat_version ?new) (tx_statements tx) = (lr, db1)"
    by (cases "log_transaction pf os db (cat_version (db_catalog db)) (cat_version ?new) (tx_statements tx)")
  have "res_fold (exec_durable pf) (db_catalog db) (tx_statements tx) = Inr (tx_catalog tx)"
    using assms(3) v by (simp add: tx_ok_def)
  from commit_recoverable [OF assms(1) assms(4) [OF False] this log]
  have "recoverable pf (db1\<lparr>db_catalog := ?new\<rparr>)" .
  then have "recoverable pf (db1\<lparr>db_catalog := ?new, db_cache := c\<rparr>)" for c
    using recoverable_cache by blast
  moreover have "db' = db1\<lparr>db_catalog := ?new, db_cache := (if tx_schema_changed tx then plan_cache_clear (db_cache db1) else db_cache db1)\<rparr>"
    using commit assms(2) False log v by (auto simp: session_commit_def Let_def split: if_splits sum.splits)
  ultimately show ?thesis by simp
qed

section \<open>How commits are lost\<close>

text \<open>
  A commit whose log record was written but not synced fails and leaves the version as it
  was. The next commit takes the same version number, is acknowledged, and replay skips it:
  opening the directory gives the content the failed commit would have made.
\<close>

lemma unsynced_record_wins:
  assumes "recoverable pf db" "good_commit pf ok db ds1" "good_commit pf ok db ds2"
    and "res_fold (exec_durable pf) (db_catalog db) ds1 = Inr w1"
    and fail: "log_transaction pf (ok\<lparr>io_log := LogSyncFailed\<rparr>) db v (v + 1) ds1 = (r1, db1)"
    and next_log: "log_transaction pf ok db1 v (v + 1) ds2 = (r2, db2)" and v: "v = cat_version (db_catalog db)"
  shows "r1 \<noteq> Inr () \<and> r2 = Inr () \<and> (\<exists>c. recover pf (db_disk db2) = Inr c \<and> same_content w1 c)"
proof -
  obtain rs c0 c' where r: "db_wal_open db" "disk_wal (db_disk db) = Some (log_bytes pf rs)" "\<forall>r \<in> set rs. readable pf r"
    "load_catalog pf (db_disk db) = Inr c0" "res_fold (replay_record pf) c0 rs = Inr c'"
    "same_content (db_catalog db) c'" "cat_version c' = v"
    using assms(1) v by (auto simp: recoverable_def)
  let ?rec = "wal_record_new pf (io_now ok) v (v + 1)"
  obtain w' where w': "res_fold (replay_durable pf) c' ds1 = Inr w'" "same_content w1 w'"
    using replay_exec [OF assms(4) r(6)] assms(2) by (auto simp: good_commit_def)
  have first: "replay_record pf c' (?rec ds1) = Inr (w'\<lparr>cat_version := v + 1\<rparr>)"
    using r(7) w'(1) by (simp add: replay_record_def replay_transaction_def wal_record_new_def)
  have second: "replay_record pf (w'\<lparr>cat_version := v + 1\<rparr>) (?rec ds2) = Inr (w'\<lparr>cat_version := v + 1\<rparr>)"
    by (simp add: replay_record_def replay_transaction_def wal_record_new_def)
  have all: "\<forall>x \<in> set (rs @ [?rec ds1, ?rec ds2]). readable pf x" using r(3) assms(2,3) v by (auto simp: good_commit_def)
  have disk: "db_disk db2 = (db_disk db)\<lparr>disk_wal := Some (log_bytes pf (rs @ [?rec ds1, ?rec ds2]))\<rparr>"
    and res: "r1 \<noteq> Inr ()" "r2 = Inr ()"
    using fail next_log r(1,2) assms(2) by (auto simp: log_transaction_def wal_bytes_def log_bytes_def Let_def good_commit_def)
  have "recover pf (db_disk db2) = Inr (w'\<lparr>cat_version := v + 1\<rparr>)"
    using replay_written [OF all, of c0] r(4,5) first second by (simp add: recover_def disk res_fold_append)
  with w'(2) res show ?thesis by simp
qed

text \<open>
  A checkpoint that fails while it moves the log leaves the log closed. Later commits are
  acknowledged and nothing of them reaches the disk.
\<close>

lemma closed_log_commits:
  assumes "save pf os db = (Inl e, db1)" "io_save os = ArchiveDirFailed \<or> io_save os = ArchiveRenameFailed \<or> io_save os = ReopenFailed"
    and "is_write_statement st" "\<not> is_schema_statement st" "run pf (db_catalog db1) st = Inr (r, w)"
  shows "execute_autocommit_durable pf os' db1 d st = Inr (r, db1\<lparr>db_catalog := published pf db1 w False\<rparr>)"
proof -
  have "\<not> db_wal_open db1"
    using assms(1,2) by (auto simp: save_def rotate_wal_def Let_def split: if_splits)
  with assms(3-5) show ?thesis by (simp add: execute_autocommit_durable_def log_transaction_def Let_def)
qed

end
