(* ===== verification/Reach.thy ===== *)
theory Reach
  imports Durability
begin

text \<open>
  Invariants of the catalogs over every interleaving of sessions. The locale
  \<open>catalog_invariant\<close> states what a property of catalogs has to satisfy for the executor and
  for the publication of a commit; the lemmas inside carry it through every call of
  \<open>Session\<close> and every run of the system. It is interpreted on the shape of the catalog and on
  the constraints of its tables. A run is one along which no table exhausts its row ids.
\<close>

section \<open>Runs\<close>

definition every_catalog :: "(catalog \<Rightarrow> bool) \<Rightarrow> system \<Rightarrow> bool" where
  "every_catalog P s \<longleftrightarrow> P (db_catalog (sys_db s)) \<and>
     (\<forall>i tx. ss_transaction (sys_sessions s i) = Some tx \<longrightarrow> P (tx_catalog tx))"

inductive sys_within :: "platform \<Rightarrow> (catalog \<Rightarrow> bool) \<Rightarrow> database \<Rightarrow> system \<Rightarrow> bool" for pf room db0 where
  start: "sys_within pf room db0 (system_new db0)"
| step: "sys_within pf room db0 s \<Longrightarrow> sys_step pf s s' \<Longrightarrow> every_catalog room s' \<Longrightarrow> sys_within pf room db0 s'"

lemma sys_within_reachable: "sys_within pf room db0 s \<Longrightarrow> sys_reachable pf db0 s"
  by (induction rule: sys_within.induct) (blast intro: sys_reachable.intros)+

text \<open>The two catalogs a call can change: the one of the database and the one of its own transaction.\<close>

definition both_catalogs :: "(catalog \<Rightarrow> bool) \<Rightarrow> database \<Rightarrow> session \<Rightarrow> bool" where
  "both_catalogs P db ss \<longleftrightarrow> P (db_catalog db) \<and> (\<forall>tx. ss_transaction ss = Some tx \<longrightarrow> P (tx_catalog tx))"

lemma both_catalogs_None [simp]: "ss_transaction ss = None \<Longrightarrow> both_catalogs P db ss \<longleftrightarrow> P (db_catalog db)"
  by (simp add: both_catalogs_def)

lemma both_catalogs_Some [simp]:
  "ss_transaction ss = Some tx \<Longrightarrow> both_catalogs P db ss \<longleftrightarrow> P (db_catalog db) \<and> P (tx_catalog tx)"
  by (simp add: both_catalogs_def)

lemma both_catalogs_same:
  "db_catalog db' = db_catalog db \<Longrightarrow> ss_transaction ss' = ss_transaction ss \<Longrightarrow>
   both_catalogs P db' ss' = both_catalogs P db ss"
  by (simp add: both_catalogs_def)

lemma every_catalog_call: "every_catalog P s \<Longrightarrow> both_catalogs P (sys_db s) (sys_sessions s i)"
  by (auto simp: every_catalog_def both_catalogs_def)

lemma every_catalog_update: "every_catalog P s \<Longrightarrow> both_catalogs P db' ss' \<Longrightarrow> every_catalog P (sys_update s i db' ss')"
  by (auto simp: every_catalog_def both_catalogs_def sys_update_def)

lemma every_catalog_updated: "every_catalog P (sys_update s i db' ss') \<Longrightarrow> both_catalogs P db' ss'"
  by (auto simp: every_catalog_def both_catalogs_def sys_update_def dest: spec [of _ i])

text \<open>Calls that only copy or drop catalogs keep every property of them.\<close>

lemma begin_both: "session_begin db ss = (r, db', ss') \<Longrightarrow> both_catalogs P db ss \<Longrightarrow> both_catalogs P db' ss'"
  by (auto simp: session_begin_def both_catalogs_def split: option.splits)

lemma rollback_both: "session_rollback db ss = (r, db', ss') \<Longrightarrow> both_catalogs P db ss \<Longrightarrow> both_catalogs P db' ss'"
  by (auto simp: session_rollback_def both_catalogs_def)

lemma deallocate_both: "session_deallocate db ss name = (r, db', ss') \<Longrightarrow> both_catalogs P db ss \<Longrightarrow> both_catalogs P db' ss'"
  by (auto simp: session_deallocate_def both_catalogs_def split: if_splits)

lemma prepare_catalog: "session_prepare pf db sql = (p, db') \<Longrightarrow> db_catalog db' = db_catalog db"
  by (auto simp: session_prepare_def dest: parse_cached_db split: prod.splits sum.splits if_splits)

lemma prepare_named_both:
  "session_prepare_named pf db ss name source = Inr (r, db', ss') \<Longrightarrow> both_catalogs P db ss \<Longrightarrow> both_catalogs P db' ss'"
  by (auto simp: session_prepare_named_def both_catalogs_def dest!: prepare_catalog split: sum.splits error.splits prod.splits)

lemma variable_both: "both_catalogs P db (ss\<lparr>ss_variables := vs\<rparr>) = both_catalogs P db ss"
  by (simp add: both_catalogs_def)

lemmas copying_calls = begin_both rollback_both deallocate_both prepare_named_both

section \<open>Calls carry an invariant of catalogs\<close>

locale catalog_invariant =
  fixes pf :: platform and inv :: "catalog \<Rightarrow> bool" and room :: "catalog \<Rightarrow> bool"
  assumes run_keeps: "inv c \<Longrightarrow> run pf c st = Inr (r, c') \<Longrightarrow> room c' \<Longrightarrow> inv c'"
    and published_keeps: "inv c \<Longrightarrow> inv (published pf db c b)"
    and published_room: "room (published pf db c b) \<Longrightarrow> room c"
begin

lemma autocommit_keeps:
  assumes "execute_autocommit_durable pf os db d st = Inr (r, db')" "inv (db_catalog db)" "room (db_catalog db')"
  shows "inv (db_catalog db')"
  using autocommit_catalog [OF assms(1)] assms(2,3)
  by (metis published_keeps published_room run_keeps)

lemma execute_in_keeps:
  assumes "execute_in pf os db ss d st = Inr (r, db', ss')" "both_catalogs inv db ss" "both_catalogs room db' ss'"
  shows "both_catalogs inv db' ss'"
proof (cases "ss_transaction ss")
  case None
  then show ?thesis using assms by (auto simp: execute_in_def rbind_Inr_iff intro: autocommit_keeps)
next
  case (Some tx)
  show ?thesis
  proof (cases "run pf (tx_catalog tx) st")
    case (Inl e)
    with assms Some show ?thesis by (cases e) (auto simp: execute_in_def)
  next
    case (Inr p)
    obtain r0 c where p: "p = (r0, c)" by (cases p)
    from assms(1) Some Inr obtain tx' where "db' = db" "ss_transaction ss' = Some tx'" "tx_catalog tx' = c"
      by (auto simp: execute_in_def p Let_def)
    with assms(2,3) Some run_keeps [OF _ Inr [unfolded p]] show ?thesis by simp
  qed
qed

lemma commit_keeps:
  assumes "session_commit pf os db ss = (r, db', ss')" "both_catalogs inv db ss"
  shows "both_catalogs inv db' ss'"
proof (cases "ss_transaction ss")
  case None
  with assms show ?thesis by (simp add: session_commit_def)
next
  case (Some tx)
  let ?new = "published pf db (tx_catalog tx) (tx_schema_changed tx)"
  obtain lr db1 where log: "log_transaction pf os db (tx_base_version tx) (cat_version ?new) (tx_statements tx) = (lr, db1)"
    by (cases "log_transaction pf os db (tx_base_version tx) (cat_version ?new) (tx_statements tx)")
  from log_transaction_catalog [OF log] Some log assms show ?thesis
    by (auto simp: session_commit_def Let_def intro: published_keeps split: if_splits sum.splits)
qed

lemma execute_prepared_keeps:
  assumes "session_execute_prepared pf os db ss p vs = Inr (r, db', ss')" "both_catalogs inv db ss"
    "both_catalogs room db' ss'"
  shows "both_catalogs inv db' ss'"
proof -
  obtain st0 db1 where cur: "current_statement pf db p = (st0, db1)" by (cases "current_statement pf db p")
  then have "db_catalog db1 = db_catalog db"
    by (auto simp: current_statement_def dest: parse_cached_db split: if_splits)
  then have inv: "both_catalogs inv db1 ss" using assms(2) by (simp add: both_catalogs_def)
  show ?thesis
  proof (cases "rbind (rbind st0 (\<lambda>st. bind_parameters st vs)) optimize_statement")
    case (Inl e)
    with assms(1) cur inv show ?thesis by (cases e) (auto simp: session_execute_prepared_def)
  next
    case (Inr st)
    then have "execute_in pf os db1 ss (DurableBound st) st = Inr (r, db', ss')"
      using assms(1) cur by (simp add: session_execute_prepared_def)
    then show ?thesis using inv assms(3) by (rule execute_in_keeps)
  qed
qed

lemma execute_named_keeps:
  assumes "session_execute_named pf os db ss name names = Inr (r, db', ss')" "both_catalogs inv db ss"
    "both_catalogs room db' ss'"
  shows "both_catalogs inv db' ss'"
  using assms by (auto simp: session_execute_named_def intro: execute_prepared_keeps
      split: option.splits sum.splits error.splits)

lemma session_execute_keeps:
  assumes ex: "session_execute pf os db ss sql = Inr (r, db', ss')" and inv: "both_catalogs inv db ss"
    and room: "both_catalogs room db' ss'"
  shows "both_catalogs inv db' ss'"
proof -
  obtain p db1 where parse: "db_parse_cached pf db sql = (p, db1)" by (cases "db_parse_cached pf db sql")
  have db1: "both_catalogs inv db1 ss" using parse_cached_db [OF parse] inv by (simp add: both_catalogs_def)
  show ?thesis
  proof (cases p)
    case (Inl e)
    with ex parse db1 show ?thesis by (cases e) (auto simp: session_execute_def)
  next
    case (Inr st)
    note plain = execute_in_keeps [OF _ db1 room]
    show ?thesis
      using ex Inr parse db1 room plain
      by (cases st) (auto simp: session_execute_def variable_both
          intro: plain commit_keeps [OF _ db1] execute_named_keeps [OF _ db1 room] copying_calls [OF _ db1])
  qed
qed

lemma direct_keeps:
  assumes "database_execute pf os db sql = Inr (r, db')" "inv (db_catalog db)" "room (db_catalog db')"
  shows "inv (db_catalog db')"
proof -
  obtain p db1 where parse: "db_parse_cached pf db sql = (p, db1)" by (cases "db_parse_cached pf db sql")
  with parse_cached_db [OF parse] assms show ?thesis
    by (auto simp: database_execute_def intro: autocommit_keeps split: sum.splits error.splits if_splits)
qed

lemma sys_step_keeps:
  assumes "sys_step pf s s'" "every_catalog inv s" "every_catalog room s'"
  shows "every_catalog inv s'"
  using assms(1)
proof cases
  case (statement os i sql r db' ss')
  from session_execute_keeps [OF statement(3) every_catalog_call [OF assms(2)]] assms(2,3) statement(1)
  show ?thesis by (auto intro: every_catalog_update dest: every_catalog_updated)
next
  case (prepared os i p vs r db' ss')
  from execute_prepared_keeps [OF prepared(3) every_catalog_call [OF assms(2)]] assms(2,3) prepared(1)
  show ?thesis by (auto intro: every_catalog_update dest: every_catalog_updated)
next
  case (prepare sql p db')
  with prepare_catalog [OF prepare(2)] assms(2) show ?thesis by (simp add: every_catalog_def)
next
  case (direct os sql r db')
  with direct_keeps [OF direct(3)] assms(2,3) show ?thesis by (simp add: every_catalog_def)
next
  case (checkpoint os r db')
  with save_catalog [OF checkpoint(2)] assms(2) show ?thesis by (simp add: every_catalog_def)
qed

lemma run_invariant:
  assumes "sys_within pf room db0 s" "inv (db_catalog db0)"
  shows "every_catalog inv s"
  using assms
proof (induction rule: sys_within.induct)
  case start
  then show ?case by (simp add: every_catalog_def system_new_def session_new_def)
qed (blast intro: sys_step_keeps)

end

section \<open>The shape of the catalogs and their constraints\<close>

text \<open>A consistent catalog is well formed, and every table satisfies its constraints.\<close>

definition consistent :: "catalog \<Rightarrow> bool" where
  "consistent cat \<longleftrightarrow> catalog_ok cat \<and> (\<forall>(name, t) \<in> set (cat_tables cat). table_valid cat t)"

lemma same_parent:
  assumes "same_table p p'"
  shows "has_parent s p' fk = has_parent s p fk" "parent_is_unique p' fk = parent_is_unique p fk"
  unfolding has_parent_def parent_is_unique_def same_table_simps(1) [OF assms] same_table_simps(2) [OF assms] by (rule refl)+

lemma same_table_valid:
  assumes "same_content c c'" "same_table t t'" "table_valid c t"
  shows "table_valid c' t'"
proof -
  have "foreign_keys_hold c' t'"
    unfolding foreign_keys_hold_def
  proof (intro allI impI)
    fix fk assume "ForeignKey fk \<in> set (sch_constraints (tb_schema t'))"
    with assms(2,3) obtain parent where "map_of (cat_tables c) (fk_foreign_table fk) = Some parent"
      "parent_is_unique parent fk" "\<forall>row \<in> set (tb_rows t). has_parent (tb_schema t) parent fk row"
      by (auto simp: table_valid_def foreign_keys_hold_def same_table_simps)
    moreover from same_lookup_Some [OF assms(1) this(1)] obtain parent'
      where "map_of (cat_tables c') (fk_foreign_table fk) = Some parent'" "same_table parent parent'" .
    ultimately show "\<exists>parent. map_of (cat_tables c') (fk_foreign_table fk) = Some parent \<and> parent_is_unique parent fk \<and>
        (\<forall>row \<in> set (tb_rows t'). has_parent (tb_schema t') parent fk row)"
      using assms(2) by (simp add: same_table_simps same_parent)
  qed
  with assms same_run_query [OF assms(1)] show ?thesis
    by (simp add: table_valid_def same_unique_holds same_table_simps checks_hold_def)
qed

lemma consistent_same:
  assumes "same_content c c'" "consistent c"
  shows "consistent c'"
proof -
  have "table_valid c' t'" if "(n, t') \<in> set (cat_tables c')" for n t'
  proof -
    have "map_of (cat_tables c') n = Some t'"
      using that same_content_ok [OF assms(1)] by (simp add: catalog_ok_def wf_map_def)
    moreover from this same_lookup [OF assms(1), of n] obtain t
      where "map_of (cat_tables c) n = Some t" "same_table t t'" by (auto simp: option_rel_Some2)
    ultimately show ?thesis
      using assms map_of_SomeD by (fastforce simp: consistent_def intro: same_table_valid)
  qed
  with same_content_ok [OF assms(1)] show ?thesis by (auto simp: consistent_def)
qed

lemma published_content: "catalog_ok c \<Longrightarrow> same_content c (published pf db c b)"
  using configure_same(2) [OF same_content_refl] by (simp add: published_def same_content_def)

lemma published_ids: "ids_left (published pf db c b) \<Longrightarrow> ids_left c"
  by (fastforce simp: published_def ids_left_def configure_bloom_false_positive_rate_def set_bloom_false_positive_rate_def)

lemma run_consistent:
  assumes "consistent c" "run pf c st = Inr (r, c')" "ids_left c'"
  shows "consistent c'"
proof (cases "is_write_statement st")
  case True
  have ok: "catalog_ok c'" using assms by (auto simp: consistent_def intro: execute_catalog_ok)
  have "table_valid c' t" if "(n, t) \<in> set (cat_tables c')" for n t
    using that ok assms True by (intro write_leaves_valid [of c st]) (auto simp: consistent_def catalog_ok_def wf_map_def)
  with ok show ?thesis by (auto simp: consistent_def)
next
  case False
  with run_read [OF assms(2)] assms(1) show ?thesis by simp
qed

interpretation shape: catalog_invariant pf catalog_ok ids_left
  by unfold_locales (blast intro: execute_catalog_ok same_content_ok [THEN conjunct2] published_content published_ids)+

interpretation constraints: catalog_invariant pf consistent ids_left
  by unfold_locales
    (blast intro: run_consistent published_ids consistent_same published_content consistent_def [THEN iffD1, THEN conjunct1])+

text \<open>What a restart finds in the files is as consistent as the catalog they stand for.\<close>

lemma recovered_consistent:
  assumes "recoverable pf db" "torn = [] \<or> newline \<notin> set torn \<and> unreadable pf torn" "consistent (db_catalog db)"
    and "recover pf ((db_disk db)\<lparr>disk_wal := Some (wal_bytes (db_disk db) @ torn)\<rparr>) = Inr cat"
  shows "consistent cat"
  using recoverable_recover [OF assms(1,2)] assms(3,4) by (auto intro: consistent_same)

end
