(* ===== verification/Samples.thy ===== *)
theory Samples
  imports Reach
begin

text \<open>
  Concrete inputs on which the properties of the development are instantiated: a schema with
  an integer primary key, tables with a few rows, and the statements that build them. The
  logarithm of the platform is instantiated by a function that ignores its argument's value.
\<close>

definition sample_ln :: "f64 \<Rightarrow> f64" where
  "sample_ln x = x"

definition sample_debug :: "statement \<Rightarrow> string" where
  "sample_debug st = []"

definition sample_columns :: "column_def list" where
  "sample_columns = [column_primary_key (column_def_new ''id'' DInteger), column_def_new ''note'' DText]"

definition sample_schema :: table_schema where
  "sample_schema = \<lparr>sch_name = ''t'', sch_columns = sample_columns,
     sch_constraints = [PrimaryKey None [''id'']],
     sch_indexes = [\<lparr>ix_name = ''t_pk'', ix_columns = [''id''], ix_unique = True, ix_automatic = True\<rparr>]\<rparr>"

definition sample_rows :: "row list" where
  "sample_rows = [[VInteger 1, VText ''a''], [VInteger 2, VNull]]"

definition sample_table :: table where
  "sample_table = rebuild_index sample_ln
     \<lparr>tb_schema = sample_schema, tb_rows = sample_rows, tb_row_ids = [1, 2], tb_next_row_id = 3,
      tb_primary_key_index = [], tb_indexes = [], tb_bloom_rate = default_bloom_false_positive_rate\<rparr>"

definition sample_catalog :: catalog where
  "sample_catalog = put_table catalog_default ''t'' sample_table"

definition sample_create :: statement where
  "sample_create = CreateTable ''t'' sample_columns [PrimaryKey None [''id'']] False"

lemmas string_eval = to_ascii_lowercase_def char_lower_def eq_ignore_ascii_case_def

lemmas column_eval = column_primary_key_def column_def_new_def sample_columns_def

lemmas validate_eval = validate_catalog_def validate_table_def validate_unique_indexes_def
  validate_foreign_keys_def validate_foreign_key_def validate_checks_def check_constraint_def
  validate_row_def validate_value_def

lemmas table_eval = table_new_def rebuild_index_def build_index_def btree_index_empty_def rebuild_primary_def

lemma sample_create_run:
  "execute_catalog sample_ln sample_debug catalog_default sample_create =
     Inr (TableCreated ''t'', put_table catalog_default ''t'' (table_new sample_ln sample_schema))"
  by (simp add: sample_create_def execute_catalog_def execute_statement_def execute_create_table_def
      catalog_default_def put_table_def create_step_def mark_key_columns_def key_column_def
      table_schema_new_def automatic_indexes_def constraint_index_def column_index_def_def
      sample_schema_def Let_def string_eval column_eval validate_eval table_eval)

lemma sample_table_simps [simp]:
  "tb_schema sample_table = sample_schema" "tb_rows sample_table = sample_rows"
  "tb_row_ids sample_table = [1, 2]" "tb_next_row_id sample_table = 3"
  by (simp_all add: sample_table_def)

lemma sample_table_ok: "table_ok sample_table"
  unfolding sample_table_def by (rule rebuild_index_ok) (simp add: ids_ok_def sample_rows_def)

lemma catalog_default_ok: "catalog_ok catalog_default"
  by (simp add: catalog_ok_def catalog_default_def)

lemma sample_catalog_ok: "catalog_ok sample_catalog"
  by (simp add: sample_catalog_def put_table_ok catalog_default_ok sample_table_ok)

lemma sample_column_index [simp]:
  "column_index sample_schema ''id'' = Some 0" "column_index sample_schema ''note'' = Some 1"
  by (simp_all add: sample_schema_def column_index_def string_eval column_eval)

lemma sample_schema_simps [simp]:
  "sch_name sample_schema = ''t''" "sch_columns sample_schema = sample_columns"
  "sch_constraints sample_schema = [PrimaryKey None [''id'']]"
  "sch_indexes sample_schema =
     [\<lparr>ix_name = ''t_pk'', ix_columns = [''id''], ix_unique = True, ix_automatic = True\<rparr>]"
  by (simp_all add: sample_schema_def)

lemma sample_rows_indexable: "rows_indexable sample_table"
  by (simp add: rows_indexable_def index_key_def sample_rows_def)

section \<open>A platform and a database\<close>

text \<open>
  Two log records are written as one digit between braces and can be read back; the SQL front
  end knows one statement.
\<close>

definition sample_record :: wal_record where
  "sample_record = \<lparr>wr_format_version = 2, wr_base_version = 0, wr_commit_version = 1, wr_timestamp_millis = 5,
     wr_statements = [DurableBound sample_create], wr_checksum = 0\<rparr>"

definition sample_drop :: statement where
  "sample_drop = DropTable ''u'' True"

definition sample_drop_record :: wal_record where
  "sample_drop_record = sample_record\<lparr>wr_statements := [DurableBound sample_drop]\<rparr>"

text \<open>The catalog a committed creation of the table publishes, and what reading its snapshot gives.\<close>

definition sample_published :: catalog where
  "sample_published = (configure_bloom_false_positive_rate sample_ln
     (put_table catalog_default ''t'' (table_new sample_ln sample_schema)) default_bloom_false_positive_rate)
     \<lparr>cat_schema_version := 1, cat_version := 1\<rparr>"

definition sample_snapshot :: catalog_snapshot where
  "sample_snapshot = \<lparr>cs_format_version = 1, cs_catalog_version = 1, cs_schema_version = 1, cs_timestamp_millis = 5,
     cs_tables = map (\<lambda>(n, t). (n, stored_table t)) (cat_tables sample_published)\<rparr>"

definition sample_front :: "string \<Rightarrow> statement res" where
  "sample_front sql = (if sql = ''BEGIN'' then Inr Begin else Inl (Fail ''syntax error''))"

definition sample_platform :: platform where
  "sample_platform = \<lparr>pf_ln = sample_ln, pf_debug = sample_debug,
     pf_front = sample_front,
     pf_crc = (\<lambda>_. 0), pf_statements_json = (\<lambda>_. []),
     pf_record_json = (\<lambda>r. if r = sample_record then [CHR 0x7B, CHR ''1'', CHR 0x7D]
       else [CHR 0x7B, CHR ''2'', CHR 0x7D]),
     pf_read_record = (\<lambda>s. if s = [CHR 0x7B, CHR ''1'', CHR 0x7D] then Some sample_record
       else if s = [CHR 0x7B, CHR ''2'', CHR 0x7D] then Some sample_drop_record else None),
     pf_read_legacy = (\<lambda>_. None), pf_catalog_json = (\<lambda>_. []),
     pf_read_catalog = (\<lambda>_. Inr sample_snapshot), pf_read_table = (\<lambda>_. Inl (Fail []))\<rparr>"

definition sample_io :: io where
  "sample_io = \<lparr>io_now = 5, io_error = [], io_log = LogOk, io_save = SaveOk\<rparr>"

definition sample_db :: database where
  "sample_db = \<lparr>db_catalog = catalog_default, db_auto_save = True, db_options = options_default, db_wal_open = True,
     db_cache = plan_cache_new 256, db_disk = disk_empty\<lparr>disk_wal := Some []\<rparr>\<rparr>"

text \<open>A session whose transaction has created the table.\<close>

definition sample_tx :: transaction_state where
  "sample_tx = \<lparr>tx_base_version = 0, tx_catalog = put_table catalog_default ''t'' (table_new sample_ln sample_schema),
     tx_statements = [DurableBound sample_create], tx_schema_changed = True\<rparr>"

definition sample_session :: session where
  "sample_session = session_new\<lparr>ss_transaction := Some sample_tx\<rparr>"

definition sample_committed :: database where
  "sample_committed = fst (snd (session_commit sample_platform sample_io sample_db sample_session))"

lemma sample_platform_simps [simp]:
  "pf_ln sample_platform = sample_ln" "pf_debug sample_platform = sample_debug"
  "pf_front sample_platform = sample_front" "pf_crc sample_platform s = 0" "pf_read_legacy sample_platform s = None"
  by (simp_all add: sample_platform_def)

lemma sample_open: "open_files sample_platform disk_empty options_default = Inr sample_db"
  by (simp add: open_files_def recover_def load_catalog_def disk_empty_def catalog_from_tables_def
      configure_bloom_false_positive_rate_def sample_db_def options_default_def catalog_default_def)

lemma sample_db_recoverable: "recoverable sample_platform sample_db"
  by (rule open_empty_recoverable [OF sample_open])

lemma sample_run: "run sample_platform catalog_default sample_create =
    Inr (TableCreated ''t'', put_table catalog_default ''t'' (table_new sample_ln sample_schema))"
  by (simp add: sample_create_run)

lemma sample_exec: "exec_durable sample_platform catalog_default (DurableBound sample_create) =
    Inr (put_table catalog_default ''t'' (table_new sample_ln sample_schema))"
  by (simp add: exec_durable_def sample_create_run)

lemma sample_ids_left: "ids_left (put_table catalog_default ''t'' (table_new sample_ln sample_schema))"
  by (simp add: ids_left_def put_table_def catalog_default_def table_eval u64_max_def)

lemma sample_tx_ok: "tx_ok sample_platform (db_catalog sample_db) sample_tx"
  by (simp add: tx_ok_def sample_tx_def sample_db_def sample_exec)

lemma sample_json: "pf_record_json sample_platform sample_record = [CHR 0x7B, CHR ''1'', CHR 0x7D]"
  by (simp add: sample_platform_def)

lemma sample_readable: "readable sample_platform sample_record"
proof -
  have "json_line [CHR 0x7B, CHR ''1'', CHR 0x7D]"
    by (simp add: json_line_def newline_def utf8_valid_def)
  then show ?thesis
    by (simp add: readable_def sample_json)
      (simp add: sample_platform_def sample_record_def wal_record_valid_def wal_format_version_def wal_checksum_def)
qed

lemma sample_record_new: "wal_record_new sample_platform 5 0 1 [DurableBound sample_create] = sample_record"
  by (simp add: wal_record_new_def sample_record_def wal_format_version_def wal_checksum_def)

lemma sample_good_commit: "good_commit sample_platform sample_io sample_db [DurableBound sample_create]"
proof -
  have "cat_version catalog_default = 0" by (simp add: catalog_default_def)
  moreover have "is_write_statement sample_create" by (simp add: sample_create_def)
  ultimately show ?thesis
    using sample_readable sample_record_new
    by (simp add: good_commit_def sample_io_def sample_db_def sample_exec sample_ids_left stable_def u64_max_def)
qed

lemma sample_commits:
  "session_commit sample_platform sample_io (sample_db\<lparr>db_cache := c\<rparr>) sample_session =
     (TransactionCommitted, fst (snd (session_commit sample_platform sample_io (sample_db\<lparr>db_cache := c\<rparr>) sample_session)),
      sample_session\<lparr>ss_transaction := None\<rparr>)"
  by (simp add: session_commit_def sample_session_def sample_tx_def sample_db_def
      catalog_default_def log_transaction_def sample_io_def Let_def)

lemma sample_commit:
  "session_commit sample_platform sample_io sample_db sample_session =
     (TransactionCommitted, sample_committed, sample_session\<lparr>ss_transaction := None\<rparr>)"
  using sample_commits [of "db_cache sample_db"] by (simp add: sample_committed_def)

text \<open>A record cut off after two bytes.\<close>

definition sample_torn :: string where
  "sample_torn = [CHR 0x7B, CHR ''2'']"

lemma sample_torn_parse: "parse_sql sample_front sample_torn = Inl (Fail ''syntax error'')"
  by code_simp

lemma sample_torn_unreadable: "newline \<notin> set sample_torn \<and> unreadable sample_platform sample_torn"
  by (simp add: unreadable_def sample_torn_parse)
    (simp add: sample_torn_def newline_def utf8_valid_def sample_platform_def)

lemma sample_published_eq: "published sample_platform sample_db (put_table catalog_default ''t'' (table_new sample_ln sample_schema)) True = sample_published"
  by (simp add: published_def sample_published_def sample_db_def options_default_def catalog_default_def sat_add_def u64_max_def)

lemma sample_good_snapshot: "good_snapshot sample_platform sample_io sample_published"
proof -
  have "catalog_snapshot_of 5 sample_published = sample_snapshot\<lparr>cs_tables := cat_tables sample_published\<rparr>"
    by (simp add: catalog_snapshot_of_def sample_snapshot_def sample_published_def catalog_format_version_def)
  then have "snapshot_readable sample_platform (catalog_snapshot_of 5 sample_published)"
    by (simp add: snapshot_readable_def sample_platform_def utf8_valid_def sample_snapshot_def)
  moreover have "snapshot_stable sample_published"
    by (simp add: snapshot_stable_def sample_published_def ids_left_def configure_bloom_false_positive_rate_def put_table_def
        catalog_default_def set_bloom_false_positive_rate_def string_eval migrated_def table_eval u64_max_def)
  ultimately show ?thesis by (simp add: good_snapshot_def sample_io_def)
qed

lemma sample_session_tx: "ss_transaction sample_session = Some sample_tx"
  by (simp add: sample_session_def)

lemma sample_tx_good: "good_commit sample_platform sample_io sample_db (tx_statements sample_tx)"
  using sample_good_commit by (simp add: sample_tx_def)

section \<open>Two steps of a session\<close>

definition sample_parsed :: database where
  "sample_parsed = snd (db_parse_cached sample_platform sample_db ''BEGIN'')"

definition sample_begun :: session where
  "sample_begun = session_new\<lparr>ss_transaction := Some
     \<lparr>tx_base_version = 0, tx_catalog = catalog_default, tx_statements = [], tx_schema_changed = False\<rparr>\<rparr>"

definition sample_prepared :: prepared_statement where
  "sample_prepared = \<lparr>ps_sql = [], ps_statement = sample_create, ps_parameter_count = 0, ps_schema_version = 0\<rparr>"

definition sample_system :: system where
  "sample_system = sys_update (sys_update (system_new sample_db) 0 sample_parsed sample_begun) 0 sample_parsed sample_session"

lemma sample_cache_ok: "cache_ok sample_front (db_cache sample_db)"
  by (simp add: sample_db_def)

lemma sample_parse: "db_parse_cached sample_platform sample_db ''BEGIN'' = (Inr Begin, sample_parsed)"
  and sample_parsed_catalog: "db_catalog sample_parsed = catalog_default"
  and sample_parsed_eq: "sample_parsed = sample_db\<lparr>db_cache := db_cache sample_parsed\<rparr>"
proof -
  obtain r where parse: "db_parse_cached sample_platform sample_db ''BEGIN'' = (r, sample_parsed)"
    by (metis prod.collapse sample_parsed_def)
  have "compile sample_front (normalize_sql ''BEGIN'') = Inr Begin" by code_simp
  with parse_cached_ok [OF parse] sample_cache_ok parse
  show "db_parse_cached sample_platform sample_db ''BEGIN'' = (Inr Begin, sample_parsed)"
    and "db_catalog sample_parsed = catalog_default"
    by (simp_all add: sample_db_def)
  show "sample_parsed = sample_db\<lparr>db_cache := db_cache sample_parsed\<rparr>"
    by (simp add: sample_parsed_def db_parse_cached_def case_prod_beta)
qed

lemma sample_begin: "session_execute sample_platform sample_io sample_db session_new ''BEGIN'' =
    Inr (TransactionStarted, sample_parsed, sample_begun)"
proof -
  have "cat_version catalog_default = 0" by (simp add: catalog_default_def)
  then show ?thesis
    by (simp add: session_execute_def sample_parse session_begin_def sample_parsed_catalog sample_begun_def session_new_def)
qed

lemma sample_optimized: "rbind (bind_parameters sample_create []) optimize_statement = Inr sample_create"
  by (simp add: bind_parameters_def parameter_count_def sample_create_def column_eval visit_column_def visit_constraint_def Let_def)

lemma sample_execute: "session_execute_prepared sample_platform sample_io sample_parsed sample_begun sample_prepared [] =
    Inr (TableCreated ''t'', sample_parsed, sample_session)"
proof -
  have "cat_schema_version catalog_default = 0" by (simp add: catalog_default_def)
  moreover have "is_write_statement sample_create" "is_schema_statement sample_create" by (simp_all add: sample_create_def)
  ultimately show ?thesis
    by (simp add: session_execute_prepared_def current_statement_def sample_parsed_catalog sample_prepared_def
        sample_optimized execute_in_def sample_begun_def sample_create_run Let_def sample_session_def sample_tx_def)
qed

lemma sample_steps:
  "sys_step sample_platform (system_new sample_db) (sys_update (system_new sample_db) 0 sample_parsed sample_begun)"
  "sys_step sample_platform (sys_update (system_new sample_db) 0 sample_parsed sample_begun) sample_system"
proof -
  have os: "io_log sample_io = LogOk" by (simp add: sample_io_def)
  show "sys_step sample_platform (system_new sample_db) (sys_update (system_new sample_db) 0 sample_parsed sample_begun)"
    by (rule sys_step.statement [OF os]) (simp add: system_new_def, rule sample_begin)
  show "sys_step sample_platform (sys_update (system_new sample_db) 0 sample_parsed sample_begun) sample_system"
    unfolding sample_system_def by (rule sys_step.prepared [OF os]) (simp add: sys_update_def, rule sample_execute)
qed

lemma sample_system_reachable: "sys_reachable sample_platform sample_db sample_system"
  using sample_steps by (blast intro: sys_reachable.intros)

lemma sample_system_within: "sys_within sample_platform ids_left sample_db sample_system"
proof -
  have "ids_left catalog_default" by (simp add: ids_left_def catalog_default_def)
  then have "every_catalog ids_left (sys_update (system_new sample_db) 0 sample_parsed sample_begun)"
    "every_catalog ids_left sample_system"
    using sample_ids_left
    by (simp_all add: every_catalog_def sys_update_def sample_parsed_catalog sample_begun_def sample_system_def
        sample_session_def sample_tx_def system_new_def session_new_def)
  with sample_steps show ?thesis by (blast intro: sys_within.intros)
qed

lemma sample_db_consistent: "consistent (db_catalog sample_db)"
  by (simp add: consistent_def sample_db_def catalog_default_ok) (simp add: catalog_default_def)

lemma sample_system_simps [simp]: "sys_db sample_system = sample_parsed" "sys_sessions sample_system 0 = sample_session"
  by (simp_all add: sample_system_def sys_update_def)

section \<open>The same creation in autocommit mode, and replayed\<close>

lemma sample_save:
  "io_save os = SaveOk \<Longrightarrow> fst (save pf os db) = Inr ()"
  by (simp add: save_def rotate_wal_def Let_def)

lemma sample_autocommit:
  "execute_autocommit_durable sample_platform sample_io sample_db (DurableBound sample_create) sample_create =
     Inr (TableCreated ''t'', snd (projr (execute_autocommit_durable sample_platform sample_io sample_db
       (DurableBound sample_create) sample_create)))"
  and sample_autocommit_catalog: "db_catalog (snd (projr (execute_autocommit_durable sample_platform sample_io sample_db
       (DurableBound sample_create) sample_create))) = sample_published"
proof -
  have st: "is_write_statement sample_create" "is_schema_statement sample_create" by (simp_all add: sample_create_def)
  have auto: "db_auto_save sample_db" "db_catalog sample_db = catalog_default" "db_wal_open sample_db"
    by (simp_all add: sample_db_def)
  have save: "save sample_platform sample_io db = (Inr (), snd (save sample_platform sample_io db))" for db
    using sample_save [of sample_io sample_platform db] by (simp add: sample_io_def prod_eq_iff)
  have log: "io_log sample_io = LogOk" by (simp add: sample_io_def)
  have keep: "db_catalog (snd (save sample_platform sample_io db)) = db_catalog db" for db
    using save_catalog [OF save [of db]] .
  have "\<exists>db'. execute_autocommit_durable sample_platform sample_io sample_db (DurableBound sample_create) sample_create =
      Inr (TableCreated ''t'', db') \<and> db_catalog db' = sample_published"
    by (simp add: execute_autocommit_durable_def sample_create_run st auto log_transaction_def log Let_def)
      (subst save, simp add: keep sample_published_eq)
  then show "execute_autocommit_durable sample_platform sample_io sample_db (DurableBound sample_create) sample_create =
     Inr (TableCreated ''t'', snd (projr (execute_autocommit_durable sample_platform sample_io sample_db
       (DurableBound sample_create) sample_create)))"
    and "db_catalog (snd (projr (execute_autocommit_durable sample_platform sample_io sample_db
       (DurableBound sample_create) sample_create))) = sample_published" by auto
qed

lemma sample_replay: "replay_record sample_platform catalog_default sample_record =
    Inr ((put_table catalog_default ''t'' (table_new sample_ln sample_schema))\<lparr>cat_schema_version := 1, cat_version := 1\<rparr>)"
  by (simp add: replay_record_def replay_transaction_def sample_record_def replay_durable_def replay_statement_def
      context_fail_def sample_create_run)
    (simp add: catalog_default_def put_table_def sample_create_def sat_add_def u64_max_def)

section \<open>A selection, a deletion and an update\<close>

definition sample_selection :: expr where
  "sample_selection = Binary (Column None ''id'') (BCompare OpLessThan) (Literal (VInteger 2))"

lemma sample_index_key [simp]: "index_key sample_schema row [''id''] = map_option (\<lambda>v. [key_part_of v]) (get row 0)"
  by (cases row) (simp_all add: index_key_def get_def)

lemma sample_key_less: "\<not> compare_key_part (KInteger 2) (KInteger 2) OpLessThan" "compare_key_part (KInteger 1) (KInteger 2) OpLessThan"
  by code_simp+

lemmas index_eval = table_eval add_key_def row_id_at_def get_def btree_add_def entries_get_def

lemma sample_candidates: "candidate_row_ids sample_table (Some sample_selection) = Some ({1}, ''t_pk'')"
  by (simp add: sample_selection_def candidate_row_ids_def sample_table_def index_eval sample_rows_def pick_candidate_def scan_index_def
    scan_ids_def string_eval is_range_op_def starts_with_def range_matches_def sample_key_less)

lemma sample_index_safe: "index_safe sample_table sample_selection"
  by (simp add: index_safe_def sample_selection_def sample_rows_def)

lemma sample_compare: "arith (BCompare OpLessThan) (VInteger 1) (VInteger 2) = Inr (VBoolean True)"
  by code_simp

lemma sample_selected: "selected cat (table_columns ''t'' sample_schema) (Some sample_selection) [VInteger 1, VText ''a''] = Inr True"
  by (simp add: selected_def sample_selection_def resolve_column_def table_columns_def column_eval column_matches_def string_eval sample_compare)

lemma sample_not_candidate: "\<not> not_candidate sample_table (Some sample_selection) 0" "not_candidate sample_table (Some sample_selection) (Suc 0)"
  by (simp_all add: not_candidate_def sample_candidates get_def)

lemma sample_find: "map_of (cat_tables sample_catalog) ''t'' = Some sample_table"
  by (simp add: sample_catalog_def put_table_def catalog_default_def)

definition sample_deleted :: catalog where
  "sample_deleted = put_table sample_catalog ''t'' (rebuild_index sample_ln (sample_table\<lparr>tb_rows := [[VInteger 2, VNull]], tb_row_ids := [2]\<rparr>))"

lemma sample_valid: "validate_catalog sample_deleted = Inr ()"
  by (simp add: sample_deleted_def sample_catalog_def put_table_def catalog_default_def validate_eval column_eval index_eval)

lemma sample_delete: "execute_delete sample_ln sample_catalog ''t'' (Some sample_selection) = Inr (RowsAffected 1, sample_deleted)"
  by (simp add: execute_delete_def sample_find string_eval delete_step_def sample_rows_def Let_def sample_not_candidate sample_selected idx_def
    validated_def sample_valid flip: sample_deleted_def)

definition sample_updated :: catalog where
  "sample_updated = put_table sample_catalog ''t'' (rebuild_index sample_ln (sample_table\<lparr>tb_rows := [[VInteger 1, VText ''b''], [VInteger 2, VNull]]\<rparr>))"

lemma sample_update_valid: "validate_catalog sample_updated = Inr ()"
  by (simp add: sample_updated_def sample_catalog_def put_table_def catalog_default_def validate_eval column_eval index_eval)

lemma sample_update: "execute_update sample_ln sample_catalog ''t'' [(''note'', Literal (VText ''b''))] (Some sample_selection) = Inr (RowsAffected 1, sample_updated)"
  by (simp add: execute_update_def sample_find string_eval update_row_def sample_rows_def Let_def sample_not_candidate sample_selected idx_def
    validated_def sample_update_valid assign_step_def column_eval vec_set_def flip: sample_updated_def)

lemma sample_find': "map_of (cat_tables sample_catalog) (to_ascii_lowercase ''t'') = Some sample_table"
  by (simp add: sample_find string_eval)

definition sample_relation :: relation where
  "sample_relation = \<lparr>rel_columns = table_columns ''t'' sample_schema, rel_rows = sample_rows\<rparr>"

lemma sample_compare': "arith (BCompare OpLessThan) (VInteger 2) (VInteger 2) = Inr (VBoolean False)"
  by code_simp

lemma sample_filter:
  "filter_rows runq (Some sample_selection) (relation_from_table sample_table ''t'' None) =
     Inr \<lparr>rel_columns = table_columns ''t'' sample_schema, rel_rows = [[VInteger 1, VText ''a'']]\<rparr>"
  by (simp add: filter_rows_def relation_from_table_None sample_rows_def sample_selection_def resolve_column_def table_columns_def
      column_eval column_matches_def string_eval sample_compare sample_compare')

text \<open>The selection before its right side is folded.\<close>

definition sample_unfolded :: expr where
  "sample_unfolded = Binary (Column None ''id'') (BCompare OpLessThan) (Binary (Literal (VInteger 1)) BAdd (Literal (VInteger 1)))"

lemma sample_unfolded_fold: "fold_expr sample_unfolded = Inr sample_selection" "fold_safe sample_unfolded"
  by code_simp+

lemma sample_behind_torn: "unreadable sample_platform (sample_torn @ pf_record_json sample_platform sample_record)"
proof -
  have "parse_sql sample_front (sample_torn @ [CHR 0x7B, CHR ''1'', CHR 0x7D]) = Inl (Fail ''syntax error'')" by code_simp
  then show ?thesis
    by (simp add: unreadable_def sample_json) (simp add: sample_torn_def utf8_valid_def sample_platform_def)
qed

section \<open>A second commit, and a deletion with the log closed\<close>

lemma sample_drop_readable: "readable sample_platform sample_drop_record"
proof -
  have "sample_drop_record \<noteq> sample_record"
    by (simp add: sample_drop_record_def sample_record_def sample_drop_def sample_create_def)
  then have json: "pf_record_json sample_platform sample_drop_record = [CHR 0x7B, CHR ''2'', CHR 0x7D]"
    by (simp add: sample_platform_def)
  have "json_line [CHR 0x7B, CHR ''2'', CHR 0x7D]"
    by (simp add: json_line_def newline_def utf8_valid_def)
  then show ?thesis
    by (simp add: readable_def json)
      (simp add: sample_platform_def sample_drop_record_def sample_record_def wal_record_valid_def wal_format_version_def wal_checksum_def)
qed

lemma sample_drop_record_new: "wal_record_new sample_platform 5 0 1 [DurableBound sample_drop] = sample_drop_record"
  by (simp add: wal_record_new_def sample_drop_record_def sample_record_def wal_format_version_def wal_checksum_def)

lemma sample_drop_exec: "exec_durable sample_platform catalog_default (DurableBound sample_drop) = Inr catalog_default"
  by (simp add: exec_durable_def sample_drop_def execute_catalog_def execute_statement_def execute_drop_table_def
      catalog_default_def validate_catalog_def validate_foreign_keys_def)

lemma sample_good_drop: "good_commit sample_platform sample_io sample_db [DurableBound sample_drop]"
proof -
  have "cat_version catalog_default = 0" "ids_left catalog_default" by (simp_all add: catalog_default_def ids_left_def)
  moreover have "is_write_statement sample_drop" by (simp add: sample_drop_def)
  ultimately show ?thesis
    using sample_drop_readable sample_drop_record_new
    by (simp add: good_commit_def sample_io_def sample_db_def sample_drop_exec stable_def u64_max_def)
qed

text \<open>The log after a commit that was not synced, and after the next one.\<close>

definition sample_failed :: "unit res \<times> database" where
  "sample_failed = log_transaction sample_platform (sample_io\<lparr>io_log := LogSyncFailed\<rparr>) sample_db 0 (0 + 1) [DurableBound sample_create]"

definition sample_second :: "unit res \<times> database" where
  "sample_second = log_transaction sample_platform sample_io (snd sample_failed) 0 (0 + 1) [DurableBound sample_drop]"

definition sample_reopen_fails :: io where
  "sample_reopen_fails = sample_io\<lparr>io_save := ReopenFailed\<rparr>"

definition sample_closed :: database where
  "sample_closed = snd (save sample_platform sample_reopen_fails (sample_db\<lparr>db_catalog := sample_catalog\<rparr>))"

lemma sample_save_fails:
  "save sample_platform sample_reopen_fails (sample_db\<lparr>db_catalog := sample_catalog\<rparr>) =
     (Inl (Fail ''Failed to reopen WAL: ''), sample_closed)"
  by (simp add: sample_closed_def sample_reopen_fails_def sample_io_def save_def rotate_wal_def sample_db_def Let_def)

lemma sample_closed_run: "run sample_platform (db_catalog sample_closed) (Delete ''t'' (Some sample_selection)) =
    Inr (RowsAffected 1, sample_deleted)"
  using save_catalog [OF sample_save_fails]
  by (simp add: execute_catalog_def execute_statement_def sample_delete sample_valid)

end
