(* ===== verification/Config.thy ===== *)
theory Config
  imports SqlText TableStore
begin

text \<open>
  The configuration of the server, \<open>ServerConfig\<close> of \<^verbatim>\<open>src/src/server.rs\<close>, read from the
  environment. The environment is a function from names to the values that are set and valid
  UTF-8. The lemmas show that whatever the environment holds, the configuration is in range.
\<close>

text \<open>\<open>str::parse\<close> at an unsigned type of the given width.\<close>

definition parse_uint :: "nat \<Rightarrow> string \<Rightarrow> nat option" where
  "parse_uint width s = (let ds = (case s of c # cs \<Rightarrow> if c = CHR ''+'' then cs else s | [] \<Rightarrow> []) in
     if \<not> all_digits ds then None
     else if read_nat ds < 2 ^ width then Some (read_nat ds) else None)"

text \<open>\<open>str::split_once\<close>, which also is \<open>splitn(2, c)\<close> when it gives two parts.\<close>

definition split_once :: "char \<Rightarrow> string \<Rightarrow> (string \<times> string) option" where
  "split_once d s =
     (if d \<in> set s then Some (takeWhile (\<lambda>c. c \<noteq> d) s, tl (dropWhile (\<lambda>c. c \<noteq> d) s)) else None)"

lemma split_once_iff: "split_once d s = Some (a, b) \<longleftrightarrow> s = a @ d # b \<and> d \<notin> set a"
proof
  assume "split_once d s = Some (a, b)"
  then have d: "d \<in> set s" and a: "a = takeWhile (\<lambda>c. c \<noteq> d) s" and b: "b = tl (dropWhile (\<lambda>c. c \<noteq> d) s)"
    by (auto simp: split_once_def split: if_splits)
  from d have ne: "dropWhile (\<lambda>c. c \<noteq> d) s \<noteq> []" by (auto simp: dropWhile_eq_Nil_conv)
  with hd_dropWhile [OF ne] b have "dropWhile (\<lambda>c. c \<noteq> d) s = d # b" by (metis list.collapse)
  then show "s = a @ d # b \<and> d \<notin> set a"
    using a takeWhile_dropWhile_id [of "\<lambda>c. c \<noteq> d" s] by (auto dest: set_takeWhileD)
next
  assume s: "s = a @ d # b \<and> d \<notin> set a"
  have "d \<notin> set a \<Longrightarrow> takeWhile (\<lambda>c. c \<noteq> d) (a @ d # b) = a \<and> dropWhile (\<lambda>c. c \<noteq> d) (a @ d # b) = d # b"
    by (induction a) auto
  with s show "split_once d s = Some (a, b)" by (simp add: split_once_def)
qed

definition starts_with_str :: "string \<Rightarrow> string \<Rightarrow> bool" where
  "starts_with_str s prefix \<longleftrightarrow> take (length prefix) s = prefix"

definition contains_str :: "string \<Rightarrow> string \<Rightarrow> bool" where
  "contains_str s pat \<longleftrightarrow> find_str pat s \<noteq> None"

definition ends_with_str :: "string \<Rightarrow> string \<Rightarrow> bool" where
  "ends_with_str s suffix \<longleftrightarrow> length suffix \<le> length s \<and> drop (length s - length suffix) s = suffix"

definition parse_bloom_false_positive_rate :: "string option \<Rightarrow> f64" where
  "parse_bloom_false_positive_rate s =
     (case Option.bind s parse_f64 of
        Some v \<Rightarrow> if f64_is_finite v \<and> f64_lt f64_zero v \<and> f64_lt v (f64_of_int 1) then v else default_bloom_false_positive_rate
      | None \<Rightarrow> default_bloom_false_positive_rate)"

record server_config =
  sc_host :: string
  sc_port :: nat
  sc_username :: "string option"
  sc_password :: "string option"
  sc_data_dir :: string
  sc_memory_only :: bool
  sc_wire_port :: nat
  sc_plan_cache_capacity :: nat
  sc_memory_pool_capacity :: nat
  sc_bloom_false_positive_rate :: f64

definition or_default :: "'a \<Rightarrow> 'a option \<Rightarrow> 'a" where
  "or_default d x = (case x of Some v \<Rightarrow> v | None \<Rightarrow> d)"

definition from_env :: "(string \<Rightarrow> string option) \<Rightarrow> server_config" where
  "from_env env = \<lparr>
     sc_host = or_default ''0.0.0.0'' (env ''RUSTYDB_HOST''),
     sc_port = or_default 8080 (Option.bind (env ''RUSTYDB_PORT'') (parse_uint 16)),
     sc_username = env ''RUSTYDB_USERNAME'',
     sc_password = env ''RUSTYDB_PASSWORD'',
     sc_data_dir = or_default ''./rustydb_data'' (env ''RUSTYDB_DATA_DIR''),
     sc_memory_only = (case env ''RUSTYDB_MEMORY_ONLY'' of Some v \<Rightarrow> v = ''true'' \<or> v = ''1'' | None \<Rightarrow> False),
     sc_wire_port = or_default 3307 (Option.bind (env ''RUSTYDB_WIRE_PORT'') (parse_uint 16)),
     sc_plan_cache_capacity = or_default 256 (Option.bind (env ''RUSTYDB_PLAN_CACHE_CAPACITY'') (parse_uint 64)),
     sc_memory_pool_capacity = or_default 32 (Option.bind (env ''RUSTYDB_MEMORY_POOL_CAPACITY'') (parse_uint 64)),
     sc_bloom_false_positive_rate = parse_bloom_false_positive_rate (env ''RUSTYDB_BLOOM_FALSE_POSITIVE_RATE'')\<rparr>"

definition auth_required :: "server_config \<Rightarrow> bool" where
  "auth_required config \<longleftrightarrow> sc_username config \<noteq> None \<and> sc_password config \<noteq> None"

lemma parse_uint_bound: "parse_uint width s = Some n \<Longrightarrow> n < 2 ^ width"
  by (auto simp: parse_uint_def Let_def split: if_splits)

lemma parse_uint_show: "n < 2 ^ width \<Longrightarrow> parse_uint width (show_nat n) = Some n"
proof -
  assume n: "n < 2 ^ width"
  have "all_digits (show_nat n)" using show_nat_digits by (auto simp: all_digits_def list_all_iff)
  moreover obtain c cs where c: "show_nat n = c # cs" by (cases "show_nat n") simp_all
  moreover have "c \<noteq> CHR ''+''" using show_nat_digits [of c n] c by (auto simp: is_digit_def)
  ultimately show ?thesis using n read_show_nat [of n] by (simp add: parse_uint_def Let_def)
qed

definition open_unit_interval :: "f64 \<Rightarrow> bool" where
  "open_unit_interval x \<longleftrightarrow> f64_is_finite x \<and> f64_lt f64_zero x \<and> f64_lt x (f64_of_int 1)"

lemma bloom_rate_in_range: "open_unit_interval (parse_bloom_false_positive_rate s)"
proof -
  have eval: "default_bloom_false_positive_rate = 0x3F847AE147AE147B" "f64_of_int 1 = 0x3FF0000000000000"
    by (simp_all add: default_bloom_false_positive_rate_def f64_of_int_eval f64_make_def)
  have "open_unit_interval default_bloom_false_positive_rate"
    unfolding open_unit_interval_def eval by (simp add: f64_is_finite_def f64_lt_def f64_partial_cmp_def f64_key_def f64_sign_def f64_mag_def
        f64_is_nan_def f64_inf_mag_def f64_zero_def)
  then show ?thesis
    by (auto simp: parse_bloom_false_positive_rate_def open_unit_interval_def split: option.splits)
qed

text \<open>Whatever the environment holds, ports are ports, capacities fit a \<open>usize\<close> and the rate is a rate.\<close>

lemma config_in_range:
  "sc_port (from_env env) < 2 ^ 16 \<and> sc_wire_port (from_env env) < 2 ^ 16 \<and>
   sc_plan_cache_capacity (from_env env) < 2 ^ 64 \<and> sc_memory_pool_capacity (from_env env) < 2 ^ 64 \<and>
   open_unit_interval (sc_bloom_false_positive_rate (from_env env))"
proof -
  have "or_default d (Option.bind x (parse_uint width)) < 2 ^ width" if "d < 2 ^ width" for d x width
    using that parse_uint_bound by (auto simp: or_default_def split: option.splits bind_splits)
  note bound = this [where width = 16] this [where width = 64]
  show ?thesis by (simp add: from_env_def bloom_rate_in_range bound [simplified])
qed

end
