(* ===== verification/Display.thy ===== *)
theory Display
  imports Database
begin

text \<open>
  How results are printed: \<open>ResultSet::to_table_string\<close> of \<^verbatim>\<open>src/src/sql/types.rs\<close> and the
  \<open>Display\<close> instance of \<open>ExecutionResult\<close> in \<^verbatim>\<open>src/src/sql/executor.rs\<close>. A width in a
  format string pads the names, which are strings, counted in characters; values and data
  types have \<open>Display\<close> instances that write through a formatter of their own and are not
  padded. The lemmas show that printing does not panic when no row is wider than the header
  and how wide the lines of a table are, and that rows do not line up with their frame.
\<close>

section \<open>Padding\<close>

text \<open>\<open>chars().count()\<close> of a string of UTF-8: every byte but the continuation bytes.\<close>

definition is_continuation :: "char \<Rightarrow> bool" where
  "is_continuation c \<longleftrightarrow> 128 \<le> (of_char c :: nat) \<and> (of_char c :: nat) < 192"

definition char_count :: "string \<Rightarrow> nat" where
  "char_count s = length (filter (\<lambda>c. \<not> is_continuation c) s)"

definition pad :: "nat \<Rightarrow> string \<Rightarrow> string" where
  "pad width s = s @ replicate (width - char_count s) (CHR '' '')"

section \<open>Result sets\<close>

definition widen :: "nat list \<Rightarrow> row \<Rightarrow> nat list" where
  "widen widths r = map (\<lambda>(i, w). if i < length r then max w (length (value_to_string (r ! i))) else w) (enumerate 0 widths)"

definition column_widths :: "result_set \<Rightarrow> nat list" where
  "column_widths rs = foldl widen (map length (rs_columns rs)) (rs_rows rs)"

definition table_separator :: "nat list \<Rightarrow> string" where
  "table_separator widths =
     ''+'' @ join_with ''+'' (map (\<lambda>w. replicate (w + 2) (CHR ''-'')) widths) @ ''+'' @ [newline]"

definition header_line :: "nat list \<Rightarrow> string list \<Rightarrow> string" where
  "header_line widths columns =
     ''|'' @ concat (map (\<lambda>(w, c). '' '' @ pad w c @ '' |'') (zip widths columns)) @ [newline]"

text \<open>A row reads \<open>widths[index]\<close>, which panics behind the last column; its values are not padded.\<close>

definition row_line :: "nat list \<Rightarrow> row \<Rightarrow> string res" where
  "row_line widths r =
     rbind (res_map (\<lambda>(i, v). rbind (idx widths i) (\<lambda>w. Inr ('' '' @ value_to_string v @ '' |''))) (enumerate 0 r)) (\<lambda>cells.
       Inr (''|'' @ concat cells @ [newline]))"

definition to_table_string :: "result_set \<Rightarrow> string res" where
  "to_table_string rs =
     (if rs_columns rs = [] then Inr ''Empty result set''
      else let widths = column_widths rs; separator = table_separator widths in
        rbind (res_map (row_line widths) (rs_rows rs)) (\<lambda>lines.
          Inr (separator @ header_line widths (rs_columns rs) @ separator @ concat lines @ separator @
               show_nat (length (rs_rows rs)) @ '' row(s)'' @ [newline])))"

section \<open>Execution results\<close>

definition describe_separator :: string where
  "describe_separator = ''+----------------+----------+----------+-------------+--------+'' @ [newline]"

definition yes_no :: "bool \<Rightarrow> string" where
  "yes_no b = (if b then ''YES'' else ''NO'')"

definition describe_line :: "column_def \<Rightarrow> string" where
  "describe_line c =
     ''| '' @ pad 14 (col_name c) @ '' | '' @ data_type_name (col_data_type c) @ '' | '' @ pad 8 (yes_no (col_nullable c)) @
     '' | '' @ pad 11 (yes_no (col_primary_key c)) @ '' | '' @ pad 6 (yes_no (col_unique c)) @ '' |'' @ [newline]"

fun execution_result_to_string :: "execution_result \<Rightarrow> string res" where
  "execution_result_to_string (RSelect rs) = to_table_string rs"
| "execution_result_to_string (RowsAffected n) = Inr (show_nat n @ '' row(s) affected'')"
| "execution_result_to_string (TableCreated name) = Inr (''Table '' @ quoted name @ '' created'')"
| "execution_result_to_string (TableDropped name) = Inr (''Table '' @ quoted name @ '' dropped'')"
| "execution_result_to_string (IndexCreated name) = Inr (''Index '' @ quoted name @ '' created'')"
| "execution_result_to_string (IndexDropped name) = Inr (''Index '' @ quoted name @ '' dropped'')"
| "execution_result_to_string (RTables tables) =
     Inr (if tables = [] then ''No tables'' else join_with [newline] tables)"
| "execution_result_to_string (RIndexes indexes) =
     Inr (join_with [newline] (map (\<lambda>ix. ix_name ix @ '' ('' @ join_with '', '' (ix_columns ix) @ '')'' @
            (if ix_unique ix then '' UNIQUE'' else [])) indexes))"
| "execution_result_to_string (TableDescription name columns) =
     Inr (''Table: '' @ name @ [newline] @ describe_separator @
          ''| Column         | Type     | Nullable | Primary Key | Unique |'' @ [newline] @ describe_separator @
          concat (map describe_line columns) @ describe_separator)"
| "execution_result_to_string (RExplain ls) = Inr (join_with [newline] ls)"
| "execution_result_to_string TransactionStarted = Inr ''Transaction started''"
| "execution_result_to_string TransactionCommitted = Inr ''Transaction committed''"
| "execution_result_to_string TransactionRolledBack = Inr ''Transaction rolled back''"
| "execution_result_to_string (RError message) = Inr (''Error: '' @ message)"

section \<open>Printing does not panic\<close>

lemma length_widen [simp]: "length (widen widths r) = length widths"
  by (simp add: widen_def)

lemma length_foldl_widen [simp]: "length (foldl widen widths rs) = length widths"
  by (induction rs arbitrary: widths) simp_all

lemma length_column_widths [simp]: "length (column_widths rs) = length (rs_columns rs)"
  by (simp add: column_widths_def)

lemma row_line_ok:
  assumes "length r \<le> length widths"
  shows "row_line widths r = Inr (''|'' @ concat (map (\<lambda>v. '' '' @ value_to_string v @ '' |'') r) @ [newline])"
proof -
  let ?cell = "\<lambda>v. '' '' @ value_to_string v @ '' |''"
  have "res_map (\<lambda>(i, v). rbind (idx widths i) (\<lambda>w. Inr (?cell v))) (enumerate n r) = Inr (map ?cell r)"
    if "n + length r \<le> length widths" for n
    using that by (induction r arbitrary: n) (simp_all add: idx_def)
  from this [of 0] assms show ?thesis by (simp add: row_line_def)
qed

lemma row_lines_ok:
  assumes "\<forall>r \<in> set rs. length r \<le> length widths"
  shows "res_map (row_line widths) rs =
     Inr (map (\<lambda>r. ''|'' @ concat (map (\<lambda>v. '' '' @ value_to_string v @ '' |'') r) @ [newline]) rs)"
proof -
  have "res_map (row_line widths) rs = res_map (\<lambda>r. Inr (''|'' @ concat (map (\<lambda>v. '' '' @ value_to_string v @ '' |'') r) @ [newline])) rs"
    using assms by (intro res_map_cong) (simp_all add: row_line_ok)
  then show ?thesis by (simp add: res_map_Inr_map)
qed

lemma printing_no_panic:
  "\<forall>r \<in> set (rs_rows rs). length r \<le> length (rs_columns rs) \<Longrightarrow> \<exists>s. to_table_string rs = Inr s"
  by (simp add: to_table_string_def Let_def row_lines_ok)

section \<open>The width of the lines\<close>

lemma char_count_append [simp]: "char_count (a @ b) = char_count a + char_count b"
  by (simp add: char_count_def)

lemma char_count_Cons: "char_count (c # s) = (if is_continuation c then 0 else 1) + char_count s"
  by (simp add: char_count_def)

lemma char_count_replicate: "char_count (replicate n c) = (if is_continuation c then 0 else n)"
  by (simp add: char_count_def)

lemma char_count_Nil: "char_count [] = 0"
  by (simp add: char_count_def)

lemma char_count_concat: "char_count (concat ss) = sum_list (map char_count ss)"
  by (induction ss) (simp_all add: char_count_def)

lemmas char_count_ascii = char_count_Nil char_count_Cons char_count_replicate is_continuation_def newline_def numeral_3_eq_3

lemma pad_width: "char_count s \<le> w \<Longrightarrow> char_count (pad w s) = w"
  by (simp add: pad_def char_count_ascii)

lemma join_width: "ss \<noteq> [] \<Longrightarrow> char_count (join_with ''+'' ss) + 1 = (\<Sum>s \<leftarrow> ss. char_count s + 1)"
  by (induction "''+''" ss rule: join_with.induct) (simp_all add: char_count_ascii)

text \<open>The frame and the header are as wide as the widths say; a row is as wide as its values.\<close>

lemma separator_width: "widths \<noteq> [] \<Longrightarrow> char_count (table_separator widths) = (\<Sum>w \<leftarrow> widths. w + 3) + 2"
  using join_width [of "map (\<lambda>w. replicate (w + 2) (CHR ''-'')) widths"]
  by (simp add: table_separator_def char_count_ascii comp_def add.commute)

lemma header_width:
  "list_all2 (\<lambda>w c. char_count c \<le> w) widths columns \<Longrightarrow> char_count (header_line widths columns) = (\<Sum>w \<leftarrow> widths. w + 3) + 2"
proof (induction rule: list_all2_induct)
  case (Cons w ws c cs)
  then show ?case by (simp add: header_line_def char_count_ascii pad_width)
qed (simp add: header_line_def char_count_ascii)

lemma row_width:
  "length r \<le> length widths \<Longrightarrow> row_line widths r = Inr line \<Longrightarrow>
   char_count line = (\<Sum>v \<leftarrow> r. char_count (value_to_string v) + 3) + 2"
  by (auto simp: row_line_ok char_count_ascii char_count_concat comp_def add.commute)

text \<open>So a table of two rows of different widths is not rectangular.\<close>

lemma rows_not_aligned:
  "to_table_string \<lparr>rs_columns = [''n''], rs_rows = [[VInteger 7], [VInteger 12]]\<rparr> =
     Inr (concat (map (\<lambda>l. l @ [newline])
       [''+----+'', ''| n  |'', ''+----+'', ''| 7 |'', ''| 12 |'', ''+----+'', ''2 row(s)'']))"
  by code_simp

end
