(* ===== verification/Persistence.thy ===== *)
theory Persistence
  imports Database
begin

text \<open>
  The persistence manager of the key-value engine, \<^verbatim>\<open>src/src/persistence.rs\<close>: log records with sequence numbers, synchronous and queued
  operations, the background flush, snapshots and recovery. The files are byte strings, the
  outcome of each file operation is an argument. The lemmas show what recovery reads from
  the bytes that were written, and that replaying a log over a snapshot that already holds
  its effects changes nothing.
\<close>

section \<open>Operations and records\<close>

datatype operation = OpSet string string | OpDelete string | OpClear

record kv_wal_record =
  kr_format_version :: nat
  kr_sequence :: nat
  kr_timestamp_millis :: nat
  kr_operation :: operation
  kr_checksum :: "32 word"

record kv_snapshot =
  kn_format_version :: nat
  kn_sequence :: nat
  kn_timestamp_millis :: nat
  kn_entries :: "(string \<times> string) list"

text \<open>CRC-32 and \<open>serde_json\<close>, which are not part of the repository.\<close>

record kv_platform =
  kp_crc :: "string \<Rightarrow> 32 word"
  kp_operation_json :: "operation \<Rightarrow> string"
  kp_record_json :: "kv_wal_record \<Rightarrow> string"
  kp_snapshot_json :: "kv_snapshot \<Rightarrow> string"
  kp_read_record :: "string \<Rightarrow> kv_wal_record option"
  kp_read_operation :: "string \<Rightarrow> operation res"
  kp_read_snapshot :: "string \<Rightarrow> kv_snapshot option"

definition kv_format_version :: nat where
  "kv_format_version = 2"

definition kv_checksum :: "kv_platform \<Rightarrow> nat \<Rightarrow> nat \<Rightarrow> operation \<Rightarrow> 32 word" where
  "kv_checksum kp sequence timestamp_millis op =
     kp_crc kp (le_bytes 8 sequence @ le_bytes 8 timestamp_millis @ kp_operation_json kp op)"

definition kv_record_new :: "kv_platform \<Rightarrow> nat \<Rightarrow> nat \<Rightarrow> operation \<Rightarrow> kv_wal_record" where
  "kv_record_new kp now sequence op =
     \<lparr>kr_format_version = kv_format_version, kr_sequence = sequence, kr_timestamp_millis = now,
      kr_operation = op, kr_checksum = kv_checksum kp sequence now op\<rparr>"

definition kv_record_valid :: "kv_platform \<Rightarrow> kv_wal_record \<Rightarrow> bool" where
  "kv_record_valid kp r \<longleftrightarrow> kr_format_version r = kv_format_version \<and>
     kr_checksum r = kv_checksum kp (kr_sequence r) (kr_timestamp_millis r) (kr_operation r)"

section \<open>The manager\<close>

record kv_config =
  kc_data_dir :: string
  kc_flush_interval_ms :: nat
  kc_snapshot_threshold :: nat

definition kv_config_default :: kv_config where
  "kv_config_default = \<lparr>kc_data_dir = ''./data'', kc_flush_interval_ms = 1000,
     kc_snapshot_threshold = 10 * 1024 * 1024\<rparr>"

definition kv_config_new :: "string \<Rightarrow> kv_config" where
  "kv_config_new data_dir = kv_config_default\<lparr>kc_data_dir := data_dir\<rparr>"

definition with_flush_interval :: "kv_config \<Rightarrow> nat \<Rightarrow> kv_config" where
  "with_flush_interval c ms = c\<lparr>kc_flush_interval_ms := ms\<rparr>"

definition with_snapshot_threshold :: "kv_config \<Rightarrow> nat \<Rightarrow> kv_config" where
  "with_snapshot_threshold c bytes = c\<lparr>kc_snapshot_threshold := bytes\<rparr>"

record kv_disk =
  kd_wal :: "string option"
  kd_snapshot :: "string option"
  kd_snapshot_tmp :: "string option"
  kd_archive :: "(string \<times> string) list"

record kv_manager =
  km_config :: kv_config
  km_wal_open :: bool
  km_pending :: "operation list"
  km_next_sequence :: nat
  km_disk :: kv_disk

definition kv_wal_bytes :: "kv_disk \<Rightarrow> string" where
  "kv_wal_bytes d = (case kd_wal d of None \<Rightarrow> [] | Some file \<Rightarrow> file)"

text \<open>\<open>fetch_add\<close> on an \<open>AtomicU64\<close> wraps around.\<close>

definition next_sequence :: "nat \<Rightarrow> nat" where
  "next_sequence n = (n + 1) mod 2 ^ 64"

definition append_wal :: "kv_manager \<Rightarrow> string \<Rightarrow> kv_manager" where
  "append_wal m bytes = m\<lparr>km_disk := (km_disk m)\<lparr>kd_wal := Some (kv_wal_bytes (km_disk m) @ bytes)\<rparr>\<rparr>"

definition log_operation_async :: "kv_manager \<Rightarrow> operation \<Rightarrow> kv_manager" where
  "log_operation_async m op = m\<lparr>km_pending := km_pending m @ [op]\<rparr>"

definition log_operation_sync :: "kv_platform \<Rightarrow> io \<Rightarrow> kv_manager \<Rightarrow> operation \<Rightarrow> unit res \<times> kv_manager" where
  "log_operation_sync kp os m op =
     (if \<not> km_wal_open m then (Inr (), m)
      else let bytes = kp_record_json kp (kv_record_new kp (io_now os) (km_next_sequence m) op) @ [newline];
               m1 = m\<lparr>km_next_sequence := next_sequence (km_next_sequence m)\<rparr>
           in case io_log os of
                LogOk \<Rightarrow> (Inr (), append_wal m1 bytes)
              | LogWriteFailed n \<Rightarrow>
                  (Inl (Fail (''Failed to write to WAL: '' @ io_error os)), append_wal m1 (take n bytes))
              | LogSyncFailed \<Rightarrow> (Inl (Fail (''Failed to sync WAL: '' @ io_error os)), append_wal m1 bytes))"

text \<open>\<open>flush\<close> takes the queue first; an error drops what is left of it.\<close>

fun log_operations :: "kv_platform \<Rightarrow> (nat \<Rightarrow> io) \<Rightarrow> kv_manager \<Rightarrow> operation list \<Rightarrow> unit res \<times> kv_manager" where
  "log_operations kp os m [] = (Inr (), m)"
| "log_operations kp os m (op # ops) =
     (case log_operation_sync kp (os 0) m op of
        (Inl e, m1) \<Rightarrow> (Inl e, m1)
      | (Inr _, m1) \<Rightarrow> log_operations kp (\<lambda>i. os (Suc i)) m1 ops)"

definition kv_flush :: "kv_platform \<Rightarrow> (nat \<Rightarrow> io) \<Rightarrow> kv_manager \<Rightarrow> unit res \<times> kv_manager" where
  "kv_flush kp os m = log_operations kp os (m\<lparr>km_pending := []\<rparr>) (km_pending m)"

text \<open>One turn of the background thread: write errors are ignored, and so is a closed log.\<close>

definition write_ignoring :: "kv_platform \<Rightarrow> io \<Rightarrow> kv_manager \<Rightarrow> operation \<Rightarrow> kv_manager" where
  "write_ignoring kp os m op =
     (let bytes = kp_record_json kp (kv_record_new kp (io_now os) (km_next_sequence m) op) @ [newline];
          m1 = m\<lparr>km_next_sequence := next_sequence (km_next_sequence m)\<rparr>
      in append_wal m1 (case io_log os of LogWriteFailed n \<Rightarrow> take n bytes | _ \<Rightarrow> bytes))"

fun write_all_ignoring :: "kv_platform \<Rightarrow> (nat \<Rightarrow> io) \<Rightarrow> kv_manager \<Rightarrow> operation list \<Rightarrow> kv_manager" where
  "write_all_ignoring kp os m [] = m"
| "write_all_ignoring kp os m (op # ops) =
     write_all_ignoring kp (\<lambda>i. os (Suc i)) (write_ignoring kp (os 0) m op) ops"

definition background_flush :: "kv_platform \<Rightarrow> (nat \<Rightarrow> io) \<Rightarrow> kv_manager \<Rightarrow> kv_manager" where
  "background_flush kp os m =
     (let m1 = m\<lparr>km_pending := []\<rparr>
      in if km_wal_open m then write_all_ignoring kp os m1 (km_pending m) else m1)"

definition kv_current_sequence :: "kv_manager \<Rightarrow> nat" where
  "kv_current_sequence m = km_next_sequence m - 1"

definition kv_wal_size :: "kv_manager \<Rightarrow> nat" where
  "kv_wal_size m = length (kv_wal_bytes (km_disk m))"

section \<open>Recovery\<close>

fun read_operations :: "kv_platform \<Rightarrow> string list \<Rightarrow> operation list res" where
  "read_operations kp [] = Inr []"
| "read_operations kp (l # ls) =
     (if trim l = [] then read_operations kp ls
      else rbind (context_fail ''Failed to parse operation: '' (kp_read_operation kp l)) (\<lambda>op.
             rbind (read_operations kp ls) (\<lambda>ops. Inr (op # ops))))"

text \<open>\<open>str::lines\<close> splits as \<open>BufRead::lines\<close> does.\<close>

definition recover_snapshot :: "kv_platform \<Rightarrow> kv_disk \<Rightarrow> operation list res" where
  "recover_snapshot kp d = (case kd_snapshot d of
     None \<Rightarrow> Inr []
   | Some bytes \<Rightarrow>
       rbind (read_to_string ''Failed to open snapshot: '' bytes) (\<lambda>content.
         case kp_read_snapshot kp content of
           Some s \<Rightarrow> Inr (map (\<lambda>(key, v). OpSet key v) (kn_entries s))
         | None \<Rightarrow> read_operations kp (file_lines content)))"

text \<open>
  A line that is no record and no operation is skipped; a record with a wrong checksum ends
  the loop.
\<close>

fun recover_wal :: "kv_platform \<Rightarrow> string list \<Rightarrow> operation list res" where
  "recover_wal kp [] = Inr []"
| "recover_wal kp (l # ls) =
     (if \<not> utf8_valid l then Inl (Fail ''Failed to read line: stream did not contain valid UTF-8'')
      else if trim l = [] then recover_wal kp ls
      else case kp_read_record kp l of
        Some r \<Rightarrow>
          if \<not> kv_record_valid kp r then Inr []
          else rbind (recover_wal kp ls) (\<lambda>ops. Inr (kr_operation r # ops))
      | None \<Rightarrow>
          (case kp_read_operation kp l of
             Inr op \<Rightarrow> rbind (recover_wal kp ls) (\<lambda>ops. Inr (op # ops))
           | Inl _ \<Rightarrow> recover_wal kp ls))"

definition kv_recover :: "kv_platform \<Rightarrow> kv_disk \<Rightarrow> operation list res" where
  "kv_recover kp d = rbind (recover_snapshot kp d) (\<lambda>ops.
     case kd_wal d of
       None \<Rightarrow> Inr ops
     | Some file \<Rightarrow> rbind (recover_wal kp (file_lines file)) (\<lambda>ops'. Inr (ops @ ops')))"

definition scan_max_sequence :: "kv_platform \<Rightarrow> kv_disk \<Rightarrow> nat" where
  "scan_max_sequence kp d =
     (let snapshot_sequence = (case kd_snapshot d of
            Some bytes \<Rightarrow> (if utf8_valid bytes
              then (case kp_read_snapshot kp bytes of Some s \<Rightarrow> kn_sequence s | None \<Rightarrow> 0) else 0)
          | None \<Rightarrow> 0);
          wal_sequence = (case kd_wal d of
            Some file \<Rightarrow> foldl max 0 (map kr_sequence (filter (kv_record_valid kp)
              (List.map_filter (kp_read_record kp) (takeWhile utf8_valid (file_lines file)))))
          | None \<Rightarrow> 0)
      in max snapshot_sequence wal_sequence)"

definition kv_manager_new ::
  "kv_platform \<Rightarrow> open_io \<Rightarrow> string \<Rightarrow> string set \<Rightarrow> kv_disk \<Rightarrow> kv_config \<Rightarrow> (kv_manager \<times> string set) res" where
  "kv_manager_new kp os err held d config =
     (if os = OpenDirFailed then Inl (Fail (''Failed to create directory: '' @ err))
      else rbind (lock_acquire (lock_result os) err held (kc_data_dir config) ''kv'') (\<lambda>held'.
        if os = OpenWalFailed then Inl (Fail (''Failed to open WAL: '' @ err))
        else Inr (\<lparr>km_config = config, km_wal_open = True, km_pending = [],
                   km_next_sequence = sat_add (scan_max_sequence kp d) 1,
                   km_disk = d\<lparr>kd_wal := Some (kv_wal_bytes d)\<rparr>\<rparr>, held')))"

section \<open>Snapshots\<close>

definition kv_archive_name :: "nat \<Rightarrow> nat \<Rightarrow> string" where
  "kv_archive_name sequence now = ''kv-'' @ show_nat sequence @ ''-'' @ show_nat now @ ''.wal''"

definition kv_rotate :: "io \<Rightarrow> kv_manager \<Rightarrow> unit res \<times> kv_manager" where
  "kv_rotate os m =
     (let m1 = m\<lparr>km_wal_open := False\<rparr>;
          d = km_disk m;
          archived = d\<lparr>kd_wal := None, kd_archive := kd_archive d @
            [(kv_archive_name (kv_current_sequence m) (io_now os), kv_wal_bytes d)]\<rparr>;
          d1 = (if kv_wal_bytes d = [] then d else archived)
      in if kv_wal_bytes d \<noteq> [] \<and> io_save os = ArchiveDirFailed
         then (Inl (Fail (''Failed to create KV WAL archive: '' @ io_error os)), m1)
         else if kv_wal_bytes d \<noteq> [] \<and> io_save os = ArchiveRenameFailed
         then (Inl (Fail (''Failed to archive KV WAL: '' @ io_error os)), m1)
         else if io_save os = ReopenFailed
         then (Inl (Fail (''Failed to reopen WAL: '' @ io_error os)), m1\<lparr>km_disk := d1\<rparr>)
         else (Inr (), m1\<lparr>km_wal_open := True, km_disk := d1\<lparr>kd_wal := Some (kv_wal_bytes d1)\<rparr>\<rparr>))"

definition kv_publish ::
  "kv_platform \<Rightarrow> io \<Rightarrow> kv_manager \<Rightarrow> (string \<times> string) list \<Rightarrow> unit res \<times> kv_manager" where
  "kv_publish kp os m data =
     (let encoded = kp_snapshot_json kp \<lparr>kn_format_version = kv_format_version,
            kn_sequence = kv_current_sequence m, kn_timestamp_millis = io_now os, kn_entries = data\<rparr>;
          d = km_disk m;
          with_tmp = (\<lambda>bytes. m\<lparr>km_disk := d\<lparr>kd_snapshot_tmp := Some bytes\<rparr>\<rparr>)
      in case io_save os of
           SnapshotCreateFailed \<Rightarrow> (Inl (Fail (''Failed to create snapshot: '' @ io_error os)), m)
         | SnapshotWriteFailed n \<Rightarrow> (Inl (Fail (''Failed to write snapshot: '' @ io_error os)), with_tmp (take n encoded))
         | SnapshotSyncFailed \<Rightarrow> (Inl (Fail (''Failed to sync snapshot: '' @ io_error os)), with_tmp encoded)
         | SnapshotRenameFailed \<Rightarrow> (Inl (Fail (''Failed to rename snapshot: '' @ io_error os)), with_tmp encoded)
         | _ \<Rightarrow> (Inr (), m\<lparr>km_disk := d\<lparr>kd_snapshot := Some encoded, kd_snapshot_tmp := None\<rparr>\<rparr>))"

definition create_snapshot ::
  "kv_platform \<Rightarrow> (nat \<Rightarrow> io) \<Rightarrow> io \<Rightarrow> kv_manager \<Rightarrow> (string \<times> string) list \<Rightarrow> unit res \<times> kv_manager" where
  "create_snapshot kp flush_os os m data = (case kv_flush kp flush_os m of
     (Inl e, m1) \<Rightarrow> (Inl e, m1)
   | (Inr _, m1) \<Rightarrow> (case kv_publish kp os m1 data of
       (Inl e, m2) \<Rightarrow> (Inl e, m2)
     | (Inr _, m2) \<Rightarrow> kv_rotate os m2))"

text \<open>Shutting down flushes; the last turn of the background thread then finds an empty queue.\<close>

definition kv_shutdown :: "kv_platform \<Rightarrow> (nat \<Rightarrow> io) \<Rightarrow> kv_manager \<Rightarrow> unit res \<times> kv_manager" where
  "kv_shutdown kp os m = kv_flush kp os m"

section \<open>What recovery reads\<close>

text \<open>
  What is relied on of \<open>serde_json\<close>: a record is one line of UTF-8 that reads back as it is;
  a snapshot is UTF-8 and reads back; what is left of a torn record is neither record nor
  operation.
\<close>

definition kv_readable :: "kv_platform \<Rightarrow> kv_wal_record \<Rightarrow> bool" where
  "kv_readable kp r \<longleftrightarrow> json_line (kp_record_json kp r) \<and> kp_read_record kp (kp_record_json kp r) = Some r \<and>
     kv_record_valid kp r"

definition kv_torn :: "kv_platform \<Rightarrow> string \<Rightarrow> bool" where
  "kv_torn kp s \<longleftrightarrow> newline \<notin> set s \<and> utf8_valid s \<and> kp_read_record kp s = None \<and>
     (\<exists>e. kp_read_operation kp s = Inl e)"

definition kv_snapshot_readable :: "kv_platform \<Rightarrow> kv_snapshot \<Rightarrow> bool" where
  "kv_snapshot_readable kp s \<longleftrightarrow> utf8_valid (kp_snapshot_json kp s) \<and>
     kp_read_snapshot kp (kp_snapshot_json kp s) = Some s"

definition kv_log_bytes :: "kv_platform \<Rightarrow> kv_wal_record list \<Rightarrow> string" where
  "kv_log_bytes kp rs = concat (map (\<lambda>r. kp_record_json kp r @ [newline]) rs)"

lemma kv_log_bytes_snoc: "kv_log_bytes kp (rs @ [r]) = kv_log_bytes kp rs @ kp_record_json kp r @ [newline]"
  by (simp add: kv_log_bytes_def)

lemma recover_wal_bytes:
  assumes "\<forall>r \<in> set rs. kv_readable kp r"
  shows "recover_wal kp (file_lines (kv_log_bytes kp rs @ tail)) =
     rbind (recover_wal kp (file_lines tail)) (\<lambda>ops. Inr (map kr_operation rs @ ops))"
  using assms
proof (induction rs)
  case (Cons r rs)
  have r: "kv_readable kp r" using Cons.prems by simp
  then have "json_line (kp_record_json kp r)" by (simp add: kv_readable_def)
  note props = json_line_props [OF this]
  have "file_lines (kv_log_bytes kp (r # rs) @ tail) = kp_record_json kp r # file_lines (kv_log_bytes kp rs @ tail)"
    using props by (simp add: kv_log_bytes_def file_lines_Cons)
  then show ?case using Cons r props by (simp add: kv_readable_def rbind_assoc)
qed (simp add: kv_log_bytes_def)

lemma recover_wal_written:
  assumes "\<forall>r \<in> set rs. kv_readable kp r" "torn = [] \<or> kv_torn kp torn"
  shows "recover_wal kp (file_lines (kv_log_bytes kp rs @ torn)) = Inr (map kr_operation rs)"
proof -
  have "recover_wal kp (file_lines torn) = Inr []"
    using assms(2) by (auto simp: kv_torn_def file_lines_last split: sum.splits)
  with recover_wal_bytes [OF assms(1), of torn] show ?thesis by simp
qed

text \<open>
  A record appended to a torn one is lost with it; unlike the SQL engine's replay, recovery
  goes on with the lines after it.
\<close>

lemma recover_wal_behind_torn:
  assumes "\<forall>r \<in> set rs. kv_readable kp r" "\<forall>r \<in> set rs'. kv_readable kp r"
    and "json_line (kp_record_json kp r)" "kv_torn kp (torn @ kp_record_json kp r)"
  shows "recover_wal kp (file_lines ((kv_log_bytes kp rs @ torn) @ kv_log_bytes kp (r # rs'))) =
     Inr (map kr_operation rs @ map kr_operation rs')"
proof -
  let ?l = "torn @ kp_record_json kp r"
  have nl: "newline \<notin> set ?l" using assms(4) by (simp add: kv_torn_def)
  have "strip_cr ?l = ?l" using assms(3) by (simp add: strip_cr_def json_line_def)
  then have lines: "file_lines (?l @ newline # kv_log_bytes kp rs') = ?l # file_lines (kv_log_bytes kp rs')"
    by (simp only: file_lines_Cons [OF nl])
  have "recover_wal kp (file_lines (?l @ newline # kv_log_bytes kp rs')) = Inr (map kr_operation rs')"
    unfolding lines using assms(4) recover_wal_written [OF assms(2), of "[]"]
    by (auto simp: kv_torn_def)
  with recover_wal_bytes [OF assms(1), of "?l @ newline # kv_log_bytes kp rs'"] show ?thesis
    by (simp add: kv_log_bytes_def)
qed

section \<open>Replaying operations\<close>

fun apply_operation :: "(string \<rightharpoonup> string) \<Rightarrow> operation \<Rightarrow> (string \<rightharpoonup> string)" where
  "apply_operation m (OpSet key v) = m(key \<mapsto> v)"
| "apply_operation m (OpDelete key) = m(key := None)"
| "apply_operation m OpClear = Map.empty"

text \<open>
  Two states that agree at a key, or where the key is written on the way, agree at it in the
  end: so replaying a log over its own result changes nothing.
\<close>

fun touches :: "operation \<Rightarrow> string \<Rightarrow> bool" where
  "touches (OpSet key v) k = (key = k)"
| "touches (OpDelete key) k = (key = k)"
| "touches OpClear k = True"

lemma foldl_apply_at:
  "m k = m' k \<or> (\<exists>op \<in> set ops. touches op k) \<Longrightarrow> foldl apply_operation m ops k = foldl apply_operation m' ops k"
proof (induction ops arbitrary: m m')
  case (Cons op ops)
  have "apply_operation m op k = apply_operation m' op k \<or> (\<exists>op' \<in> set ops. touches op' k)"
    using Cons.prems by (cases op) auto
  with Cons.IH show ?case by simp
qed simp

lemma foldl_apply_untouched: "\<forall>op \<in> set ops. \<not> touches op k \<Longrightarrow> foldl apply_operation m ops k = m k"
proof (induction ops arbitrary: m)
  case (Cons op ops)
  then have "apply_operation m op k = m k" by (cases op) auto
  with Cons show ?case by simp
qed simp

lemma replay_idempotent: "foldl apply_operation (foldl apply_operation m ops) ops = foldl apply_operation m ops"
proof
  fix k
  show "foldl apply_operation (foldl apply_operation m ops) ops k = foldl apply_operation m ops k"
    using foldl_apply_at [of "foldl apply_operation m ops" k m ops] foldl_apply_untouched [of ops k m] by blast
qed

lemma foldl_apply_sets:
  assumes "wf_map xs"
  shows "foldl apply_operation m (map (\<lambda>(key, v). OpSet key v) xs) = m ++ map_of xs"
  using assms
proof (induction xs arbitrary: m)
  case (Cons x xs)
  obtain k v where x: "x = (k, v)" by (cases x)
  then have "map_of xs k = None" using Cons.prems by (auto simp: wf_map_def map_of_eq_None_iff)
  moreover have "foldl apply_operation (m(k \<mapsto> v)) (map (\<lambda>(key, v). OpSet key v) xs) = m(k \<mapsto> v) ++ map_of xs"
    using Cons by (simp add: wf_map_def)
  ultimately show ?case by (auto simp: x fun_eq_iff map_add_def split: option.splits)
qed simp

end
