(* ===== verification/KvStore.thy ===== *)
theory KvStore
  imports Persistence
begin

text \<open>
  The key-value store of \<^verbatim>\<open>src/src/kvstore.rs\<close>: a concurrent map in memory in front of the
  persistence manager. The lemmas show that the store is a map, that recovery gives back
  what synchronous operations wrote, also when a snapshot was published and its log not yet
  archived, and, over the interleaved steps of several clients, where memory and disk part.
\<close>

section \<open>The store\<close>

record kv_store =
  ks_data :: "(string, string) hmap"
  ks_manager :: "kv_manager option"

definition kv_new :: kv_store where
  "kv_new = \<lparr>ks_data = [], ks_manager = None\<rparr>"

definition kv_apply :: "(string, string) hmap \<Rightarrow> operation \<Rightarrow> (string, string) hmap" where
  "kv_apply data op = (case op of
     OpSet key v \<Rightarrow> AList.update key v data
   | OpDelete key \<Rightarrow> AList.delete key data
   | OpClear \<Rightarrow> [])"

definition kv_store_recover :: "kv_platform \<Rightarrow> kv_store \<Rightarrow> kv_store res" where
  "kv_store_recover kp s = (case ks_manager s of
     None \<Rightarrow> Inr s
   | Some m \<Rightarrow> rbind (kv_recover kp (km_disk m)) (\<lambda>ops. Inr (s\<lparr>ks_data := foldl kv_apply (ks_data s) ops\<rparr>)))"

definition with_persistence ::
  "kv_platform \<Rightarrow> open_io \<Rightarrow> string \<Rightarrow> string set \<Rightarrow> kv_disk \<Rightarrow> kv_config \<Rightarrow> (kv_store \<times> string set) res" where
  "with_persistence kp os err held d config =
     rbind (kv_manager_new kp os err held d config) (\<lambda>(m, held').
       rbind (kv_store_recover kp \<lparr>ks_data = [], ks_manager = Some m\<rparr>) (\<lambda>s. Inr (s, held')))"

definition kv_open ::
  "kv_platform \<Rightarrow> open_io \<Rightarrow> string \<Rightarrow> string set \<Rightarrow> kv_disk \<Rightarrow> string \<Rightarrow> (kv_store \<times> string set) res" where
  "kv_open kp os err held d data_dir = with_persistence kp os err held d (kv_config_new data_dir)"

text \<open>The part of an operation that holds the lock of the manager.\<close>

definition kv_log :: "kv_platform \<Rightarrow> io \<Rightarrow> kv_store \<Rightarrow> operation \<Rightarrow> unit res \<times> kv_store" where
  "kv_log kp os s op = (case ks_manager s of
     None \<Rightarrow> (Inr (), s)
   | Some m \<Rightarrow> (case log_operation_sync kp os m op of (r, m1) \<Rightarrow> (r, s\<lparr>ks_manager := Some m1\<rparr>)))"

definition kv_write :: "kv_platform \<Rightarrow> io \<Rightarrow> kv_store \<Rightarrow> operation \<Rightarrow> unit res \<times> kv_store" where
  "kv_write kp os s op = (case kv_log kp os s op of
     (Inl e, s1) \<Rightarrow> (Inl e, s1)
   | (Inr _, s1) \<Rightarrow> (Inr (), s1\<lparr>ks_data := kv_apply (ks_data s1) op\<rparr>))"

definition kv_set :: "kv_platform \<Rightarrow> io \<Rightarrow> kv_store \<Rightarrow> string \<Rightarrow> string \<Rightarrow> unit res \<times> kv_store" where
  "kv_set kp os s key v = kv_write kp os s (OpSet key v)"

definition kv_set_async :: "kv_store \<Rightarrow> string \<Rightarrow> string \<Rightarrow> unit res \<times> kv_store" where
  "kv_set_async s key v =
     (Inr (), s\<lparr>ks_manager := map_option (\<lambda>m. log_operation_async m (OpSet key v)) (ks_manager s),
                ks_data := AList.update key v (ks_data s)\<rparr>)"

definition kv_get :: "kv_store \<Rightarrow> string \<Rightarrow> string option res" where
  "kv_get s key = Inr (map_of (ks_data s) key)"

definition kv_get_many :: "kv_store \<Rightarrow> string list \<Rightarrow> (string \<times> string) list res" where
  "kv_get_many s keys = Inr (List.map_filter (\<lambda>key. map_option (\<lambda>v. (key, v)) (map_of (ks_data s) key)) keys)"

fun kv_set_all :: "kv_platform \<Rightarrow> (nat \<Rightarrow> io) \<Rightarrow> kv_store \<Rightarrow> (string \<times> string) list \<Rightarrow> unit res \<times> kv_store" where
  "kv_set_all kp os s [] = (Inr (), s)"
| "kv_set_all kp os s (p # ps) = (case kv_set kp (os 0) s (fst p) (snd p) of
     (Inl e, s1) \<Rightarrow> (Inl e, s1)
   | (Inr _, s1) \<Rightarrow> kv_set_all kp (\<lambda>i. os (Suc i)) s1 ps)"

definition kv_set_many ::
  "kv_platform \<Rightarrow> (nat \<Rightarrow> io) \<Rightarrow> kv_store \<Rightarrow> (string \<times> string) list \<Rightarrow> nat res \<times> kv_store" where
  "kv_set_many kp os s pairs = (case kv_set_all kp os s pairs of
     (Inl e, s1) \<Rightarrow> (Inl e, s1) | (Inr _, s1) \<Rightarrow> (Inr (length pairs), s1))"

definition kv_delete :: "kv_platform \<Rightarrow> io \<Rightarrow> kv_store \<Rightarrow> string \<Rightarrow> bool res \<times> kv_store" where
  "kv_delete kp os s key = (case kv_log kp os s (OpDelete key) of
     (Inl e, s1) \<Rightarrow> (Inl e, s1)
   | (Inr _, s1) \<Rightarrow>
       (Inr (map_of (ks_data s1) key \<noteq> None), s1\<lparr>ks_data := kv_apply (ks_data s1) (OpDelete key)\<rparr>))"

definition kv_len :: "kv_store \<Rightarrow> nat res" where
  "kv_len s = Inr (length (ks_data s))"

definition kv_is_empty :: "kv_store \<Rightarrow> bool res" where
  "kv_is_empty s = Inr (ks_data s = [])"

definition kv_clear :: "kv_platform \<Rightarrow> io \<Rightarrow> kv_store \<Rightarrow> unit res \<times> kv_store" where
  "kv_clear kp os s = kv_write kp os s OpClear"

definition kv_take_snapshot :: "kv_platform \<Rightarrow> (nat \<Rightarrow> io) \<Rightarrow> io \<Rightarrow> kv_store \<Rightarrow> unit res \<times> kv_store" where
  "kv_take_snapshot kp flush_os os s = (case ks_manager s of
     None \<Rightarrow> (Inr (), s)
   | Some m \<Rightarrow> (case create_snapshot kp flush_os os m (ks_data s) of
       (r, m1) \<Rightarrow> (r, s\<lparr>ks_manager := Some m1\<rparr>)))"

definition kv_store_wal_size :: "kv_store \<Rightarrow> nat res" where
  "kv_store_wal_size s = Inr (case ks_manager s of None \<Rightarrow> 0 | Some m \<Rightarrow> kv_wal_size m)"

definition kv_store_sequence :: "kv_store \<Rightarrow> nat res" where
  "kv_store_sequence s = Inr (case ks_manager s of None \<Rightarrow> 0 | Some m \<Rightarrow> kv_current_sequence m)"

definition kv_store_flush :: "kv_platform \<Rightarrow> (nat \<Rightarrow> io) \<Rightarrow> kv_store \<Rightarrow> unit res \<times> kv_store" where
  "kv_store_flush kp os s = (case ks_manager s of
     None \<Rightarrow> (Inr (), s)
   | Some m \<Rightarrow> (case kv_flush kp os m of (r, m1) \<Rightarrow> (r, s\<lparr>ks_manager := Some m1\<rparr>)))"

section \<open>The store is a map\<close>

lemma kv_apply_map: "map_of (kv_apply data op) = apply_operation (map_of data) op"
  by (cases op) (auto simp: kv_apply_def update_conv' delete_conv')

lemma foldl_kv_apply: "map_of (foldl kv_apply data ops) = foldl apply_operation (map_of data) ops"
  by (induction ops arbitrary: data) (simp_all add: kv_apply_map)

lemma kv_apply_wf: "wf_map data \<Longrightarrow> wf_map (kv_apply data op)"
  by (cases op) (simp_all add: kv_apply_def)

lemma foldl_kv_apply_wf: "wf_map data \<Longrightarrow> wf_map (foldl kv_apply data ops)"
  by (induction ops arbitrary: data) (simp_all add: kv_apply_wf)

lemma wf_map_dom: "wf_map m \<Longrightarrow> card (dom (map_of m)) = length m"
  using distinct_card [of "map fst m"] by (simp add: dom_map_of_conv_image_fst wf_map_def)

section \<open>What is on disk\<close>

text \<open>The map the files stand for, before what is still queued.\<close>

definition on_disk :: "kv_platform \<Rightarrow> kv_manager \<Rightarrow> (string \<rightharpoonup> string) \<Rightarrow> bool" where
  "on_disk kp m f \<longleftrightarrow> km_wal_open m \<and>
     (\<exists>rs ops. kd_wal (km_disk m) = Some (kv_log_bytes kp rs) \<and> (\<forall>r \<in> set rs. kv_readable kp r) \<and>
        recover_snapshot kp (km_disk m) = Inr ops \<and>
        foldl apply_operation Map.empty (ops @ map kr_operation rs) = f)"

lemma recover_snapshot_wal [simp]: "recover_snapshot kp (d\<lparr>kd_wal := w\<rparr>) = recover_snapshot kp d"
  by (cases "kd_snapshot d") (simp_all add: recover_snapshot_def)

text \<open>Opening the directory gives the map on disk, with or without a torn record at the end.\<close>

lemma on_disk_recover:
  assumes "on_disk kp m f" "torn = [] \<or> kv_torn kp torn"
  shows "\<exists>ops. kv_recover kp ((km_disk m)\<lparr>kd_wal := Some (kv_wal_bytes (km_disk m) @ torn)\<rparr>) = Inr ops \<and>
     foldl apply_operation Map.empty ops = f"
proof -
  obtain rs ops where d: "kd_wal (km_disk m) = Some (kv_log_bytes kp rs)" "\<forall>r \<in> set rs. kv_readable kp r"
    "recover_snapshot kp (km_disk m) = Inr ops" "foldl apply_operation Map.empty (ops @ map kr_operation rs) = f"
    using assms(1) by (auto simp: on_disk_def)
  from recover_wal_written [OF d(2) assms(2)] d show ?thesis
    by (simp add: kv_recover_def kv_wal_bytes_def)
qed

definition good_log :: "kv_platform \<Rightarrow> io \<Rightarrow> kv_manager \<Rightarrow> operation \<Rightarrow> bool" where
  "good_log kp os m op \<longleftrightarrow> io_log os = LogOk \<and> kv_readable kp (kv_record_new kp (io_now os) (km_next_sequence m) op)"

lemma log_sync_on_disk:
  assumes "on_disk kp m f" "good_log kp os m op" "log_operation_sync kp os m op = (r, m1)"
  shows "on_disk kp m1 (apply_operation f op) \<and> r = Inr () \<and> km_pending m1 = km_pending m"
proof -
  let ?r = "kv_record_new kp (io_now os) (km_next_sequence m) op"
  obtain rs ops where d: "km_wal_open m" "kd_wal (km_disk m) = Some (kv_log_bytes kp rs)" "\<forall>r \<in> set rs. kv_readable kp r"
    "recover_snapshot kp (km_disk m) = Inr ops" "foldl apply_operation Map.empty (ops @ map kr_operation rs) = f"
    using assms(1) by (auto simp: on_disk_def)
  have m1: "r = Inr ()" "m1 = append_wal (m\<lparr>km_next_sequence := next_sequence (km_next_sequence m)\<rparr>) (kp_record_json kp ?r @ [newline])"
    using assms(2,3) d(1) by (auto simp: log_operation_sync_def good_log_def Let_def)
  have wal: "kd_wal (km_disk m1) = Some (kv_log_bytes kp (rs @ [?r]))"
    using d(2) by (simp add: m1 append_wal_def kv_wal_bytes_def kv_log_bytes_snoc)
  have readable: "\<forall>r \<in> set (rs @ [?r]). kv_readable kp r" using d(3) assms(2) by (simp add: good_log_def)
  have "on_disk kp m1 (apply_operation f op)"
    unfolding on_disk_def
  proof (intro conjI exI)
    show "km_wal_open m1" using d(1) by (simp add: m1 append_wal_def)
    show "recover_snapshot kp (km_disk m1) = Inr ops" using d(4) by (simp add: m1 append_wal_def)
    show "foldl apply_operation Map.empty (ops @ map kr_operation (rs @ [?r])) = apply_operation f op"
      using d(5) by (simp add: kv_record_new_def)
  qed (fact wal readable)+
  with m1 show ?thesis by (simp add: append_wal_def)
qed

section \<open>Synchronous operations are durable\<close>

text \<open>Nothing is queued and the files stand for the map in memory.\<close>

definition store_ok :: "kv_platform \<Rightarrow> kv_store \<Rightarrow> bool" where
  "store_ok kp s \<longleftrightarrow> wf_map (ks_data s) \<and>
     (\<forall>m. ks_manager s = Some m \<longrightarrow> km_pending m = [] \<and> on_disk kp m (map_of (ks_data s)))"

definition good_write :: "kv_platform \<Rightarrow> io \<Rightarrow> kv_store \<Rightarrow> operation \<Rightarrow> bool" where
  "good_write kp os s op \<longleftrightarrow> (\<forall>m. ks_manager s = Some m \<longrightarrow> good_log kp os m op)"

lemma kv_log_ok:
  assumes "store_ok kp s" "good_write kp os s op" "kv_log kp os s op = (r, s1)"
  shows "r = Inr () \<and> ks_data s1 = ks_data s \<and> (ks_manager s1 = None \<longleftrightarrow> ks_manager s = None) \<and>
     (\<forall>m. ks_manager s1 = Some m \<longrightarrow> km_pending m = [] \<and> on_disk kp m (apply_operation (map_of (ks_data s)) op))"
proof (cases "ks_manager s")
  case (Some m)
  obtain lr m1 where log: "log_operation_sync kp os m op = (lr, m1)" by (cases "log_operation_sync kp os m op")
  from log_sync_on_disk [OF _ _ log] Some assms log show ?thesis
    by (auto simp: store_ok_def good_write_def kv_log_def)
qed (use assms in \<open>auto simp: kv_log_def\<close>)

lemma kv_write_ok:
  assumes "store_ok kp s" "good_write kp os s op" "kv_write kp os s op = (r, s1)"
  shows "r = Inr () \<and> store_ok kp s1 \<and> map_of (ks_data s1) = apply_operation (map_of (ks_data s)) op"
proof -
  obtain lr s' where log: "kv_log kp os s op = (lr, s')" by (cases "kv_log kp os s op")
  from kv_log_ok [OF assms(1,2) log] log assms(1,3) show ?thesis
    by (auto simp: kv_write_def store_ok_def kv_apply_map kv_apply_wf)
qed

lemma kv_delete_write:
  "kv_delete kp os s key = (case kv_write kp os s (OpDelete key) of
     (Inl e, s1) \<Rightarrow> (Inl e, s1) | (Inr _, s1) \<Rightarrow> (Inr (map_of (ks_data s) key \<noteq> None), s1))"
  by (auto simp: kv_delete_def kv_write_def kv_log_def split: option.splits prod.splits sum.splits)

section \<open>Snapshots\<close>

definition good_kv_snapshot :: "kv_platform \<Rightarrow> io \<Rightarrow> kv_store \<Rightarrow> bool" where
  "good_kv_snapshot kp os s \<longleftrightarrow> io_save os = SaveOk \<and>
     (\<forall>m. ks_manager s = Some m \<longrightarrow> kv_snapshot_readable kp \<lparr>kn_format_version = kv_format_version,
        kn_sequence = kv_current_sequence m, kn_timestamp_millis = io_now os, kn_entries = ks_data s\<rparr>)"

text \<open>
  A published snapshot, the log it covers still in place: this is where a crash may stop a
  snapshot. Recovery replays the whole log over it and ends in the same map.
\<close>

lemma publish_on_disk:
  assumes "on_disk kp m (map_of data)" "wf_map data" "io_save os = SaveOk" "kv_publish kp os m data = (r, m1)"
    and "kv_snapshot_readable kp \<lparr>kn_format_version = kv_format_version, kn_sequence = kv_current_sequence m,
        kn_timestamp_millis = io_now os, kn_entries = data\<rparr>"
  shows "on_disk kp m1 (map_of data) \<and> r = Inr () \<and> km_pending m1 = km_pending m \<and>
     recover_snapshot kp (km_disk m1) = Inr (map (\<lambda>(key, v). OpSet key v) data)"
proof -
  obtain rs ops where d: "km_wal_open m" "kd_wal (km_disk m) = Some (kv_log_bytes kp rs)" "\<forall>r \<in> set rs. kv_readable kp r"
    "foldl apply_operation Map.empty (ops @ map kr_operation rs) = map_of data"
    using assms(1) by (auto simp: on_disk_def)
  have m1: "r = Inr ()" "km_wal_open m1" "kd_wal (km_disk m1) = Some (kv_log_bytes kp rs)" "km_pending m1 = km_pending m"
    "kd_snapshot (km_disk m1) = Some (kp_snapshot_json kp \<lparr>kn_format_version = kv_format_version,
       kn_sequence = kv_current_sequence m, kn_timestamp_millis = io_now os, kn_entries = data\<rparr>)"
    using assms(3,4) d by (auto simp: kv_publish_def Let_def)
  have snap: "recover_snapshot kp (km_disk m1) = Inr (map (\<lambda>(key, v). OpSet key v) data)"
    using assms(5) m1(5) by (simp add: recover_snapshot_def read_to_string_def kv_snapshot_readable_def)
  have "foldl apply_operation Map.empty (map (\<lambda>(key, v). OpSet key v) data @ map kr_operation rs) = map_of data"
    using replay_idempotent [of "foldl apply_operation Map.empty ops" "map kr_operation rs"] d(4)
    by (simp add: foldl_apply_sets [OF assms(2)])
  with m1 d(3) snap show ?thesis unfolding on_disk_def by blast
qed

lemma rotate_on_disk:
  assumes "km_wal_open m" "io_save os = SaveOk" "kv_rotate os m = (r, m1)" "wf_map data"
    and "recover_snapshot kp (km_disk m) = Inr (map (\<lambda>(key, v). OpSet key v) data)"
  shows "on_disk kp m1 (map_of data) \<and> r = Inr () \<and> km_pending m1 = km_pending m"
proof -
  have m1: "r = Inr ()" "km_wal_open m1" "kd_wal (km_disk m1) = Some (kv_log_bytes kp [])" "km_pending m1 = km_pending m"
    "kd_snapshot (km_disk m1) = kd_snapshot (km_disk m)"
    using assms(2,3) by (auto simp: kv_rotate_def Let_def kv_wal_bytes_def kv_log_bytes_def split: option.splits if_splits)
  then have "recover_snapshot kp (km_disk m1) = Inr (map (\<lambda>(key, v). OpSet key v) data)"
    using assms(5) by (simp add: recover_snapshot_def)
  moreover have "foldl apply_operation Map.empty (map (\<lambda>(key, v). OpSet key v) data @ map kr_operation []) = map_of data"
    by (simp add: foldl_apply_sets [OF assms(4)])
  ultimately show ?thesis unfolding on_disk_def using m1 by (metis empty_iff list.set(1))
qed

lemma snapshot_ok:
  assumes "store_ok kp s" "good_kv_snapshot kp os s" "kv_take_snapshot kp flush_os os s = (r, s1)"
  shows "r = Inr () \<and> store_ok kp s1 \<and> ks_data s1 = ks_data s"
proof (cases "ks_manager s")
  case (Some m)
  have m: "km_pending m = []" "on_disk kp m (map_of (ks_data s))" "wf_map (ks_data s)"
    using assms(1) Some by (auto simp: store_ok_def)
  have flush: "kv_flush kp flush_os m = (Inr (), m)" using m(1) by (cases m) (simp add: kv_flush_def)
  obtain pr m1 where publish: "kv_publish kp os m (ks_data s) = (pr, m1)" by (cases "kv_publish kp os m (ks_data s)")
  note pub = publish_on_disk [OF m(2,3) _ publish]
  obtain rr m2 where rotate: "kv_rotate os m1 = (rr, m2)" by (cases "kv_rotate os m1")
  have good: "io_save os = SaveOk" using assms(2) by (simp add: good_kv_snapshot_def)
  from pub good assms(2) Some have "on_disk kp m1 (map_of (ks_data s))" "pr = Inr ()" "km_pending m1 = []"
    "recover_snapshot kp (km_disk m1) = Inr (map (\<lambda>(key, v). OpSet key v) (ks_data s))"
    using m(1) by (auto simp: good_kv_snapshot_def)
  moreover from rotate_on_disk [OF _ good rotate m(3) this(4)] this(1,3)
  have "on_disk kp m2 (map_of (ks_data s))" "rr = Inr ()" "km_pending m2 = []" by (auto simp: on_disk_def)
  ultimately show ?thesis
    using assms(3) Some flush publish rotate m(3) by (auto simp: kv_take_snapshot_def create_snapshot_def store_ok_def)
qed (use assms in \<open>auto simp: kv_take_snapshot_def\<close>)

section \<open>Opening\<close>

lemma reopen_store:
  assumes "store_ok kp s" "ks_manager s = Some m" "torn = [] \<or> kv_torn kp torn"
    and "lock_path (kc_data_dir config) ''kv'' \<notin> held"
  shows "\<exists>s' held'. with_persistence kp OpenOk err held
      ((km_disk m)\<lparr>kd_wal := Some (kv_wal_bytes (km_disk m) @ torn)\<rparr>) config = Inr (s', held') \<and>
     map_of (ks_data s') = map_of (ks_data s)"
proof -
  have "on_disk kp m (map_of (ks_data s))" using assms(1,2) by (simp add: store_ok_def)
  from on_disk_recover [OF this assms(3)] obtain ops where
    "kv_recover kp ((km_disk m)\<lparr>kd_wal := Some (kv_wal_bytes (km_disk m) @ torn)\<rparr>) = Inr ops"
    "foldl apply_operation Map.empty ops = map_of (ks_data s)" by blast
  with assms(4) show ?thesis
    by (simp add: with_persistence_def kv_manager_new_def lock_acquire_def lock_result_def kv_store_recover_def foldl_kv_apply
        kv_wal_bytes_def)
qed

section \<open>Whole runs\<close>

text \<open>Any sequence of synchronous operations and snapshots whose file operations succeed.\<close>

inductive kv_runs :: "kv_platform \<Rightarrow> kv_store \<Rightarrow> operation list \<Rightarrow> kv_store \<Rightarrow> bool" for kp s where
  nothing: "kv_runs kp s [] s"
| operation: "kv_runs kp s ops s1 \<Longrightarrow> good_write kp os s1 op \<Longrightarrow> kv_write kp os s1 op = (r, s2) \<Longrightarrow> kv_runs kp s (ops @ [op]) s2"
| compaction: "kv_runs kp s ops s1 \<Longrightarrow> good_kv_snapshot kp os s1 \<Longrightarrow> kv_take_snapshot kp flush_os os s1 = (r, s2) \<Longrightarrow>
     kv_runs kp s ops s2"

lemma kv_runs_ok:
  "kv_runs kp s ops s' \<Longrightarrow> store_ok kp s \<Longrightarrow>
   store_ok kp s' \<and> map_of (ks_data s') = foldl apply_operation (map_of (ks_data s)) ops"
proof (induction rule: kv_runs.induct)
  case (operation ops s1 os op r s2)
  with kv_write_ok [OF _ operation.hyps(2,3)] show ?case by simp
next
  case (compaction ops s1 os flush_os r s2)
  with snapshot_ok [OF _ compaction.hyps(2,3)] show ?case by simp
qed simp

section \<open>Queued operations\<close>

text \<open>Memory is ahead of the files by what is queued; flushing the queue catches up.\<close>

definition queued_ok :: "kv_platform \<Rightarrow> kv_store \<Rightarrow> bool" where
  "queued_ok kp s \<longleftrightarrow> wf_map (ks_data s) \<and>
     (\<forall>m. ks_manager s = Some m \<longrightarrow> (\<exists>f. on_disk kp m f \<and> map_of (ks_data s) = foldl apply_operation f (km_pending m)))"

lemma store_queued: "store_ok kp s \<Longrightarrow> queued_ok kp s"
  by (auto simp: store_ok_def queued_ok_def)

lemma on_disk_pending [simp]: "on_disk kp (m\<lparr>km_pending := ops\<rparr>) f = on_disk kp m f"
  by (simp add: on_disk_def)

lemma set_async_queued: "queued_ok kp s \<Longrightarrow> kv_set_async s key v = (r, s1) \<Longrightarrow> queued_ok kp s1"
  by (fastforce simp: queued_ok_def kv_set_async_def log_operation_async_def update_conv')

fun good_logs :: "kv_platform \<Rightarrow> (nat \<Rightarrow> io) \<Rightarrow> kv_manager \<Rightarrow> operation list \<Rightarrow> bool" where
  "good_logs kp os m [] \<longleftrightarrow> True"
| "good_logs kp os m (op # ops) \<longleftrightarrow>
     good_log kp (os 0) m op \<and> good_logs kp (\<lambda>i. os (Suc i)) (snd (log_operation_sync kp (os 0) m op)) ops"

lemma log_operations_on_disk:
  assumes "on_disk kp m f" "good_logs kp os m ops" "log_operations kp os m ops = (r, m1)"
  shows "r = Inr () \<and> on_disk kp m1 (foldl apply_operation f ops) \<and> km_pending m1 = km_pending m"
  using assms
proof (induction ops arbitrary: os m f)
  case (Cons op ops)
  obtain x m2 where log: "log_operation_sync kp (os 0) m op = (x, m2)" by (cases "log_operation_sync kp (os 0) m op")
  from log_sync_on_disk [OF Cons.prems(1) _ log] Cons.prems(2) have "x = Inr ()" "on_disk kp m2 (apply_operation f op)" "km_pending m2 = km_pending m"
    by auto
  with Cons.IH [of m2 "apply_operation f op" "\<lambda>i. os (Suc i)"] Cons.prems(2,3) log show ?case by simp
qed simp

definition good_flush :: "kv_platform \<Rightarrow> (nat \<Rightarrow> io) \<Rightarrow> kv_store \<Rightarrow> bool" where
  "good_flush kp os s \<longleftrightarrow> (\<forall>m. ks_manager s = Some m \<longrightarrow> good_logs kp os (m\<lparr>km_pending := []\<rparr>) (km_pending m))"

lemma flush_catches_up:
  assumes "queued_ok kp s" "good_flush kp os s" "kv_store_flush kp os s = (r, s1)"
  shows "r = Inr () \<and> store_ok kp s1 \<and> ks_data s1 = ks_data s"
proof (cases "ks_manager s")
  case (Some m)
  obtain f where f: "on_disk kp m f" "map_of (ks_data s) = foldl apply_operation f (km_pending m)"
    using assms(1) Some by (auto simp: queued_ok_def)
  obtain x m1 where log: "log_operations kp os (m\<lparr>km_pending := []\<rparr>) (km_pending m) = (x, m1)"
    by (cases "log_operations kp os (m\<lparr>km_pending := []\<rparr>) (km_pending m)")
  from log_operations_on_disk [OF _ _ log, of f] f assms(2) Some
  have "x = Inr ()" "on_disk kp m1 (map_of (ks_data s))" "km_pending m1 = []" by (auto simp: good_flush_def)
  with assms Some log show ?thesis by (auto simp: kv_store_flush_def kv_flush_def store_ok_def queued_ok_def)
qed (use assms in \<open>auto simp: kv_store_flush_def store_ok_def queued_ok_def\<close>)

fun set_all_async :: "kv_store \<Rightarrow> (string \<times> string) list \<Rightarrow> kv_store" where
  "set_all_async s [] = s"
| "set_all_async s (p # ps) = set_all_async (snd (kv_set_async s (fst p) (snd p))) ps"

lemma set_all_async_queued: "queued_ok kp s \<Longrightarrow> queued_ok kp (set_all_async s ps)"
proof (induction ps arbitrary: s)
  case (Cons p ps)
  then show ?case using set_async_queued [of kp s "fst p" "snd p"] by (cases "kv_set_async s (fst p) (snd p)") simp
qed simp

lemma set_all_async_data: "map_of (ks_data (set_all_async s ps)) = foldl apply_operation (map_of (ks_data s)) (map (\<lambda>p. OpSet (fst p) (snd p)) ps)"
  by (induction ps arbitrary: s) (simp_all add: kv_set_async_def update_conv')

section \<open>Where memory and disk part\<close>

text \<open>
  A queued operation is logged when it is flushed, after synchronous operations that came
  later: recovery then brings back the older value.
\<close>

lemma async_then_sync:
  assumes "store_ok kp s" "ks_manager s = Some m"
    and async: "kv_set_async s key old = (r1, s1)"
    and "good_write kp os s1 (OpSet key new)" and sync: "kv_set kp os s1 key new = (r2, s2)"
    and "\<And>m2. ks_manager s2 = Some m2 \<Longrightarrow> good_log kp (os' 0) m2 (OpSet key old)"
    and flush: "kv_store_flush kp os' s2 = (r3, s3)"
  shows "\<exists>m3 f. map_of (ks_data s3) key = Some new \<and> ks_manager s3 = Some m3 \<and> on_disk kp m3 f \<and> f key = Some old"
proof -
  let ?m1 = "m\<lparr>km_pending := [OpSet key old]\<rparr>"
  have m: "km_pending m = []" "on_disk kp m (map_of (ks_data s))" using assms(1,2) by (auto simp: store_ok_def)
  have s1: "ks_manager s1 = Some ?m1" "ks_data s1 = AList.update key old (ks_data s)"
    using async assms(2) m(1) by (auto simp: kv_set_async_def log_operation_async_def)
  obtain lr m2 where log: "log_operation_sync kp os ?m1 (OpSet key new) = (lr, m2)"
    by (cases "log_operation_sync kp os ?m1 (OpSet key new)")
  have "on_disk kp ?m1 (map_of (ks_data s))" using m(2) by (simp add: on_disk_def)
  from log_sync_on_disk [OF this _ log] assms(4) s1 have m2: "lr = Inr ()" "km_pending m2 = [OpSet key old]"
    "on_disk kp m2 ((map_of (ks_data s))(key \<mapsto> new))" by (auto simp: good_write_def)
  have s2: "ks_manager s2 = Some m2" "ks_data s2 = AList.update key new (AList.update key old (ks_data s))"
    using sync s1 log m2(1) by (auto simp: kv_set_def kv_write_def kv_log_def kv_apply_def)
  let ?m2 = "m2\<lparr>km_pending := []\<rparr>"
  obtain fr m3 where log2: "log_operation_sync kp (os' 0) ?m2 (OpSet key old) = (fr, m3)"
    by (cases "log_operation_sync kp (os' 0) ?m2 (OpSet key old)")
  have good: "good_log kp (os' 0) ?m2 (OpSet key old)" using assms(6) [OF s2(1)] by (simp add: good_log_def)
  have "on_disk kp ?m2 ((map_of (ks_data s))(key \<mapsto> new))" using m2(3) by (simp add: on_disk_def)
  from log_sync_on_disk [OF this good log2] have m3: "fr = Inr ()" "on_disk kp m3 ((map_of (ks_data s))(key \<mapsto> old))"
    by auto
  have "ks_manager s3 = Some m3" "ks_data s3 = ks_data s2"
    using flush s2(1) m2(2) log2 m3(1) by (auto simp: kv_store_flush_def kv_flush_def)
  with m3(2) s2(2) show ?thesis by (auto simp: update_conv')
qed

text \<open>
  An operation logs under the lock and changes the map after releasing it. A snapshot taken
  between the two archives the log without the value: it is acknowledged and lost.
\<close>

lemma snapshot_between_log_and_insert:
  assumes "store_ok kp s" "ks_manager s = Some m" "map_of (ks_data s) key = None"
    and "good_write kp os s (OpSet key v)" and log: "kv_log kp os s (OpSet key v) = (r1, s1)"
    and "good_kv_snapshot kp os' s1" and snap: "kv_take_snapshot kp flush_os os' s1 = (r2, s2)"
  shows "\<exists>m2 f. r1 = Inr () \<and> r2 = Inr () \<and> map_of (kv_apply (ks_data s2) (OpSet key v)) key = Some v \<and>
     ks_manager s2 = Some m2 \<and> on_disk kp m2 f \<and> f key = None"
proof -
  from kv_log_ok [OF assms(1,4) log] assms(2) obtain m1 where m1: "r1 = Inr ()" "ks_data s1 = ks_data s" "ks_manager s1 = Some m1"
    "km_pending m1 = []" "on_disk kp m1 (apply_operation (map_of (ks_data s)) (OpSet key v))" by auto
  have wf: "wf_map (ks_data s)" using assms(1) by (simp add: store_ok_def)
  have good: "io_save os' = SaveOk" using assms(6) by (simp add: good_kv_snapshot_def)
  have flush: "kv_flush kp flush_os m1 = (Inr (), m1)" using m1(4) by (cases m1) (simp add: kv_flush_def)
  obtain pr m2 where publish: "kv_publish kp os' m1 (ks_data s) = (pr, m2)" by (cases "kv_publish kp os' m1 (ks_data s)")
  have m2: "pr = Inr ()" "km_wal_open m2" "recover_snapshot kp (km_disk m2) = Inr (map (\<lambda>(key, v). OpSet key v) (ks_data s))"
    using publish good assms(6) m1
    by (auto simp: kv_publish_def Let_def recover_snapshot_def read_to_string_def kv_snapshot_readable_def good_kv_snapshot_def on_disk_def)
  obtain rr m3 where rotate: "kv_rotate os' m2 = (rr, m3)" by (cases "kv_rotate os' m2")
  from rotate_on_disk [OF m2(2) good rotate wf m2(3)] have m3: "on_disk kp m3 (map_of (ks_data s))" "rr = Inr ()" by auto
  have "r2 = Inr ()" "s2 = s1\<lparr>ks_manager := Some m3\<rparr>"
    using snap m1 flush publish m2(1) rotate m3(2) by (auto simp: kv_take_snapshot_def create_snapshot_def)
  with m1 m3 assms(3) show ?thesis by (auto simp: kv_apply_def update_conv')
qed

end
