(* ===== verification/Protocol.thy ===== *)
theory Protocol
  imports Database
begin

unbundle bit_operations_syntax

text \<open>
  The MySQL packets of \<^verbatim>\<open>src/src/wire/protocol.rs\<close>: length-encoded integers and strings, the
  greeting, the client's handshake response, password verification, and the packets of
  results. A byte is a character, SHA-1 an argument. The lemmas show that what is encoded is
  read back, whatever follows it, that reading a handshake response never leaves the packet,
  and what a client has to send to be let in.
\<close>

section \<open>Constants\<close>

definition CLIENT_LONG_PASSWORD :: "32 word" where "CLIENT_LONG_PASSWORD = 0x00000001"
definition CLIENT_FOUND_ROWS :: "32 word" where "CLIENT_FOUND_ROWS = 0x00000002"
definition CLIENT_LONG_FLAG :: "32 word" where "CLIENT_LONG_FLAG = 0x00000004"
definition CLIENT_CONNECT_WITH_DB :: "32 word" where "CLIENT_CONNECT_WITH_DB = 0x00000008"
definition CLIENT_PROTOCOL_41 :: "32 word" where "CLIENT_PROTOCOL_41 = 0x00000200"
definition CLIENT_TRANSACTIONS :: "32 word" where "CLIENT_TRANSACTIONS = 0x00002000"
definition CLIENT_SECURE_CONNECTION :: "32 word" where "CLIENT_SECURE_CONNECTION = 0x00008000"
definition CLIENT_MULTI_RESULTS :: "32 word" where "CLIENT_MULTI_RESULTS = 0x00020000"
definition CLIENT_PLUGIN_AUTH :: "32 word" where "CLIENT_PLUGIN_AUTH = 0x00080000"
definition CLIENT_PLUGIN_AUTH_LENENC_CLIENT_DATA :: "32 word" where
  "CLIENT_PLUGIN_AUTH_LENENC_CLIENT_DATA = 0x00200000"

definition SERVER_STATUS_AUTOCOMMIT :: "16 word" where "SERVER_STATUS_AUTOCOMMIT = 0x0002"
definition SERVER_STATUS_IN_TRANS :: "16 word" where "SERVER_STATUS_IN_TRANS = 0x0001"

definition MYSQL_TYPE_TINY :: nat where "MYSQL_TYPE_TINY = 0x01"
definition MYSQL_TYPE_SHORT :: nat where "MYSQL_TYPE_SHORT = 0x02"
definition MYSQL_TYPE_LONG :: nat where "MYSQL_TYPE_LONG = 0x03"
definition MYSQL_TYPE_FLOAT :: nat where "MYSQL_TYPE_FLOAT = 0x04"
definition MYSQL_TYPE_DOUBLE :: nat where "MYSQL_TYPE_DOUBLE = 0x05"
definition MYSQL_TYPE_LONGLONG :: nat where "MYSQL_TYPE_LONGLONG = 0x08"
definition MYSQL_TYPE_VAR_STRING :: nat where "MYSQL_TYPE_VAR_STRING = 0xFD"
definition MYSQL_TYPE_NULL :: nat where "MYSQL_TYPE_NULL = 0x06"

lemmas mysql_types = MYSQL_TYPE_TINY_def MYSQL_TYPE_SHORT_def MYSQL_TYPE_LONG_def MYSQL_TYPE_FLOAT_def
  MYSQL_TYPE_DOUBLE_def MYSQL_TYPE_LONGLONG_def MYSQL_TYPE_VAR_STRING_def MYSQL_TYPE_NULL_def

definition NOT_NULL_FLAG :: "16 word" where "NOT_NULL_FLAG = 0x0001"
definition PRI_KEY_FLAG :: "16 word" where "PRI_KEY_FLAG = 0x0002"
definition NUM_FLAG :: "16 word" where "NUM_FLAG = 0x8000"

definition SERVER_VERSION :: string where "SERVER_VERSION = ''5.7.99-RustyDB-0.3.0-beta''"

definition SERVER_CAPABILITIES :: "32 word" where
  "SERVER_CAPABILITIES = CLIENT_LONG_PASSWORD OR CLIENT_FOUND_ROWS OR CLIENT_LONG_FLAG OR CLIENT_CONNECT_WITH_DB OR
     CLIENT_PROTOCOL_41 OR CLIENT_TRANSACTIONS OR CLIENT_SECURE_CONNECTION OR CLIENT_MULTI_RESULTS OR CLIENT_PLUGIN_AUTH"

definition CHARSET_UTF8MB4 :: nat where "CHARSET_UTF8MB4 = 45"

section \<open>Bytes\<close>

definition byte :: "nat \<Rightarrow> char" where
  "byte n = char_of n"

text \<open>\<open>from_le_bytes\<close>.\<close>

primrec from_le :: "string \<Rightarrow> nat" where
  "from_le [] = 0"
| "from_le (c # cs) = of_char c + 256 * from_le cs"

definition word_bytes :: "'a::len word \<Rightarrow> string" where
  "word_bytes w = le_bytes (LENGTH('a) div 8) (unat w)"

lemma from_le_bytes: "from_le (le_bytes k n) = n mod 256 ^ k"
proof (induction k arbitrary: n)
  case (Suc k)
  have "[0..<Suc k] = 0 # map Suc [0..<k]" by (simp add: map_Suc_upt upt_conv_Cons del: upt_Suc)
  then have "le_bytes (Suc k) n = char_of n # le_bytes k (n div 256)"
    by (simp add: le_bytes_def comp_def div_mult2_eq del: upt_Suc)
  then show ?case using Suc [of "n div 256"] by (simp add: mod_mult2_eq)
qed (simp add: le_bytes_def)

lemma length_le_bytes [simp]: "length (le_bytes k n) = k"
  by (simp add: le_bytes_def)

section \<open>Length-encoded integers and strings\<close>

definition encode_lenenc_int :: "nat \<Rightarrow> string" where
  "encode_lenenc_int n =
     (if n < 251 then [byte n]
      else if n < 65536 then byte 0xFC # le_bytes 2 n
      else if n < 16777216 then byte 0xFD # take 3 (le_bytes 4 n)
      else byte 0xFE # le_bytes 8 n)"

definition encode_lenenc_str :: "string \<Rightarrow> string" where
  "encode_lenenc_str s = encode_lenenc_int (length s) @ s"

text \<open>Readers take the packet and a position and return the position behind what they read.\<close>

definition read_lenenc_int :: "string \<Rightarrow> nat \<Rightarrow> nat option \<times> nat" where
  "read_lenenc_int data pos =
     (if length data \<le> pos then (None, pos)
      else let first = of_char (data ! pos) :: nat;
               at = pos + 1;
               fixed = (\<lambda>k. if length data - at < k then (None, at)
                            else (Some (from_le (take k (drop at data))), at + k))
           in if first = 0xFC then fixed 2
              else if first = 0xFD then fixed 3
              else if first = 0xFE then fixed 8
              else (Some first, at))"

text \<open>\<open>String::from_utf8_lossy\<close> replaces each maximal invalid part by U+FFFD.\<close>

abbreviation replacement :: "nat list" where
  "replacement \<equiv> [0xEF, 0xBF, 0xBD]"

definition second_ok :: "nat \<Rightarrow> nat \<Rightarrow> bool" where
  "second_ok a b \<longleftrightarrow>
     (if a = 224 then 160 \<le> b \<and> b \<le> 191 else if a = 237 then 128 \<le> b \<and> b \<le> 159
      else if a = 240 then 144 \<le> b \<and> b \<le> 191 else if a = 244 then 128 \<le> b \<and> b \<le> 143 else continuation b)"

fun lossy_bytes :: "nat list \<Rightarrow> nat list" where
  "lossy_bytes [] = []"
| "lossy_bytes (a # bs) =
     (if a < 128 then a # lossy_bytes bs
      else if a < 194 \<or> 244 < a then replacement @ lossy_bytes bs
      else case bs of [] \<Rightarrow> replacement
      | b # cs \<Rightarrow>
          if \<not> second_ok a b then replacement @ lossy_bytes bs
          else if a < 224 then a # b # lossy_bytes cs
          else case cs of [] \<Rightarrow> replacement
          | c # ds \<Rightarrow>
              if \<not> continuation c then replacement @ lossy_bytes cs
              else if a < 240 then a # b # c # lossy_bytes ds
              else case ds of [] \<Rightarrow> replacement
              | d # es \<Rightarrow>
                  if \<not> continuation d then replacement @ lossy_bytes ds
                  else a # b # c # d # lossy_bytes es)"

definition from_utf8_lossy :: "string \<Rightarrow> string" where
  "from_utf8_lossy s = map char_of (lossy_bytes (map of_char s))"

definition read_null_terminated :: "string \<Rightarrow> nat \<Rightarrow> string res \<times> nat" where
  "read_null_terminated data pos =
     (if length data < pos then (Inl (Panic ''range start index out of range''), pos)
      else let s = takeWhile (\<lambda>c. c \<noteq> byte 0) (drop pos data);
               at = pos + length s
           in (Inr (from_utf8_lossy s), if at < length data then at + 1 else at))"

section \<open>Passwords\<close>

definition generate_scramble :: "(string \<Rightarrow> string) \<Rightarrow> nat \<Rightarrow> nat \<Rightarrow> nat \<Rightarrow> string" where
  "generate_scramble sha1 conn_id nanos process_id =
     map (\<lambda>b. if b = byte 0 then byte 1 else b)
       (sha1 (le_bytes 4 conn_id @ le_bytes 16 nanos @ le_bytes 4 process_id))"

definition xor_bytes :: "string \<Rightarrow> string \<Rightarrow> string" where
  "xor_bytes a b = map (\<lambda>(x, y). byte (of_char x XOR of_char y)) (zip a b)"

definition verify_mysql_native_password :: "(string \<Rightarrow> string) \<Rightarrow> string \<Rightarrow> string \<Rightarrow> string \<Rightarrow> bool" where
  "verify_mysql_native_password sha1 password scramble client_auth =
     (if password = [] \<and> client_auth = [] then True
      else if length client_auth \<noteq> 20 then False
      else let stage1 = sha1 password; stage2 = sha1 stage1;
               scramble_hash = sha1 (scramble @ stage2)
           in xor_bytes stage1 scramble_hash = client_auth)"

section \<open>Packets the server builds\<close>

definition build_handshake_v10 :: "nat \<Rightarrow> string \<Rightarrow> string" where
  "build_handshake_v10 conn_id scramble =
     [byte 10] @ SERVER_VERSION @ [byte 0] @ le_bytes 4 conn_id @ take 8 scramble @ [byte 0] @
     le_bytes 2 (unat (SERVER_CAPABILITIES AND 0xFFFF)) @ [byte CHARSET_UTF8MB4] @
     word_bytes SERVER_STATUS_AUTOCOMMIT @ le_bytes 2 (unat (drop_bit 16 SERVER_CAPABILITIES AND 0xFFFF)) @
     [byte 21] @ replicate 10 (byte 0) @ take 12 (drop 8 scramble) @ [byte 0] @
     ''mysql_native_password'' @ [byte 0]"

definition build_ok_packet_with_status :: "nat \<Rightarrow> nat \<Rightarrow> 16 word \<Rightarrow> string" where
  "build_ok_packet_with_status affected_rows last_insert_id status =
     [byte 0] @ encode_lenenc_int affected_rows @ encode_lenenc_int last_insert_id @ word_bytes status @ le_bytes 2 0"

definition build_ok_packet :: "nat \<Rightarrow> nat \<Rightarrow> string" where
  "build_ok_packet affected_rows last_insert_id =
     build_ok_packet_with_status affected_rows last_insert_id SERVER_STATUS_AUTOCOMMIT"

definition build_err_packet :: "nat \<Rightarrow> string \<Rightarrow> string \<Rightarrow> string" where
  "build_err_packet code state msg =
     [byte 0xFF] @ le_bytes 2 code @ ''#'' @
     map (\<lambda>i. if i < length state then state ! i else CHR ''0'') [0..<5] @ msg"

definition build_eof_packet_with_status :: "16 word \<Rightarrow> string" where
  "build_eof_packet_with_status status = [byte 0xFE] @ le_bytes 2 0 @ word_bytes status"

definition build_eof_packet :: string where
  "build_eof_packet = build_eof_packet_with_status SERVER_STATUS_AUTOCOMMIT"

definition build_column_count :: "nat \<Rightarrow> string" where
  "build_column_count count = encode_lenenc_int count"

definition column_length :: "nat \<Rightarrow> nat" where
  "column_length col_type =
     (if col_type = MYSQL_TYPE_LONGLONG then 20 else if col_type = MYSQL_TYPE_DOUBLE then 22
      else if col_type = MYSQL_TYPE_TINY then 4 else if col_type = MYSQL_TYPE_VAR_STRING then 65535 else 255)"

definition build_column_def :: "string \<Rightarrow> string \<Rightarrow> nat \<Rightarrow> 16 word \<Rightarrow> string" where
  "build_column_def name table col_type col_flags =
     encode_lenenc_str ''def'' @ encode_lenenc_str ''rustydb'' @ encode_lenenc_str table @ encode_lenenc_str table @
     encode_lenenc_str name @ encode_lenenc_str name @ [byte 0x0C] @
     le_bytes 2 (if col_type = MYSQL_TYPE_VAR_STRING then 45 else 63) @ le_bytes 4 (column_length col_type) @
     [byte col_type] @ word_bytes col_flags @ [byte (if col_type = MYSQL_TYPE_DOUBLE then 31 else 0)] @
     replicate 2 (byte 0)"

definition text_cell :: "val \<Rightarrow> string" where
  "text_cell v = (case v of
     VNull \<Rightarrow> [byte 0xFB]
   | VBoolean b \<Rightarrow> encode_lenenc_str (if b then ''1'' else ''0'')
   | _ \<Rightarrow> encode_lenenc_str (value_to_string v))"

definition build_text_row :: "val list \<Rightarrow> string" where
  "build_text_row values = concat (map text_cell values)"

definition build_stmt_prepare_ok :: "nat \<Rightarrow> nat \<Rightarrow> nat \<Rightarrow> string" where
  "build_stmt_prepare_ok statement_id columns params =
     [byte 0] @ le_bytes 4 statement_id @ le_bytes 2 columns @ le_bytes 2 params @ [byte 0] @ le_bytes 2 0"

text \<open>The null bitmap of a binary row: bit \<open>i + 2\<close> for column \<open>i\<close>.\<close>

definition set_null_bit :: "string \<Rightarrow> nat \<Rightarrow> string" where
  "set_null_bit bitmap b = bitmap[b div 8 := byte (of_char (bitmap ! (b div 8)) OR 2 ^ (b mod 8))]"

definition null_bitmap :: "val list \<Rightarrow> string" where
  "null_bitmap values =
     foldl (\<lambda>bitmap (index, v). if is_null v then set_null_bit bitmap (index + 2) else bitmap)
       (replicate ((length values + 9) div 8) (byte 0)) (enumerate 0 values)"

definition binary_cell :: "val \<Rightarrow> string" where
  "binary_cell v = (case v of
     VNull \<Rightarrow> []
   | VInteger i \<Rightarrow> word_bytes i
   | VFloat f \<Rightarrow> word_bytes f
   | VBoolean b \<Rightarrow> [byte (if b then 1 else 0)]
   | VText s \<Rightarrow> encode_lenenc_str s)"

definition build_binary_row :: "val list \<Rightarrow> string" where
  "build_binary_row values = [byte 0] @ null_bitmap values @ concat (map binary_cell values)"

fun datatype_to_mysql :: "data_type \<Rightarrow> nat" where
  "datatype_to_mysql DInteger = MYSQL_TYPE_LONGLONG"
| "datatype_to_mysql DFloat = MYSQL_TYPE_DOUBLE"
| "datatype_to_mysql DText = MYSQL_TYPE_VAR_STRING"
| "datatype_to_mysql DBoolean = MYSQL_TYPE_TINY"
| "datatype_to_mysql DNull = MYSQL_TYPE_NULL"

definition column_flags :: "data_type \<Rightarrow> bool \<Rightarrow> bool \<Rightarrow> 16 word" where
  "column_flags dt nullable primary_key =
     (if nullable then 0 else NOT_NULL_FLAG) OR (if primary_key then PRI_KEY_FLAG OR NOT_NULL_FLAG else 0) OR
     (if dt = DInteger \<or> dt = DFloat \<or> dt = DBoolean then NUM_FLAG else 0)"

section \<open>The client's handshake response\<close>

record client_handshake =
  ch_capabilities :: "32 word"
  ch_username :: string
  ch_auth_response :: string
  ch_database :: "string option"
  ch_auth_plugin :: "string option"

definition slice :: "string \<Rightarrow> nat \<Rightarrow> nat \<Rightarrow> string res" where
  "slice data a b = (if a \<le> b \<and> b \<le> length data then Inr (take (b - a) (drop a data))
     else Inl (Panic ''range index out of range''))"

definition has_flag :: "32 word \<Rightarrow> 32 word \<Rightarrow> bool" where
  "has_flag capabilities flag \<longleftrightarrow> capabilities AND flag \<noteq> 0"

definition read_auth :: "string \<Rightarrow> 32 word \<Rightarrow> nat \<Rightarrow> (string \<times> nat) res" where
  "read_auth data capabilities pos =
     (if has_flag capabilities CLIENT_PLUGIN_AUTH_LENENC_CLIENT_DATA
      then (case read_lenenc_int data pos of
              (None, _) \<Rightarrow> Inl (Fail ''Invalid length-encoded auth response'')
            | (Some len, at) \<Rightarrow>
                if length data - at < len then Inl (Fail ''Auth response length exceeds packet size'')
                else rbind (slice data at (at + len)) (\<lambda>auth. Inr (auth, at + len)))
      else if has_flag capabilities CLIENT_SECURE_CONNECTION
      then (if length data \<le> pos then Inr ([], pos)
            else let len = of_char (data ! pos); at = pos + 1; to = min (at + len) (length data)
                 in rbind (slice data at to) (\<lambda>auth. Inr (auth, to)))
      else let len = length (takeWhile (\<lambda>c. c \<noteq> byte 0) (drop pos data)); at = pos + len
           in rbind (slice data pos at) (\<lambda>auth. Inr (auth, if at < length data then at + 1 else at)))"

definition read_optional :: "bool \<Rightarrow> string \<Rightarrow> nat \<Rightarrow> (string option \<times> nat) res" where
  "read_optional wanted data pos =
     (if wanted \<and> pos < length data
      then (case read_null_terminated data pos of
              (r, at) \<Rightarrow> rbind r (\<lambda>s. Inr (if s = [] then None else Some s, at)))
      else Inr (None, pos))"

definition parse_client_handshake :: "string \<Rightarrow> client_handshake res" where
  "parse_client_handshake data =
     (if length data < 32 then Inl (Fail ''Handshake response too short'')
      else let capabilities = of_nat (from_le (take 4 data)) in
        (case read_null_terminated data 32 of (r, pos) \<Rightarrow>
           rbind r (\<lambda>username.
           rbind (read_auth data capabilities pos) (\<lambda>(auth, pos1).
           rbind (read_optional (has_flag capabilities CLIENT_CONNECT_WITH_DB) data pos1) (\<lambda>(database, pos2).
           rbind (read_optional (has_flag capabilities CLIENT_PLUGIN_AUTH) data pos2) (\<lambda>(plugin, pos3).
             Inr \<lparr>ch_capabilities = capabilities, ch_username = username, ch_auth_response = auth,
                  ch_database = database, ch_auth_plugin = plugin\<rparr>))))))"

section \<open>What is encoded is read back\<close>

lemma of_char_byte [simp]: "of_char (byte n) = n mod 256"
  by (simp add: byte_def)

lemma byte_of_char [simp]: "byte (of_char c) = c"
  by (simp add: byte_def)

lemma byte_eq_iff: "byte m = byte n \<longleftrightarrow> m mod 256 = n mod 256"
  by (metis byte_of_char of_char_byte mod_mod_trivial byte_def char_of_mod_256)

lemma le_bytes_4_3: "take 3 (le_bytes 4 n) = le_bytes 3 n"
  by (simp add: le_bytes_def take_map)

lemma length_encode_lenenc: "length (encode_lenenc_int n) \<le> 9"
  by (simp add: encode_lenenc_int_def)

lemma read_lenenc_append:
  assumes "n < 2 ^ 64"
  shows "read_lenenc_int (pre @ encode_lenenc_int n @ rest) (length pre) = (Some n, length pre + length (encode_lenenc_int n))"
proof -
  have tail: "take k (drop (Suc (length pre)) (pre @ c # le_bytes k n @ rest)) = le_bytes k n" for c k
    by simp
  consider "n < 251" | "251 \<le> n" "n < 65536" | "65536 \<le> n" "n < 16777216" | "16777216 \<le> n" by linarith
  then show ?thesis
  proof cases
    case 1
    then show ?thesis by (simp add: encode_lenenc_int_def read_lenenc_int_def nth_append)
  next
    case 2
    then show ?thesis
      using tail [of 2 "byte 0xFC"]
      by (simp add: encode_lenenc_int_def read_lenenc_int_def nth_append Let_def from_le_bytes)
  next
    case 3
    then show ?thesis
      using tail [of 3 "byte 0xFD"]
      by (simp add: encode_lenenc_int_def read_lenenc_int_def nth_append Let_def from_le_bytes le_bytes_4_3)
  next
    case 4
    then show ?thesis
      using assms tail [of 8 "byte 0xFE"]
      by (simp add: encode_lenenc_int_def read_lenenc_int_def nth_append Let_def from_le_bytes)
  qed
qed

lemma lossy_bytes_valid: "utf8_bytes bs \<Longrightarrow> lossy_bytes bs = bs"
proof (induction bs rule: measure_induct_rule [of length])
  case (less bs)
  show ?case
  proof (cases bs)
    case (Cons a bs1)
    consider "a < 128" | "194 \<le> a" "a \<le> 223" | "224 \<le> a" "a \<le> 239" | "240 \<le> a" "a \<le> 244"
      using less.prems by (force simp: Cons split: list.splits if_splits)
    then show ?thesis
    proof cases
      case 1
      with less show ?thesis by (simp add: Cons)
    next
      case 2
      with less.prems obtain b cs where "bs1 = b # cs" "continuation b" "utf8_bytes cs" by (auto simp: Cons split: list.splits)
      with 2 less.IH [of cs] show ?thesis by (simp add: Cons second_ok_def)
    next
      case 3
      with less.prems obtain b c ds where bs1: "bs1 = b # c # ds" "continuation c" "utf8_bytes ds" and
        "if a = 224 then 160 \<le> b \<and> b \<le> 191 else if a = 237 then 128 \<le> b \<and> b \<le> 159 else continuation b"
        by (auto simp: Cons split: list.splits)
      with 3 have "second_ok a b" by (simp add: second_ok_def split: if_splits)
      with 3 bs1 less.IH [of ds] show ?thesis by (simp add: Cons)
    next
      case 4
      with less.prems obtain b c d es where bs1: "bs1 = b # c # d # es" "continuation c" "continuation d" "utf8_bytes es" and
        "if a = 240 then 144 \<le> b \<and> b \<le> 191 else if a = 244 then 128 \<le> b \<and> b \<le> 143 else continuation b"
        by (auto simp: Cons split: list.splits)
      with 4 have "second_ok a b" by (simp add: second_ok_def split: if_splits)
      with 4 bs1 less.IH [of es] show ?thesis by (simp add: Cons)
    qed
  qed simp
qed

lemma from_utf8_lossy_valid: "utf8_valid s \<Longrightarrow> from_utf8_lossy s = s"
  by (simp add: from_utf8_lossy_def utf8_valid_def lossy_bytes_valid comp_def)

section \<open>Passwords\<close>

text \<open>What a client that knows the password sends.\<close>

definition native_response :: "(string \<Rightarrow> string) \<Rightarrow> string \<Rightarrow> string \<Rightarrow> string" where
  "native_response sha1 password scramble = xor_bytes (sha1 password) (sha1 (scramble @ sha1 (sha1 password)))"

lemma verify_iff:
  assumes "\<And>s. length (sha1 s) = 20"
  shows "verify_mysql_native_password sha1 password scramble client_auth \<longleftrightarrow>
     password = [] \<and> client_auth = [] \<or> client_auth = native_response sha1 password scramble"
proof -
  have "length (native_response sha1 password scramble) = 20"
    by (simp add: native_response_def xor_bytes_def assms)
  then show ?thesis by (auto simp: verify_mysql_native_password_def native_response_def Let_def)
qed

lemma scramble_no_zero:
  "byte 0 \<notin> set (generate_scramble sha1 conn_id nanos process_id)"
  by (auto simp: generate_scramble_def byte_eq_iff)

section \<open>The handshake response is read without leaving the packet\<close>

lemma slice_ok: "a \<le> b \<Longrightarrow> b \<le> length data \<Longrightarrow> slice data a b = Inr (take (b - a) (drop a data))"
  by (simp add: slice_def)

lemma takeWhile_drop_bound: "pos \<le> length data \<Longrightarrow> pos + length (takeWhile P (drop pos data)) \<le> length data"
  using length_takeWhile_le [of P "drop pos data"] by simp

lemma read_null_terminated_ok:
  assumes "pos \<le> length data"
  obtains s at where "read_null_terminated data pos = (Inr s, at)" "at \<le> length data"
  using assms takeWhile_drop_bound [OF assms, of "\<lambda>c. c \<noteq> byte 0"]
  by (auto simp: read_null_terminated_def Let_def)

lemma read_lenenc_bound: "read_lenenc_int data pos = (Some n, at) \<Longrightarrow> at \<le> length data"
  by (auto simp: read_lenenc_int_def Let_def split: if_splits)

lemma read_auth_ok:
  assumes "pos \<le> length data"
  shows "(\<exists>e. read_auth data caps pos = Inl (Fail e)) \<or> (\<exists>auth at. read_auth data caps pos = Inr (auth, at) \<and> at \<le> length data)"
proof -
  have "slice data pos (pos + length (takeWhile (\<lambda>c. c \<noteq> byte 0) (drop pos data))) =
      Inr (takeWhile (\<lambda>c. c \<noteq> byte 0) (drop pos data))"
    using takeWhile_drop_bound [OF assms, of "\<lambda>c. c \<noteq> byte 0"]
    by (simp add: slice_ok) (metis takeWhile_eq_take)
  with takeWhile_drop_bound [OF assms, of "\<lambda>c. c \<noteq> byte 0"] show ?thesis
    by (auto simp: read_auth_def Let_def slice_ok dest!: read_lenenc_bound split: prod.splits option.splits)
qed

lemma read_optional_ok:
  assumes "pos \<le> length data"
  obtains r at where "read_optional wanted data pos = Inr (r, at)" "at \<le> length data"
proof (cases "wanted \<and> pos < length data")
  case True
  obtain s at where "read_null_terminated data pos = (Inr s, at)" "at \<le> length data"
    by (rule read_null_terminated_ok [OF assms])
  with True that show ?thesis by (simp add: read_optional_def)
qed (use assms that in \<open>auto simp: read_optional_def\<close>)

lemma handshake_no_panic: "parse_client_handshake data \<noteq> Inl (Panic why)"
proof (cases "length data < 32")
  case False
  let ?caps = "of_nat (from_le (take 4 data)) :: 32 word"
  obtain user pos where user: "read_null_terminated data 32 = (Inr user, pos)" "pos \<le> length data"
    by (rule read_null_terminated_ok [of 32 data]) (use False in auto)
  show ?thesis
  proof (cases "\<exists>auth at. read_auth data ?caps pos = Inr (auth, at) \<and> at \<le> length data")
    case True
    then obtain auth at where auth: "read_auth data ?caps pos = Inr (auth, at)" "at \<le> length data" by blast
    obtain db at2 where db: "read_optional (has_flag ?caps CLIENT_CONNECT_WITH_DB) data at = Inr (db, at2)" "at2 \<le> length data"
      by (rule read_optional_ok [OF auth(2)])
    obtain plugin at3 where "read_optional (has_flag ?caps CLIENT_PLUGIN_AUTH) data at2 = Inr (plugin, at3)" "at3 \<le> length data"
      by (rule read_optional_ok [OF db(2)])
    with user auth db show ?thesis by (simp add: parse_client_handshake_def Let_def)
  next
    case no_auth: False
    with read_auth_ok [OF user(2), of ?caps] obtain e where "read_auth data ?caps pos = Inl (Fail e)" by auto
    with user show ?thesis by (simp add: parse_client_handshake_def Let_def)
  qed
qed (simp add: parse_client_handshake_def)

section \<open>A handshake response is read back\<close>

definition auth_bytes :: "32 word \<Rightarrow> string \<Rightarrow> string" where
  "auth_bytes caps auth =
     (if has_flag caps CLIENT_PLUGIN_AUTH_LENENC_CLIENT_DATA then encode_lenenc_str auth
      else if has_flag caps CLIENT_SECURE_CONNECTION then byte (length auth) # auth
      else auth @ [byte 0])"

definition client_response :: "32 word \<Rightarrow> string \<Rightarrow> string \<Rightarrow> string \<Rightarrow> string \<Rightarrow> string" where
  "client_response caps user auth db plugin =
     (word_bytes caps @ le_bytes 4 0 @ [byte 45] @ replicate 23 (byte 0)) @ user @ byte 0 # auth_bytes caps auth @
     (if has_flag caps CLIENT_CONNECT_WITH_DB then db @ [byte 0] else []) @
     (if has_flag caps CLIENT_PLUGIN_AUTH then plugin @ [byte 0] else [])"

definition plain_text :: "string \<Rightarrow> bool" where
  "plain_text s \<longleftrightarrow> byte 0 \<notin> set s \<and> utf8_valid s"

lemma takeWhile_zero: "byte 0 \<notin> set s \<Longrightarrow> takeWhile (\<lambda>c. c \<noteq> byte 0) (s @ byte 0 # rest) = s"
  by (subst takeWhile_append2) auto

lemma read_null_terminated_append:
  "plain_text s \<Longrightarrow> read_null_terminated (pre @ s @ byte 0 # rest) (length pre) = (Inr s, length pre + length s + 1)"
  by (simp add: read_null_terminated_def plain_text_def takeWhile_zero from_utf8_lossy_valid Let_def)

lemma read_auth_append:
  assumes "length auth < 256" "byte 0 \<notin> set auth"
  shows "read_auth (pre @ auth_bytes caps auth @ rest) caps (length pre) = Inr (auth, length pre + length (auth_bytes caps auth))"
proof -
  have "length auth < 2 ^ 64" using assms(1) by simp
  then have "read_lenenc_int (pre @ encode_lenenc_int (length auth) @ auth @ rest) (length pre) =
      (Some (length auth), length pre + length (encode_lenenc_int (length auth)))"
    by (rule read_lenenc_append)
  then show ?thesis
    using assms by (auto simp: read_auth_def auth_bytes_def encode_lenenc_str_def slice_def takeWhile_zero nth_append Let_def)
qed

lemma read_optional_append:
  "plain_text s \<Longrightarrow> read_optional wanted (pre @ (if wanted then s @ [byte 0] else []) @ rest) (length pre) =
     Inr (if wanted \<and> s \<noteq> [] then Some s else None, length pre + (if wanted then length s + 1 else 0))"
  using read_null_terminated_append [of s pre rest] by (simp add: read_optional_def)

lemma handshake_round_trip:
  assumes "plain_text user" "plain_text db" "plain_text plugin" "length auth < 256" "byte 0 \<notin> set auth"
  shows "parse_client_handshake (client_response caps user auth db plugin) =
     Inr \<lparr>ch_capabilities = caps, ch_username = user, ch_auth_response = auth,
          ch_database = (if has_flag caps CLIENT_CONNECT_WITH_DB \<and> db \<noteq> [] then Some db else None),
          ch_auth_plugin = (if has_flag caps CLIENT_PLUGIN_AUTH \<and> plugin \<noteq> [] then Some plugin else None)\<rparr>"
proof -
  let ?head = "word_bytes caps @ le_bytes 4 0 @ [byte 45] @ replicate 23 (byte 0)"
  let ?db = "if has_flag caps CLIENT_CONNECT_WITH_DB then db @ [byte 0] else []"
  let ?plugin = "if has_flag caps CLIENT_PLUGIN_AUTH then plugin @ [byte 0] else []"
  let ?data = "client_response caps user auth db plugin"
  let ?p1 = "?head @ user @ [byte 0]" and ?p2 = "?head @ user @ byte 0 # auth_bytes caps auth"
  let ?p3 = "?head @ user @ byte 0 # auth_bytes caps auth @ ?db"
  have head: "length ?head = 32" by (simp add: word_bytes_def)
  have caps: "of_nat (from_le (take 4 ?data)) = caps"
    using unsigned_less [of caps, where ?'a = nat] by (simp add: client_response_def word_bytes_def from_le_bytes)
  have user: "read_null_terminated ?data 32 = (Inr user, length ?p1)"
    using read_null_terminated_append [OF assms(1), of ?head "auth_bytes caps auth @ ?db @ ?plugin"] head
    by (simp add: client_response_def)
  have auth: "read_auth ?data caps (length ?p1) = Inr (auth, length ?p2)"
    using read_auth_append [OF assms(4,5), of ?p1 caps "?db @ ?plugin"] by (simp add: client_response_def)
  have db: "read_optional (has_flag caps CLIENT_CONNECT_WITH_DB) ?data (length ?p2) =
      Inr (if has_flag caps CLIENT_CONNECT_WITH_DB \<and> db \<noteq> [] then Some db else None, length ?p3)"
    using read_optional_append [OF assms(2), of "has_flag caps CLIENT_CONNECT_WITH_DB" ?p2 ?plugin]
    by (simp add: client_response_def)
  have plugin: "read_optional (has_flag caps CLIENT_PLUGIN_AUTH) ?data (length ?p3) =
      Inr (if has_flag caps CLIENT_PLUGIN_AUTH \<and> plugin \<noteq> [] then Some plugin else None,
           length ?p3 + (if has_flag caps CLIENT_PLUGIN_AUTH then length plugin + 1 else 0))"
    using read_optional_append [OF assms(3), of "has_flag caps CLIENT_PLUGIN_AUTH" ?p3 "[]"]
    by (simp add: client_response_def)
  have "\<not> length ?data < 32" using head by (simp add: client_response_def)
  then show ?thesis
    unfolding parse_client_handshake_def Let_def caps user prod.case rbind_simps auth db plugin by simp
qed

section \<open>Messages one after the other\<close>

text \<open>
  An encoding whose reader finds the end of the message by itself: read from the front of a
  stream, a message gives what a peer sees of it and the rest of the stream. Sequences of
  messages are then read back one by one.
\<close>

fun decode_n :: "(string \<Rightarrow> ('b \<times> string) option) \<Rightarrow> nat \<Rightarrow> string \<Rightarrow> ('b list \<times> string) option" where
  "decode_n dec 0 s = Some ([], s)"
| "decode_n dec (Suc n) s = (case dec s of
     Some (x, rest) \<Rightarrow> map_option (\<lambda>(xs, r). (x # xs, r)) (decode_n dec n rest)
   | None \<Rightarrow> None)"

locale message_codec =
  fixes enc :: "'a \<Rightarrow> string" and dec :: "string \<Rightarrow> ('b \<times> string) option" and view :: "'a \<Rightarrow> 'b" and ok :: "'a \<Rightarrow> bool"
  assumes read_back: "ok x \<Longrightarrow> dec (enc x @ rest) = Some (view x, rest)"
begin

lemma read_back_all:
  "\<forall>x \<in> set xs. ok x \<Longrightarrow> decode_n dec (length xs) (concat (map enc xs) @ rest) = Some (map view xs, rest)"
  by (induction xs) (simp_all add: read_back)

lemma unambiguous:
  assumes "ok x" "ok y" "enc x @ r = enc y @ r'"
  shows "view x = view y \<and> r = r'"
  using read_back [OF assms(1), of r] read_back [OF assms(2), of r'] assms(3) by simp

end

section \<open>Rows are read back\<close>

text \<open>How a client reads a cell of the text protocol.\<close>

definition read_text_cell :: "string \<Rightarrow> (string option \<times> string) option" where
  "read_text_cell s =
     (if s = [] then None
      else if hd s = byte 0xFB then Some (None, tl s)
      else case read_lenenc_int s 0 of
        (Some n, at) \<Rightarrow> if length s - at < n then None else Some (Some (take n (drop at s)), drop (at + n) s)
      | (None, _) \<Rightarrow> None)"

definition cell_text :: "val \<Rightarrow> string option" where
  "cell_text v = (case v of
     VNull \<Rightarrow> None | VBoolean b \<Rightarrow> Some (if b then ''1'' else ''0'') | _ \<Rightarrow> Some (value_to_string v))"

lemma encode_lenenc_not_null: "encode_lenenc_int n \<noteq> [] \<and> hd (encode_lenenc_int n) \<noteq> byte 0xFB"
  by (auto simp: encode_lenenc_int_def byte_eq_iff)

definition short_cell :: "val \<Rightarrow> bool" where
  "short_cell v \<longleftrightarrow> (\<forall>s. cell_text v = Some s \<longrightarrow> length s < 2 ^ 64)"

lemma read_text_cell_append: "short_cell v \<Longrightarrow> read_text_cell (text_cell v @ rest) = Some (cell_text v, rest)"
proof (cases "cell_text v")
  case None
  then have "v = VNull" by (cases v) (auto simp: cell_text_def)
  then show ?thesis by (simp add: text_cell_def cell_text_def read_text_cell_def)
next
  case (Some s)
  assume "short_cell v"
  with Some have len: "length s < 2 ^ 64" by (simp add: short_cell_def)
  from Some have cell: "text_cell v = encode_lenenc_int (length s) @ s"
    by (cases v) (auto simp: cell_text_def text_cell_def encode_lenenc_str_def)
  from read_lenenc_append [OF len, of "[]" "s @ rest"]
  have "read_lenenc_int (encode_lenenc_int (length s) @ s @ rest) 0 = (Some (length s), length (encode_lenenc_int (length s)))"
    by simp
  with encode_lenenc_not_null [of "length s"] show ?thesis by (simp add: cell Some read_text_cell_def)
qed

interpretation text_cells: message_codec text_cell read_text_cell cell_text short_cell
  by unfold_locales (rule read_text_cell_append)

lemma decode_text_row:
  "\<forall>v \<in> set vs. short_cell v \<Longrightarrow> decode_n read_text_cell (length vs) (build_text_row vs) = Some (map cell_text vs, [])"
  using text_cells.read_back_all [of vs "[]"] by (simp add: build_text_row_def)

text \<open>The binary protocol: the declared type of the column says how a cell is read.\<close>

definition null_bit_set :: "string \<Rightarrow> nat \<Rightarrow> bool" where
  "null_bit_set bitmap b = bit (of_char (bitmap ! (b div 8)) :: nat) (b mod 8)"

fun decode_binary_cell :: "data_type \<Rightarrow> string \<Rightarrow> (val \<times> string) option" where
  "decode_binary_cell DInteger s = (if length s < 8 then None else Some (VInteger (of_nat (from_le (take 8 s))), drop 8 s))"
| "decode_binary_cell DFloat s = (if length s < 8 then None else Some (VFloat (of_nat (from_le (take 8 s))), drop 8 s))"
| "decode_binary_cell DBoolean s = (if s = [] then None else Some (VBoolean (hd s \<noteq> byte 0), tl s))"
| "decode_binary_cell DText s = (case read_lenenc_int s 0 of
     (Some n, at) \<Rightarrow> if length s - at < n then None else Some (VText (take n (drop at s)), drop (at + n) s)
   | (None, _) \<Rightarrow> None)"
| "decode_binary_cell DNull s = None"

fun decode_binary_cells :: "string \<Rightarrow> nat \<Rightarrow> data_type list \<Rightarrow> string \<Rightarrow> val list option" where
  "decode_binary_cells bitmap i [] s = (if s = [] then Some [] else None)"
| "decode_binary_cells bitmap i (t # ts) s =
     (if null_bit_set bitmap (i + 2) then map_option (\<lambda>vs. VNull # vs) (decode_binary_cells bitmap (i + 1) ts s)
      else case decode_binary_cell t s of
        Some (v, rest) \<Rightarrow> map_option (\<lambda>vs. v # vs) (decode_binary_cells bitmap (i + 1) ts rest)
      | None \<Rightarrow> None)"

definition decode_binary_row :: "data_type list \<Rightarrow> string \<Rightarrow> val list option" where
  "decode_binary_row ts s =
     (let n = (length ts + 9) div 8 in
      if length s < n + 1 then None
      else decode_binary_cells (take n (tl s)) 0 ts (drop (n + 1) s))"

lemma length_set_null_bit [simp]: "length (set_null_bit bitmap b) = length bitmap"
  by (simp add: set_null_bit_def)

lemma null_bit_set_null_bit:
  assumes "b div 8 < length bitmap" "c div 8 < length bitmap"
  shows "null_bit_set (set_null_bit bitmap b) c \<longleftrightarrow> null_bit_set bitmap c \<or> b = c"
proof (cases "b div 8 = c div 8")
  case True
  let ?n = "of_char (bitmap ! (c div 8)) :: nat"
  have "?n OR 2 ^ (b mod 8) < 2 ^ 8"
  proof -
    have "?n < 2 ^ 8" by simp
    moreover have "(2 :: nat) ^ (b mod 8) < 2 ^ 8" by (rule power_strict_increasing) simp_all
    ultimately show ?thesis using OR_upper [of "int ?n" 8 "2 ^ (b mod 8)"] 
      by (metis (mono_tags, lifting) nat_less_numeral_power_cancel_iff of_nat_0_le_iff of_nat_less_numeral_power_cancel_iff of_nat_numeral of_nat_or_eq of_nat_power)
  qed
  then have "null_bit_set (set_null_bit bitmap b) c \<longleftrightarrow> bit (?n OR 2 ^ (b mod 8)) (c mod 8)"
    using assms True by (simp add: null_bit_set_def set_null_bit_def)
  moreover have "b mod 8 = c mod 8 \<longleftrightarrow> b = c" using True by (metis div_mult_mod_eq)
  ultimately show ?thesis by (auto simp: null_bit_set_def bit_or_iff bit_exp_iff)
next
  case False
  then show ?thesis by (auto simp: null_bit_set_def set_null_bit_def)
qed

definition mark_nulls :: "nat \<Rightarrow> string \<Rightarrow> (nat \<times> val) list \<Rightarrow> string" where
  "mark_nulls k = foldl (\<lambda>bitmap (index, v). if is_null v then set_null_bit bitmap (index + k) else bitmap)"

lemma null_bitmap_marks: "null_bitmap vs = mark_nulls 2 (replicate ((length vs + 9) div 8) (byte 0)) (enumerate 0 vs)"
  by (simp add: null_bitmap_def mark_nulls_def)

lemma length_mark_nulls [simp]: "length (mark_nulls k bitmap ps) = length bitmap"
  unfolding mark_nulls_def by (induction ps arbitrary: bitmap) auto

lemma mark_nulls_iff:
  assumes "\<And>i v. (i, v) \<in> set ps \<Longrightarrow> (i + k) div 8 < length bitmap" "c div 8 < length bitmap"
  shows "null_bit_set (mark_nulls k bitmap ps) c \<longleftrightarrow>
     null_bit_set bitmap c \<or> (\<exists>(i, v) \<in> set ps. is_null v \<and> i + k = c)"
  using assms
proof (induction ps arbitrary: bitmap)
  case (Cons p ps)
  obtain i v where p: "p = (i, v)" by (cases p)
  let ?bm = "if is_null v then set_null_bit bitmap (i + k) else bitmap"
  have "length ?bm = length bitmap" by simp
  then have IH: "null_bit_set (mark_nulls k ?bm ps) c \<longleftrightarrow> null_bit_set ?bm c \<or> (\<exists>(i, v) \<in> set ps. is_null v \<and> i + k = c)"
    using Cons.prems by (intro Cons.IH) auto
  have "(i + k) div 8 < length bitmap" using Cons.prems(1) [of i v] p by simp
  with null_bit_set_null_bit [OF this Cons.prems(2)] have "null_bit_set ?bm c \<longleftrightarrow> null_bit_set bitmap c \<or> is_null v \<and> i + k = c"
    by auto
  with IH show ?case by (auto simp: p mark_nulls_def)
qed (simp add: mark_nulls_def)

lemma mark_nulls_enumerate:
  assumes "i < length vs" "\<And>j. j < length vs \<Longrightarrow> (j + k) div 8 < n"
  shows "null_bit_set (mark_nulls k (replicate n (byte 0)) (enumerate 0 vs)) (i + k) \<longleftrightarrow> vs ! i = VNull"
proof -
  have "\<not> null_bit_set (replicate n (byte 0)) (i + k)" using assms(2) [OF assms(1)] by (simp add: null_bit_set_def)
  moreover have "(\<exists>(j, v) \<in> set (enumerate 0 vs). is_null v \<and> j + k = i + k) \<longleftrightarrow> vs ! i = VNull"
    using assms(1) by (auto simp: in_set_enumerate_eq)
  ultimately show ?thesis
    using mark_nulls_iff [of "enumerate 0 vs" k "replicate n (byte 0)" "i + k"] assms
    by (auto simp: in_set_enumerate_eq)
qed

lemma null_bitmap_iff: "i < length vs \<Longrightarrow> null_bit_set (null_bitmap vs) (i + 2) \<longleftrightarrow> vs ! i = VNull"
  unfolding null_bitmap_marks by (rule mark_nulls_enumerate) linarith+

lemma length_null_bitmap [simp]: "length (null_bitmap vs) = (length vs + 9) div 8"
  by (simp add: null_bitmap_marks)

definition fits :: "val \<Rightarrow> data_type \<Rightarrow> bool" where
  "fits v t \<longleftrightarrow> v = VNull \<or> data_type_of v = t \<and> (\<forall>s. v = VText s \<longrightarrow> length s < 2 ^ 64)"

lemma word_bytes_64: "of_nat (from_le (word_bytes w)) = (w :: 64 word)"
  using unsigned_less [of w, where ?'a = nat] by (simp add: word_bytes_def from_le_bytes)

lemma length_word_bytes_64 [simp]: "length (word_bytes (w :: 64 word)) = 8"
  by (simp add: word_bytes_def)

lemma decode_binary_cell_append:
  assumes "fits v t" "v \<noteq> VNull"
  shows "decode_binary_cell t (binary_cell v @ rest) = Some (v, rest)"
proof (cases v)
  case (VText s)
  then have "t = DText" and len: "length s < 2 ^ 64" using assms by (auto simp: fits_def)
  with read_lenenc_append [OF len, of "[]" "s @ rest"] VText show ?thesis
    by (simp add: binary_cell_def encode_lenenc_str_def)
qed (use assms in \<open>auto simp: fits_def binary_cell_def word_bytes_64 byte_eq_iff\<close>)

lemma binary_cell_null [simp]: "binary_cell VNull = []"
  by (simp add: binary_cell_def)

lemma decode_binary_cells_append:
  assumes "list_all2 fits vs ts" "\<And>j. j < length vs \<Longrightarrow> null_bit_set bitmap (i + j + 2) \<longleftrightarrow> vs ! j = VNull"
  shows "decode_binary_cells bitmap i ts (concat (map binary_cell vs)) = Some vs"
  using assms
proof (induction vs ts arbitrary: i rule: list_all2_induct)
  case (Cons v vs t ts)
  have "decode_binary_cells bitmap (i + 1) ts (concat (map binary_cell vs)) = Some vs"
    using Cons.prems [of "Suc j" for j] by (intro Cons.IH) (simp add: add.assoc)
  with Cons.prems [of 0] Cons.hyps(1) decode_binary_cell_append [of v t "concat (map binary_cell vs)"] show ?case
    by (cases "v = VNull") simp_all
qed simp

lemma decode_binary_row_built:
  assumes "list_all2 fits vs ts"
  shows "decode_binary_row ts (build_binary_row vs) = Some vs"
proof -
  have "length ts = length vs" using assms by (simp add: list_all2_lengthD)
  moreover have "decode_binary_cells (null_bitmap vs) 0 ts (concat (map binary_cell vs)) = Some vs"
    by (rule decode_binary_cells_append [OF assms]) (use null_bitmap_iff [of _ vs] in simp)
  ultimately show ?thesis by (simp add: decode_binary_row_def build_binary_row_def)
qed

end
