(* ===== verification/Wire.thy ===== *)
theory Wire
  imports Session Protocol Config
begin

text \<open>
  The wire server of \<^verbatim>\<open>src/src/wire/mod.rs\<close>: framing of packets, system queries, encoding of
  results, decoding of the parameters of prepared statements, authentication and the
  commands of a connection. A connection is a function of the packets it receives; each
  command returns the payloads it answers with. The lemmas show that framing is read back,
  that decoding parameters stays inside the packet and gives the client's values, and that
  nothing runs before the client is authenticated.
\<close>

section \<open>Frames\<close>

definition write_packet :: "nat \<Rightarrow> string \<Rightarrow> string" where
  "write_packet seq_id payload =
     (let len = length payload in
      [byte (len AND 0xFF), byte (drop_bit 8 len AND 0xFF), byte (drop_bit 16 len AND 0xFF), byte seq_id] @ payload)"

text \<open>Reading from the bytes a peer has sent: \<open>None\<close> when the stream ends too early.\<close>

definition read_packet :: "string \<Rightarrow> ((nat \<times> string) \<times> string) option" where
  "read_packet stream =
     (if length stream < 4 then None
      else let payload_len = from_le (take 3 stream);
               seq_id = of_char (stream ! 3);
               rest = drop 4 stream
           in if length rest < payload_len then None
              else Some ((seq_id, take payload_len rest), drop payload_len rest))"

fun write_packets :: "nat \<Rightarrow> string list \<Rightarrow> string" where
  "write_packets seq [] = []"
| "write_packets seq (p # ps) = write_packet seq p @ write_packets ((seq + 1) mod 256) ps"

section \<open>System queries\<close>

definition text_result :: "string list \<Rightarrow> val list list \<Rightarrow> execution_result" where
  "text_result columns rows = RSelect \<lparr>rs_columns = columns, rs_rows = rows\<rparr>"

definition known_vars :: "(string \<times> string) list" where
  "known_vars =
     [(''@@version_comment'', ''RustyDB SQL Engine''),
      (''@@version'', SERVER_VERSION),
      (''@@max_allowed_packet'', ''67108864''),
      (''@@character_set_client'', ''utf8mb4''),
      (''@@character_set_connection'', ''utf8mb4''),
      (''@@character_set_results'', ''utf8mb4''),
      (''@@character_set_server'', ''utf8mb4''),
      (''@@character_set_database'', ''utf8mb4''),
      (''@@collation_connection'', ''utf8mb4_general_ci''),
      (''@@collation_server'', ''utf8mb4_general_ci''),
      (''@@collation_database'', ''utf8mb4_general_ci''),
      (''@@interactive_timeout'', ''28800''),
      (''@@wait_timeout'', ''28800''),
      (''@@net_write_timeout'', ''60''),
      (''@@sql_mode'', ''TRADITIONAL''),
      (''@@time_zone'', ''SYSTEM''),
      (''@@system_time_zone'', ''UTC''),
      (''@@autocommit'', ''1''),
      (''@@tx_isolation'', ''REPEATABLE-READ''),
      (''@@transaction_isolation'', ''REPEATABLE-READ''),
      (''@@lower_case_table_names'', ''1''),
      (''@@license'', ''Apache-2.0''),
      (''@@session.autocommit'', ''1''),
      (''@@session.transaction_read_only'', ''0''),
      (''@@session.auto_increment_increment'', ''1''),
      (''@@session.transaction_isolation'', ''REPEATABLE-READ''),
      (''@@session.tx_isolation'', ''REPEATABLE-READ''),
      (''@@session.sql_mode'', ''TRADITIONAL''),
      (''@@global.max_allowed_packet'', ''67108864''),
      (''@@global.net_buffer_length'', ''16384'')]"

text \<open>
  The characters of a string in UTF-8, each as its bytes. Whether a character beyond ASCII
  is alphanumeric is given by \<open>unicode\<close>.
\<close>

function utf8_chars :: "string \<Rightarrow> string list" where
  "utf8_chars [] = []"
| "utf8_chars (c # cs) =
     (c # takeWhile (\<lambda>d. continuation (of_char d)) cs) # utf8_chars (dropWhile (\<lambda>d. continuation (of_char d)) cs)"
  by pat_completeness auto

termination
  by (relation "measure length") (auto simp: less_Suc_eq_le length_dropWhile_le)

definition char_alphanumeric :: "(string \<Rightarrow> bool) \<Rightarrow> string \<Rightarrow> bool" where
  "char_alphanumeric unicode c =
     (case c of [a] \<Rightarrow> (let n = of_char a :: nat in
          48 \<le> n \<and> n \<le> 57 \<or> 65 \<le> n \<and> n \<le> 90 \<or> 97 \<le> n \<and> n \<le> 122)
      | _ \<Rightarrow> unicode c)"

definition str_range :: "string \<Rightarrow> nat \<Rightarrow> nat \<Rightarrow> string res" where
  "str_range s a b =
     (if a \<le> b \<and> is_char_boundary s a \<and> is_char_boundary s b then Inr (take (b - a) (drop a s))
      else Inl (Panic ''byte index is not a char boundary''))"

text \<open>
  The loop over the characters. The positions \<open>start\<close> and \<open>i\<close> count characters; the slice of the
  query takes them for byte positions, as the code does.
\<close>

function sysvar_scan :: "(string \<Rightarrow> bool) \<Rightarrow> string \<Rightarrow> string list \<Rightarrow> nat \<Rightarrow> (string \<times> string) list res" where
  "sysvar_scan unicode query cs i =
     (if length cs - 1 \<le> i then Inr []
      else if cs ! i = ''@'' \<and> cs ! (i + 1) = ''@''
      then let after = takeWhile (\<lambda>c. char_alphanumeric unicode c \<or> c = ''_'' \<or> c = ''.'') (drop (i + 2) cs);
               j = i + 2 + length after
           in rbind (str_range query i j) (\<lambda>name.
                let v = (case find (\<lambda>(k, w). to_ascii_lowercase k = to_ascii_lowercase name) known_vars of
                           Some (k, w) \<Rightarrow> w | None \<Rightarrow> [])
                in rbind (sysvar_scan unicode query cs j) (\<lambda>found. Inr ((name, v) # found)))
      else sysvar_scan unicode query cs (i + 1))"
  by pat_completeness auto

termination
  by (relation "measure (\<lambda>(unicode, query, cs, i). length cs - i)") auto

definition handle_sysvar_query :: "(string \<Rightarrow> bool) \<Rightarrow> string \<Rightarrow> execution_result res" where
  "handle_sysvar_query unicode query =
     rbind (sysvar_scan unicode query (utf8_chars query) 0) (\<lambda>found.
       let shown = (if found = [] then [(''@@unknown'', [])] else found)
       in Inr (text_result (map fst shown) [map (\<lambda>(k, v). VText v) shown]))"

definition try_handle_system_query :: "(string \<Rightarrow> bool) \<Rightarrow> string \<Rightarrow> execution_result option res" where
  "try_handle_system_query unicode query =
     (let trimmed = normalize_sql query; upper = to_ascii_uppercase trimmed in
      rbind (if starts_with_str upper ''SET ''
             then rbind (slice_from trimmed 4) (\<lambda>s. Inr (\<not> starts_with_str (trim_start is_white s) ''@''))
             else Inr False) (\<lambda>is_set.
        if is_set \<or> starts_with_str upper ''USE '' \<or> starts_with_str upper ''KILL'' then Inr (Some (RowsAffected 0))
        else if starts_with_str upper ''SELECT'' \<and> contains_str upper ''@@''
        then rbind (handle_sysvar_query unicode trimmed) (\<lambda>r. Inr (Some r))
        else if starts_with_str upper ''SELECT'' \<and> contains_str upper ''DATABASE()''
        then Inr (Some (text_result [''DATABASE()''] [[VText ''rustydb'']]))
        else if starts_with_str upper ''SELECT'' \<and> (contains_str upper ''USER()'' \<or> contains_str upper ''CURRENT_USER'')
        then Inr (Some (text_result [''USER()''] [[VText ''rustydb_user@localhost'']]))
        else if upper = ''SELECT 1'' then Inr (Some (text_result [''1''] [[VInteger 1]]))
        else if starts_with_str upper ''SHOW WARNINGS''
        then Inr (Some (text_result [''Level'', ''Code'', ''Message''] []))
        else if upper = ''SHOW DATABASES'' then Inr (Some (text_result [''Database''] [[VText ''rustydb'']]))
        else if starts_with_str upper ''SHOW '' \<and> \<not> starts_with_str upper ''SHOW TABLES'' \<and>
                \<not> starts_with_str upper ''SHOW CREATE''
        then Inr (Some (text_result [''Variable_name'', ''Value''] []))
        else Inr None))"

section \<open>Results\<close>

definition inferred_column :: "result_set \<Rightarrow> string \<Rightarrow> nat \<times> 16 word" where
  "inferred_column rs name =
     (case rs_rows rs of
        [] \<Rightarrow> (MYSQL_TYPE_VAR_STRING, 0)
      | first # _ \<Rightarrow>
          (let i = (case position (\<lambda>c. c = name) (rs_columns rs) of Some i \<Rightarrow> i | None \<Rightarrow> 0)
           in case get first i of
                Some v \<Rightarrow> (datatype_to_mysql (data_type_of v), column_flags (data_type_of v) True False)
              | None \<Rightarrow> (MYSQL_TYPE_VAR_STRING, 0)))"

definition encode_result_set :: "result_set \<Rightarrow> string \<Rightarrow> 16 word \<Rightarrow> string list" where
  "encode_result_set rs table_name status =
     [build_column_count (length (rs_columns rs))] @
     map (\<lambda>name. case inferred_column rs name of (t, flags) \<Rightarrow> build_column_def name table_name t flags) (rs_columns rs) @
     [build_eof_packet_with_status status] @ map build_text_row (rs_rows rs) @ [build_eof_packet_with_status status]"

definition describe_row :: "column_def \<Rightarrow> val list" where
  "describe_row c =
     [VText (col_name c), VText (data_type_name (col_data_type c)), VText (if col_nullable c then ''YES'' else ''NO''),
      VText (if col_primary_key c then ''PRI'' else []), VText ''NULL'', VText []]"

definition encode_result :: "execution_result \<Rightarrow> 16 word \<Rightarrow> string list" where
  "encode_result result status = (case result of
     RSelect rs \<Rightarrow> encode_result_set rs [] status
   | RowsAffected n \<Rightarrow> [build_ok_packet_with_status n 0 status]
   | RTables tables \<Rightarrow>
       encode_result_set \<lparr>rs_columns = [''Tables_in_rustydb''], rs_rows = map (\<lambda>t. [VText t]) tables\<rparr> [] status
   | TableDescription name columns \<Rightarrow>
       encode_result_set \<lparr>rs_columns = [''Field'', ''Type'', ''Null'', ''Key'', ''Default'', ''Extra''],
         rs_rows = map describe_row columns\<rparr> name status
   | RIndexes indexes \<Rightarrow>
       encode_result_set \<lparr>rs_columns = [''Key_name'', ''Column_name'', ''Non_unique''],
         rs_rows = concat (map (\<lambda>d. map (\<lambda>c. [VText (ix_name d), VText c, VInteger (if ix_unique d then 0 else 1)])
           (ix_columns d)) indexes)\<rparr> [] status
   | RExplain lines \<Rightarrow> encode_result_set \<lparr>rs_columns = [''plan''], rs_rows = map (\<lambda>l. [VText l]) lines\<rparr> [] status
   | RError msg \<Rightarrow> [build_err_packet 1064 ''42000'' msg]
   | _ \<Rightarrow> [build_ok_packet_with_status 0 0 status])"

definition encode_prepared_result :: "execution_result \<Rightarrow> (string \<times> data_type) list \<Rightarrow> 16 word \<Rightarrow> string list" where
  "encode_prepared_result result metadata status = (case result of
     RSelect rs \<Rightarrow>
       [build_column_count (length (rs_columns rs))] @
       map (\<lambda>(index, name). let t = (case get metadata index of Some (_, t) \<Rightarrow> t | None \<Rightarrow> DText)
            in build_column_def name [] (datatype_to_mysql t) (column_flags t True False)) (enumerate 0 (rs_columns rs)) @
       [build_eof_packet_with_status status] @ map build_binary_row (rs_rows rs) @ [build_eof_packet_with_status status]
   | _ \<Rightarrow> encode_result result status)"

section \<open>Parameters of prepared statements\<close>

record wire_statement =
  ws_prepared :: prepared_statement
  ws_parameter_types :: "nat list"
  ws_long_data :: "(nat, string) hmap"

text \<open>\<open>f32 as f64\<close>: exact, a not-a-number becomes quiet.\<close>

definition f32_to_f64 :: "32 word \<Rightarrow> f64" where
  "f32_to_f64 w =
     (let s = bit w 31; e = unat (drop_bit 23 w AND 0xFF); m = unat (w AND 0x7FFFFF)
      in if e = 255 then f64_make s (2047 * 2 ^ 52 + (if m = 0 then 0 else (m * 2 ^ 29 OR 2 ^ 51)))
         else if e = 0 then f64_make s (f64_mag (f64_of_frac False (int m) (2 ^ 149)))
         else f64_make s ((e + 896) * 2 ^ 52 + m * 2 ^ 29))"

definition take_bytes :: "string \<Rightarrow> nat \<Rightarrow> nat \<Rightarrow> (string \<times> nat) res" where
  "take_bytes data pos len =
     (if length data - pos < len then Inl (Fail ''Truncated prepared parameter'')
      else rbind (slice data pos (pos + len)) (\<lambda>s. Inr (s, pos + len)))"

definition read_text :: "string \<Rightarrow> string \<Rightarrow> val res" where
  "read_text msg s = (if utf8_valid s then Inr (VText s) else Inl (Fail msg))"

text \<open>A signed or unsigned integer of a given width, widened to 64 bits.\<close>

definition signed_value :: "bool \<Rightarrow> nat \<Rightarrow> nat \<Rightarrow> i64" where
  "signed_value is_unsigned bits n = (if is_unsigned \<or> n < 2 ^ (bits - 1) then of_nat n else of_int (int n - 2 ^ bits))"

definition decode_parameter :: "string \<Rightarrow> nat \<Rightarrow> nat \<Rightarrow> (val \<times> nat) res" where
  "decode_parameter data type pos =
     (let type_code = type mod 256; is_unsigned = bit type 15;
          integer = (\<lambda>k. rbind (take_bytes data pos k) (\<lambda>(raw, at).
            Inr (VInteger (signed_value is_unsigned (8 * k) (from_le raw)), at)))
      in if type_code = MYSQL_TYPE_NULL then Inr (VNull, pos)
         else if type_code = MYSQL_TYPE_TINY then integer 1
         else if type_code = MYSQL_TYPE_SHORT then integer 2
         else if type_code = MYSQL_TYPE_LONG then integer 4
         else if type_code = MYSQL_TYPE_LONGLONG
         then rbind (take_bytes data pos 8) (\<lambda>(raw, at).
                if is_unsigned \<and> 2 ^ 63 \<le> from_le raw
                then Inl (Fail ''Unsigned integer exceeds RustyDB INTEGER range'')
                else Inr (VInteger (of_nat (from_le raw)), at))
         else if type_code = MYSQL_TYPE_FLOAT
         then rbind (take_bytes data pos 4) (\<lambda>(raw, at). Inr (VFloat (f32_to_f64 (of_nat (from_le raw))), at))
         else if type_code = MYSQL_TYPE_DOUBLE
         then rbind (take_bytes data pos 8) (\<lambda>(raw, at). Inr (VFloat (of_nat (from_le raw)), at))
         else if type_code = MYSQL_TYPE_VAR_STRING \<or> type_code = 0x0F \<or> type_code = 0xFC \<or> type_code = 0xFE
         then (case read_lenenc_int data pos of
                 (None, _) \<Rightarrow> Inl (Fail ''Invalid string parameter length'')
               | (Some len, at) \<Rightarrow> rbind (take_bytes data at len) (\<lambda>(raw, at').
                   rbind (read_text ''String parameter is not valid UTF-8'' raw) (\<lambda>v. Inr (v, at'))))
         else Inl (Fail (''Unsupported prepared parameter type 0x'' @ to_ascii_uppercase (show_hex 2 type_code))))"

text \<open>The loop over the parameters; what it takes out of the long data stays taken after an error.\<close>

fun decode_parameters ::
  "string \<Rightarrow> string \<Rightarrow> nat list \<Rightarrow> nat \<Rightarrow> wire_statement \<Rightarrow> val list res \<times> wire_statement" where
  "decode_parameters data null_bits [] pos st = (Inr [], st)"
| "decode_parameters data null_bits (index # indices) pos st =
     (let continue = (\<lambda>v at st'. case decode_parameters data null_bits indices at st' of
            (r, st'') \<Rightarrow> (rbind r (\<lambda>vs. Inr (v # vs)), st''))
      in if (case get null_bits (index div 8) of Some b \<Rightarrow> bit (of_char b :: nat) (index mod 8) | None \<Rightarrow> False)
         then continue VNull pos st
         else case map_of (ws_long_data st) index of
           Some bytes \<Rightarrow>
             (let st' = st\<lparr>ws_long_data := AList.delete index (ws_long_data st)\<rparr>
              in case read_text ''Long parameter data is not valid UTF-8'' bytes of
                   Inl e \<Rightarrow> (Inl e, st') | Inr v \<Rightarrow> continue v pos st')
         | None \<Rightarrow>
             (case rbind (idx (ws_parameter_types st) index) (\<lambda>type. decode_parameter data type pos) of
                Inl e \<Rightarrow> (Inl e, st) | Inr (v, at) \<Rightarrow> continue v at st))"

definition read_types :: "string \<Rightarrow> nat \<Rightarrow> nat \<Rightarrow> nat list res" where
  "read_types data pos count = res_map (\<lambda>i. rbind (slice data (pos + 2 * i) (pos + 2 * i + 2)) (\<lambda>s. Inr (from_le s))) [0..<count]"

definition decode_stmt_parameters :: "string \<Rightarrow> wire_statement \<Rightarrow> val list res \<times> wire_statement" where
  "decode_stmt_parameters data st =
     (let count = ps_parameter_count (ws_prepared st); bitmap_len = (count + 7) div 8 in
      if length data < 10 then (Inl (Fail ''COM_STMT_EXECUTE packet is too short''), st)
      else if length data - 10 < bitmap_len + 1 then (Inl (Fail ''Invalid parameter null bitmap''), st)
      else case slice data 10 (10 + bitmap_len) of
        Inl e \<Rightarrow> (Inl e, st)
      | Inr null_bits \<Rightarrow>
          (let at = 10 + bitmap_len; pos = at + 1; new_types = (data ! at \<noteq> byte 0)
           in if new_types \<and> length data - pos < count * 2
              then (Inl (Fail ''Missing prepared parameter types''), st)
              else case (if new_types then read_types data pos count else Inr (ws_parameter_types st)) of
                Inl e \<Rightarrow> (Inl e, st)
              | Inr types \<Rightarrow>
                  (let st1 = st\<lparr>ws_parameter_types := types\<rparr>
                   in if length types \<noteq> count then (Inl (Fail ''Parameter types were not supplied''), st1)
                      else decode_parameters data null_bits [0..<count]
                             (if new_types then pos + 2 * count else pos) st1)))"

section \<open>Authentication\<close>

definition credentials_ok :: "(string \<Rightarrow> string) \<Rightarrow> server_config \<Rightarrow> string \<Rightarrow> client_handshake \<Rightarrow> bool" where
  "credentials_ok sha1 config scramble h =
     (if auth_required config
      then ch_username h = the (sc_username config) \<and>
           verify_mysql_native_password sha1 (the (sc_password config)) scramble (ch_auth_response h)
      else True)"

text \<open>The answer to the client's handshake response and whether the command phase starts.\<close>

definition handshake_phase ::
  "(string \<Rightarrow> string) \<Rightarrow> server_config \<Rightarrow> string \<Rightarrow> string \<Rightarrow> string \<Rightarrow> (string \<times> bool) res" where
  "handshake_phase sha1 config scramble peer client_data =
     (case parse_client_handshake client_data of
        Inl (Panic why) \<Rightarrow> Inl (Panic why)
      | Inl (Fail e) \<Rightarrow> Inr (build_err_packet 1045 ''28000'' (''Bad handshake: '' @ e), False)
      | Inr h \<Rightarrow>
          if credentials_ok sha1 config scramble h then Inr (build_ok_packet 0 0, True)
          else Inr (build_err_packet 1045 ''28000''
                 (''Access denied for user '' @ quoted (ch_username h) @ ''@'' @ quoted peer), False))"

section \<open>Commands\<close>

definition COM_QUIT :: nat where "COM_QUIT = 0x01"
definition COM_INIT_DB :: nat where "COM_INIT_DB = 0x02"
definition COM_QUERY :: nat where "COM_QUERY = 0x03"
definition COM_FIELD_LIST :: nat where "COM_FIELD_LIST = 0x04"
definition COM_PING :: nat where "COM_PING = 0x0E"
definition COM_STMT_PREPARE :: nat where "COM_STMT_PREPARE = 0x16"
definition COM_STMT_EXECUTE :: nat where "COM_STMT_EXECUTE = 0x17"
definition COM_STMT_SEND_LONG_DATA :: nat where "COM_STMT_SEND_LONG_DATA = 0x18"
definition COM_STMT_CLOSE :: nat where "COM_STMT_CLOSE = 0x19"
definition COM_STMT_RESET :: nat where "COM_STMT_RESET = 0x1A"

lemmas commands = COM_QUIT_def COM_INIT_DB_def COM_QUERY_def COM_FIELD_LIST_def COM_PING_def COM_STMT_PREPARE_def
  COM_STMT_EXECUTE_def COM_STMT_SEND_LONG_DATA_def COM_STMT_CLOSE_def COM_STMT_RESET_def

record wire_conn =
  wc_session :: session
  wc_prepared :: "(nat, wire_statement) hmap"
  wc_next_id :: nat

definition wire_conn_new :: wire_conn where
  "wire_conn_new = \<lparr>wc_session = session_new, wc_prepared = [], wc_next_id = 1\<rparr>"

text \<open>A command ends the connection, answers with packets, or has no answer.\<close>

datatype reply = CloseConnection | Replies "string list" | NoReply

definition is_in_transaction :: "session \<Rightarrow> bool" where
  "is_in_transaction ss \<longleftrightarrow> ss_transaction ss \<noteq> None"

definition session_status :: "session \<Rightarrow> 16 word" where
  "session_status ss =
     (if is_in_transaction ss then SERVER_STATUS_AUTOCOMMIT OR SERVER_STATUS_IN_TRANS else SERVER_STATUS_AUTOCOMMIT)"

type_synonym wire_step = "(reply \<times> database \<times> wire_conn) res"

definition command_query :: "platform \<Rightarrow> (string \<Rightarrow> bool) \<Rightarrow> io \<Rightarrow> database \<Rightarrow> wire_conn \<Rightarrow> string \<Rightarrow> wire_step" where
  "command_query pf unicode os db conn query =
     rbind (try_handle_system_query unicode query) (\<lambda>sys.
     rbind (case sys of
              Some r \<Rightarrow> Inr (r, db, wc_session conn)
            | None \<Rightarrow> session_execute pf os db (wc_session conn) query) (\<lambda>(r, db1, ss1).
       Inr (Replies (encode_result r (session_status ss1)), db1, conn\<lparr>wc_session := ss1\<rparr>)))"

definition prepare_packets :: "nat \<Rightarrow> nat \<Rightarrow> (string \<times> data_type) list \<Rightarrow> string list" where
  "prepare_packets statement_id count metadata =
     [build_stmt_prepare_ok statement_id (length metadata) count] @
     map (\<lambda>i. build_column_def (''param'' @ show_nat (i + 1)) [] MYSQL_TYPE_VAR_STRING 0) [0..<count] @
     (if count > 0 then [build_eof_packet_with_status SERVER_STATUS_AUTOCOMMIT] else []) @
     map (\<lambda>(name, t). build_column_def name [] (datatype_to_mysql t) (column_flags t True False)) metadata @
     (if metadata \<noteq> [] then [build_eof_packet_with_status SERVER_STATUS_AUTOCOMMIT] else [])"

definition command_prepare :: "platform \<Rightarrow> database \<Rightarrow> wire_conn \<Rightarrow> string \<Rightarrow> wire_step" where
  "command_prepare pf db conn sql =
     (case session_prepare pf db sql of
        (Inl (Panic why), db1) \<Rightarrow> Inl (Panic why)
      | (Inl (Fail e), db1) \<Rightarrow> Inr (Replies [build_err_packet 1064 ''42000'' e], db1, conn)
      | (Inr p, db1) \<Rightarrow>
          let id = wc_next_id conn; metadata = prepared_result_metadata db1 p None
          in Inr (Replies (prepare_packets id (ps_parameter_count p) metadata), db1,
               conn\<lparr>wc_next_id := max ((id + 1) mod 2 ^ 32) 1,
                    wc_prepared := AList.update id
                      \<lparr>ws_prepared = p, ws_parameter_types = [], ws_long_data = []\<rparr> (wc_prepared conn)\<rparr>))"

definition statement_id :: "string \<Rightarrow> nat" where
  "statement_id data = from_le (take 4 (drop 1 data))"

definition unknown_statement :: string where
  "unknown_statement = build_err_packet 1243 ''HY000'' ''Unknown prepared statement handler''"

definition command_execute :: "platform \<Rightarrow> io \<Rightarrow> database \<Rightarrow> wire_conn \<Rightarrow> string \<Rightarrow> wire_step" where
  "command_execute pf os db conn data =
     (if length data < 10
      then Inr (Replies [build_err_packet 1243 ''HY000'' ''Invalid statement execute packet''], db, conn)
      else case map_of (wc_prepared conn) (statement_id data) of
        None \<Rightarrow> Inr (Replies [unknown_statement], db, conn)
      | Some st \<Rightarrow>
          (case decode_stmt_parameters data st of
             (Inl (Panic why), st1) \<Rightarrow> Inl (Panic why)
           | (Inl (Fail e), st1) \<Rightarrow>
               Inr (Replies [build_err_packet 1210 ''HY000'' e], db,
                    conn\<lparr>wc_prepared := AList.update (statement_id data) st1 (wc_prepared conn)\<rparr>)
           | (Inr vs, st1) \<Rightarrow>
               let metadata = prepared_result_metadata db (ws_prepared st1) (Some vs);
                   conn1 = conn\<lparr>wc_prepared := AList.update (statement_id data) st1 (wc_prepared conn)\<rparr>
               in rbind (session_execute_prepared pf os db (wc_session conn1) (ws_prepared st1) vs) (\<lambda>(r, db1, ss1).
                    Inr (Replies (encode_prepared_result r metadata (session_status ss1)), db1, conn1\<lparr>wc_session := ss1\<rparr>))))"

definition command_long_data :: "wire_conn \<Rightarrow> string \<Rightarrow> wire_conn" where
  "command_long_data conn data =
     (if length data < 7 then conn
      else case map_of (wc_prepared conn) (statement_id data) of
        None \<Rightarrow> conn
      | Some st \<Rightarrow>
          let i = from_le (take 2 (drop 5 data));
              old = (case map_of (ws_long_data st) i of Some s \<Rightarrow> s | None \<Rightarrow> []);
              st1 = st\<lparr>ws_long_data := AList.update i (old @ drop 7 data) (ws_long_data st)\<rparr>
          in conn\<lparr>wc_prepared := AList.update (statement_id data) st1 (wc_prepared conn)\<rparr>)"

definition command_reset :: "wire_conn \<Rightarrow> string \<Rightarrow> string \<times> wire_conn" where
  "command_reset conn data =
     (if length data < 5 then (build_err_packet 1243 ''HY000'' ''Invalid statement reset packet'', conn)
      else case map_of (wc_prepared conn) (statement_id data) of
        Some st \<Rightarrow> (build_ok_packet 0 0,
          conn\<lparr>wc_prepared := AList.update (statement_id data) (st\<lparr>ws_long_data := []\<rparr>) (wc_prepared conn)\<rparr>)
      | None \<Rightarrow> (unknown_statement, conn))"

definition handle_command :: "platform \<Rightarrow> (string \<Rightarrow> bool) \<Rightarrow> io \<Rightarrow> database \<Rightarrow> wire_conn \<Rightarrow> string \<Rightarrow> wire_step" where
  "handle_command pf unicode os db conn data =
     (if data = [] then Inr (CloseConnection, db, conn)
      else let cmd = of_char (hd data) :: nat in
        if cmd = COM_QUIT then Inr (CloseConnection, db, conn)
        else if cmd = COM_PING \<or> cmd = COM_INIT_DB then Inr (Replies [build_ok_packet 0 0], db, conn)
        else if cmd = COM_FIELD_LIST then Inr (Replies [build_eof_packet], db, conn)
        else if cmd = COM_QUERY then command_query pf unicode os db conn (from_utf8_lossy (tl data))
        else if cmd = COM_STMT_PREPARE then command_prepare pf db conn (from_utf8_lossy (tl data))
        else if cmd = COM_STMT_EXECUTE then command_execute pf os db conn data
        else if cmd = COM_STMT_SEND_LONG_DATA then Inr (NoReply, db, command_long_data conn data)
        else if cmd = COM_STMT_RESET
        then (case command_reset conn data of (p, conn1) \<Rightarrow> Inr (Replies [p], db, conn1))
        else if cmd = COM_STMT_CLOSE
        then Inr (NoReply, db,
          if 5 \<le> length data then conn\<lparr>wc_prepared := AList.delete (statement_id data) (wc_prepared conn)\<rparr> else conn)
        else Inr (Replies [build_err_packet 1047 ''08S01''
               (''Unsupported command: 0x'' @ to_ascii_uppercase (show_hex 2 cmd))], db, conn))"

text \<open>
  The command loop over the packets that arrive, with the file operations of each and whether
  its answer could be written; the bytes sent are collected.
\<close>

fun command_loop ::
  "platform \<Rightarrow> (string \<Rightarrow> bool) \<Rightarrow> database \<Rightarrow> wire_conn \<Rightarrow> (string \<times> io \<times> bool) list \<Rightarrow> (string \<times> database) res" where
  "command_loop pf unicode db conn [] = Inr ([], db)"
| "command_loop pf unicode db conn ((data, os, written) # packets) =
     rbind (handle_command pf unicode os db conn data) (\<lambda>(answer, db1, conn1).
       case answer of
         CloseConnection \<Rightarrow> Inr ([], db1)
       | NoReply \<Rightarrow> command_loop pf unicode db1 conn1 packets
       | Replies ps \<Rightarrow>
           if written
           then rbind (command_loop pf unicode db1 conn1 packets) (\<lambda>(out, db2). Inr (write_packets 1 ps @ out, db2))
           else Inr ([], db1))"

text \<open>
  What the peer and the network do: whether the greeting could be written, the payload of the
  packet that answers it (\<open>None\<close> when none can be read), whether the answer to that could be
  written, and the commands that follow. The bytes sent are collected.
\<close>

record client_link =
  cl_peer :: string
  cl_greeting_written :: bool
  cl_response :: "string option"
  cl_answer_written :: bool
  cl_packets :: "(string \<times> io \<times> bool) list"

definition handle_connection ::
  "platform \<Rightarrow> (string \<Rightarrow> string) \<Rightarrow> (string \<Rightarrow> bool) \<Rightarrow> server_config \<Rightarrow> nat \<Rightarrow> nat \<Rightarrow> nat \<Rightarrow> database
     \<Rightarrow> client_link \<Rightarrow> (string \<times> database) res" where
  "handle_connection pf sha1 unicode config conn_id nanos process_id db link =
     (let scramble = generate_scramble sha1 conn_id nanos process_id;
          greeting = write_packet 0 (build_handshake_v10 conn_id scramble)
      in if \<not> cl_greeting_written link then Inr ([], db)
         else case cl_response link of
           None \<Rightarrow> Inr (greeting, db)
         | Some client_data \<Rightarrow>
             rbind (handshake_phase sha1 config scramble (cl_peer link) client_data) (\<lambda>(answer, accepted).
               if \<not> cl_answer_written link then Inr (greeting, db)
               else if \<not> accepted then Inr (greeting @ write_packet 2 answer, db)
               else rbind (command_loop pf unicode db wire_conn_new (cl_packets link)) (\<lambda>(out, db1).
                 Inr (greeting @ write_packet 2 answer @ out, db1))))"

section \<open>Frames are read back\<close>

lemma and_255: "n AND 255 = n mod (256 :: nat)"
proof -
  have "n AND 255 = n AND mask 8" by (simp add: mask_eq_exp_minus_1)
  also have "\<dots> = n mod 256" by (simp flip: take_bit_eq_mask add: take_bit_eq_mod)
  finally show ?thesis .
qed

lemma header_length: "from_le (take 3 (write_packet seq p)) = length p mod 2 ^ 24"
proof -
  have "n mod 256 + 256 * (n div 256 mod 256 + 256 * (n div 65536 mod 256)) = n mod 16777216" for n :: nat
    using mod_mult2_eq [of n 256 65536] mod_mult2_eq [of "n div 256" 256 256] by (simp add: div_mult2_eq [symmetric])
  then show ?thesis
    by (simp add: write_packet_def Let_def and_255 drop_bit_eq_div)
qed

text \<open>A frame takes its payload's length modulo \<open>2 ^ 24\<close>.\<close>

lemma read_packet_written:
  "read_packet (write_packet seq p @ rest) =
     Some ((seq mod 256, take (length p mod 2 ^ 24) p), drop (length p mod 2 ^ 24) p @ rest)"
proof -
  have len: "length (write_packet seq p) = 4 + length p" by (simp add: write_packet_def Let_def)
  have "length p mod 2 ^ 24 \<le> length p" by (rule mod_less_eq_dividend)
  moreover have "(write_packet seq p @ rest) ! 3 = byte seq" "drop 4 (write_packet seq p @ rest) = p @ rest"
    by (simp_all add: write_packet_def Let_def)
  moreover have "from_le (take 3 (write_packet seq p @ rest)) = length p mod 2 ^ 24"
    using header_length [of seq p] len by simp
  ultimately show ?thesis using len by (simp add: read_packet_def Let_def)
qed

lemma packet_round_trip:
  "length p < 2 ^ 24 \<Longrightarrow> seq < 256 \<Longrightarrow> read_packet (write_packet seq p @ rest) = Some ((seq, p), rest)"
  by (simp add: read_packet_written)

text \<open>Frames as messages: the answers of a command, numbered from its sequence number on, are read back.\<close>

definition frame_ok :: "nat \<times> string \<Rightarrow> bool" where
  "frame_ok f \<longleftrightarrow> fst f < 256 \<and> length (snd f) < 2 ^ 24"

interpretation frames: message_codec "\<lambda>f. write_packet (fst f) (snd f)" read_packet id frame_ok
  by unfold_locales (simp add: frame_ok_def packet_round_trip)

definition numbered :: "nat \<Rightarrow> string list \<Rightarrow> (nat \<times> string) list" where
  "numbered seq ps = zip (map (\<lambda>i. (seq + i) mod 256) [0..<length ps]) ps"

lemma write_packets_frames:
  "seq < 256 \<Longrightarrow> write_packets seq ps = concat (map (\<lambda>f. write_packet (fst f) (snd f)) (numbered seq ps))"
proof (induction ps arbitrary: seq)
  case (Cons p ps)
  have "map (\<lambda>i. (seq + i) mod 256) [0..<length (p # ps)] = seq # map (\<lambda>i. ((seq + 1) mod 256 + i) mod 256) [0..<length ps]"
    using Cons.prems by (simp add: map_upt_Suc mod_add_left_eq add.assoc del: upt_Suc)
  with Cons.IH [of "(seq + 1) mod 256"] show ?case by (simp add: numbered_def)
qed (simp add: numbered_def)

lemma packets_round_trip:
  assumes "\<forall>p \<in> set ps. length p < 2 ^ 24" "seq < 256"
  shows "decode_n read_packet (length ps) (write_packets seq ps @ rest) = Some (numbered seq ps, rest)"
proof -
  have "\<forall>f \<in> set (numbered seq ps). frame_ok f"
    using assms(1) by (auto simp: numbered_def frame_ok_def set_zip)
  from frames.read_back_all [OF this, of rest] show ?thesis
    by (simp add: write_packets_frames [OF assms(2)]) (simp add: numbered_def)
qed

section \<open>Nothing runs before authentication\<close>

lemma handshake_total: "\<exists>answer accepted. handshake_phase sha1 config scramble peer client_data = Inr (answer, accepted)"
proof (cases "parse_client_handshake client_data")
  case (Inl e)
  then show ?thesis using handshake_no_panic [of client_data] by (cases e) (auto simp: handshake_phase_def)
qed (auto simp: handshake_phase_def)

text \<open>With a configured user and password, a client that does not know both is refused.\<close>

lemma credentials_iff:
  assumes "auth_required config" "\<And>s. length (sha1 s) = 20" "sc_password config \<noteq> Some []"
  shows "credentials_ok sha1 config scramble h \<longleftrightarrow> Some (ch_username h) = sc_username config \<and>
     ch_auth_response h = native_response sha1 (the (sc_password config)) scramble"
  using assms(1,3) verify_iff [of sha1, OF assms(2)] by (auto simp: credentials_ok_def auth_required_def)

lemma unauthenticated_unchanged:
  assumes "auth_required config" "\<And>s. length (sha1 s) = 20" "sc_password config \<noteq> Some []"
    and "\<And>data h. cl_response link = Some data \<Longrightarrow> parse_client_handshake data = Inr h \<Longrightarrow> Some (ch_username h) = sc_username config \<Longrightarrow>
       ch_auth_response h \<noteq> native_response sha1 (the (sc_password config)) (generate_scramble sha1 conn_id nanos process_id)"
  shows "\<exists>out. handle_connection pf sha1 unicode config conn_id nanos process_id db link = Inr (out, db)"
proof (cases "cl_response link")
  case (Some data)
  let ?scramble = "generate_scramble sha1 conn_id nanos process_id"
  obtain answer accepted where phase: "handshake_phase sha1 config ?scramble (cl_peer link) data = Inr (answer, accepted)"
    using handshake_total by blast
  have "\<not> accepted"
    using phase assms(4) [OF Some] credentials_iff [OF assms(1-3)]
    by (auto simp: handshake_phase_def split: sum.splits error.splits if_splits)
  with phase Some show ?thesis by (simp add: handle_connection_def Let_def)
qed (simp add: handle_connection_def Let_def)

section \<open>Decoding parameters stays inside the packet\<close>

lemma take_bytes_no_panic: "pos \<le> length data \<Longrightarrow> take_bytes data pos len \<noteq> Inl (Panic why)"
  by (auto simp: take_bytes_def slice_def)

lemma take_bytes_Inr:
  assumes "take_bytes data pos len = Inr (s, at)" "pos \<le> length data"
  shows "at = pos + len \<and> at \<le> length data"
  using assms by (auto simp: take_bytes_def slice_def rbind_Inr_iff split: if_splits)

lemma rbind_no_panic:
  assumes "m \<noteq> Inl (Panic why)" "\<And>x. m = Inr x \<Longrightarrow> f x \<noteq> Inl (Panic why)"
  shows "rbind m f \<noteq> Inl (Panic why)"
  using assms by (cases m) auto

lemma read_text_no_panic: "read_text msg s \<noteq> Inl (Panic why)"
  by (simp add: read_text_def)

lemma decode_parameter_no_panic:
  assumes "pos \<le> length data"
  shows "decode_parameter data type pos \<noteq> Inl (Panic why)"
proof -
  have taken: "rbind (take_bytes data pos k) f \<noteq> Inl (Panic why)" if "\<And>s at. f (s, at) \<noteq> Inl (Panic why)" for k f
    using take_bytes_no_panic [OF assms] that by (intro rbind_no_panic) auto
  have str: "rbind (take_bytes data at len) (\<lambda>(raw, at'). rbind (read_text msg raw) (\<lambda>v. Inr (v, at'))) \<noteq> Inl (Panic why)"
    if "read_lenenc_int data pos = (Some len, at)" for len at msg
    by (rule rbind_no_panic [OF take_bytes_no_panic [OF read_lenenc_bound [OF that]]])
      (auto simp: rbind_no_panic read_text_no_panic)
  show ?thesis
    unfolding decode_parameter_def Let_def
    by (simp add: taken split: prod.split option.split) (auto simp: str)
qed

lemma decode_parameter_bound:
  assumes "decode_parameter data type pos = Inr (v, at)" "pos \<le> length data"
  shows "at \<le> length data"
  using assms
  by (auto simp: decode_parameter_def Let_def rbind_Inr_iff dest!: take_bytes_Inr
      split: if_splits prod.splits option.splits intro: read_lenenc_bound)

lemma decode_parameters_no_panic:
  assumes "pos \<le> length data" "\<forall>i \<in> set indices. i < length (ws_parameter_types st)"
  shows "fst (decode_parameters data null_bits indices pos st) \<noteq> Inl (Panic why)"
  using assms
proof (induction indices arbitrary: pos st)
  case (Cons i ks)
  have rest: "fst (case decode_parameters data null_bits ks at st' of (r, st'') \<Rightarrow> (rbind r (\<lambda>vs. Inr (v # vs)), st'')) \<noteq> Inl (Panic why)"
    if "at \<le> length data" "ws_parameter_types st' = ws_parameter_types st" for at st' v
    using Cons.IH [of at st'] Cons.prems(2) that by (auto simp: rbind_no_panic split: prod.splits)
  have idx: "idx (ws_parameter_types st) i = Inr (ws_parameter_types st ! i)" using Cons.prems(2) by (simp add: idx_def)
  show ?case
    using Cons.prems(1) rest read_text_no_panic decode_parameter_no_panic [OF Cons.prems(1)]
      decode_parameter_bound [OF _ Cons.prems(1)]
    by (auto simp: Let_def idx split: option.splits sum.splits)
qed simp

lemma read_types_ok:
  assumes "pos + 2 * count \<le> length data"
  shows "read_types data pos count = Inr (map (\<lambda>i. from_le (take 2 (drop (pos + 2 * i) data))) [0..<count])"
proof -
  have "res_map (\<lambda>i. rbind (slice data (pos + 2 * i) (pos + 2 * i + 2)) (\<lambda>s. Inr (from_le s))) ks =
      Inr (map (\<lambda>i. from_le (take 2 (drop (pos + 2 * i) data))) ks)" if "\<forall>i \<in> set ks. i < count" for ks
    using that
  proof (induction ks)
    case (Cons i ks)
    then have "pos + 2 * i + 2 \<le> length data" using assms by simp
    with Cons show ?case by (simp add: slice_def)
  qed simp
  then show ?thesis by (simp add: read_types_def)
qed

lemma decode_no_panic: "fst (decode_stmt_parameters data st) \<noteq> Inl (Panic why)"
proof -
  let ?count = "ps_parameter_count (ws_prepared st)" and ?b = "(ps_parameter_count (ws_prepared st) + 7) div 8"
  show ?thesis
  proof (cases "length data < 10 \<or> length data - 10 < ?b + 1")
    case False
    then have room: "10 + ?b + 1 \<le> length data" by linarith
    then have bits: "slice data 10 (10 + ?b) = Inr (take ?b (drop 10 data))" by (simp add: slice_def)
    have "fst (decode_parameters data nb [0..<?count] pos (st\<lparr>ws_parameter_types := types\<rparr>)) \<noteq> Inl (Panic why)"
      if "length types = ?count" "pos \<le> length data" for nb pos types
      by (rule decode_parameters_no_panic) (use that in auto)
    moreover have "fst (decode_parameters data nb [0..<?count] pos st) \<noteq> Inl (Panic why)"
      if "length (ws_parameter_types st) = ?count" "pos \<le> length data" for nb pos
      by (rule decode_parameters_no_panic) (use that in auto)
    ultimately show ?thesis
      using room read_types_ok [of "10 + ?b + 1" ?count data]
      by (auto simp: decode_stmt_parameters_def Let_def bits)
  qed (auto simp: decode_stmt_parameters_def Let_def)
qed

section \<open>A client's parameters are read back\<close>

fun parameter_type :: "val \<Rightarrow> nat" where
  "parameter_type (VInteger _) = MYSQL_TYPE_LONGLONG"
| "parameter_type (VFloat _) = MYSQL_TYPE_DOUBLE"
| "parameter_type (VText _) = MYSQL_TYPE_VAR_STRING"
| "parameter_type (VBoolean _) = MYSQL_TYPE_TINY"
| "parameter_type VNull = MYSQL_TYPE_NULL"

definition sendable :: "val \<Rightarrow> bool" where
  "sendable v = (case v of VText s \<Rightarrow> utf8_valid s \<and> length s < 2 ^ 64 | VBoolean _ \<Rightarrow> False | _ \<Rightarrow> True)"

definition execute_packet :: "nat \<Rightarrow> val list \<Rightarrow> string" where
  "execute_packet statement vs =
     ([byte 0x17] @ le_bytes 4 statement @ [byte 0] @ le_bytes 4 1) @
     mark_nulls 0 (replicate ((length vs + 7) div 8) (byte 0)) (enumerate 0 vs) @ [byte 1] @
     concat (map (\<lambda>v. le_bytes 2 (parameter_type v)) vs) @ concat (map binary_cell vs)"

lemma take_bytes_append: "take_bytes (pre @ s @ rest) (length pre) (length s) = Inr (s, length pre + length s)"
  by (simp add: take_bytes_def slice_def)

lemma decode_parameter_append:
  assumes "sendable v" "v \<noteq> VNull"
  shows "decode_parameter (pre @ binary_cell v @ rest) (parameter_type v) (length pre) = Inr (v, length pre + length (binary_cell v))"
proof (cases v)
  case (VText s)
  with assms have s: "utf8_valid s" "length s < 2 ^ 64" by (auto simp: sendable_def)
  let ?n = "encode_lenenc_int (length s)"
  have "read_lenenc_int (pre @ ?n @ s @ rest) (length pre) = (Some (length s), length pre + length ?n)"
    by (rule read_lenenc_append [OF s(2)])
  moreover have "take_bytes (pre @ ?n @ s @ rest) (length pre + length ?n) (length s) = Inr (s, length pre + length ?n + length s)"
    using take_bytes_append [of "pre @ ?n" s rest] by simp
  ultimately show ?thesis
    by (simp add: VText decode_parameter_def mysql_types binary_cell_def encode_lenenc_str_def read_text_def s(1) Let_def)
qed (use assms take_bytes_append [of pre "binary_cell v" rest] in
    \<open>auto simp: sendable_def decode_parameter_def mysql_types binary_cell_def word_bytes_64 Let_def bit_numeral_rec\<close>)

lemma decode_parameters_append:
  assumes "\<forall>v \<in> set vs. sendable v" "ws_long_data st = []"
    and "\<And>j. j < length vs \<Longrightarrow> get null_bits ((i + j) div 8) = Some (null_bits ! ((i + j) div 8)) \<and>
       (null_bit_set null_bits (i + j) \<longleftrightarrow> vs ! j = VNull)"
    and "\<And>j. j < length vs \<Longrightarrow> get (ws_parameter_types st) (i + j) = Some (parameter_type (vs ! j))"
  shows "decode_parameters (pre @ concat (map binary_cell vs)) null_bits [i..<i + length vs] (length pre) st = (Inr vs, st)"
  using assms
proof (induction vs arbitrary: i pre)
  case (Cons v vs)
  have "decode_parameters ((pre @ binary_cell v) @ concat (map binary_cell vs)) null_bits [Suc i..<Suc i + length vs]
      (length (pre @ binary_cell v)) st = (Inr vs, st)"
    using Cons.prems(1,2) Cons.prems(3) [of "Suc j" for j] Cons.prems(4) [of "Suc j" for j] by (intro Cons.IH) auto
  then have rest: "decode_parameters (pre @ binary_cell v @ concat (map binary_cell vs)) null_bits [Suc i..<Suc i + length vs]
      (length pre + length (binary_cell v)) st = (Inr vs, st)" by simp
  have indices: "[i..<i + length (v # vs)] = i # [Suc i..<Suc i + length vs]"
    by (simp add: upt_conv_Cons del: upt_Suc)
  have bits: "(case get null_bits (i div 8) of Some b \<Rightarrow> bit (of_char b :: nat) (i mod 8) | None \<Rightarrow> False) \<longleftrightarrow> v = VNull"
    using Cons.prems(3) [of 0] by (simp add: null_bit_set_def)
  have type: "idx (ws_parameter_types st) i = Inr (parameter_type v)"
    using Cons.prems(4) [of 0] by (simp add: get_def idx_def split: if_splits)
  show ?case
  proof (cases "v = VNull")
    case True
    with rest bits show ?thesis unfolding indices by (simp add: Let_def)
  next
    case False
    with decode_parameter_append [of v pre "concat (map binary_cell vs)"] Cons.prems(1,2) rest bits type
    show ?thesis unfolding indices by (simp add: Let_def)
  qed
qed simp

lemma length_types: "length (concat (map (\<lambda>v. le_bytes 2 (parameter_type v)) vs)) = 2 * length vs"
  by (induction vs) simp_all

lemma types_at:
  "i < length vs \<Longrightarrow> take 2 (drop (2 * i) (concat (map (\<lambda>v. le_bytes 2 (parameter_type v)) vs) @ rest)) = le_bytes 2 (parameter_type (vs ! i))"
proof (induction vs arbitrary: i)
  case (Cons v vs)
  then show ?case by (cases i) simp_all
qed simp

lemma parameter_type_small: "from_le (le_bytes 2 (parameter_type v)) = parameter_type v"
  by (cases v) (simp_all add: from_le_bytes mysql_types)

lemma execute_round_trip:
  assumes "\<forall>v \<in> set vs. sendable v" "ws_long_data st = []" "ps_parameter_count (ws_prepared st) = length vs"
  shows "decode_stmt_parameters (execute_packet statement vs) st =
     (Inr vs, st\<lparr>ws_parameter_types := map parameter_type vs\<rparr>)"
proof -
  let ?head = "[byte 0x17] @ le_bytes 4 statement @ [byte 0] @ le_bytes 4 1"
  let ?n = "(length vs + 7) div 8"
  let ?bm = "mark_nulls 0 (replicate ?n (byte 0)) (enumerate 0 vs)"
  let ?types = "concat (map (\<lambda>v. le_bytes 2 (parameter_type v)) vs)"
  let ?data = "execute_packet statement vs" and ?st = "st\<lparr>ws_parameter_types := map parameter_type vs\<rparr>"
  have head: "length ?head = 10" by simp
  have data: "?data = (?head @ ?bm @ [byte 1] @ ?types) @ concat (map binary_cell vs)" by (simp add: execute_packet_def)
  have len: "length (?head @ ?bm @ [byte 1] @ ?types) = 11 + ?n + 2 * length vs" by (simp add: length_types)
  have bits: "slice ?data 10 (10 + ?n) = Inr ?bm" by (simp add: slice_def execute_packet_def)
  have flag: "?data ! (10 + ?n) = byte 1" by (simp add: execute_packet_def nth_append)
  have types: "read_types ?data (11 + ?n) (length vs) = Inr (map parameter_type vs)"
  proof -
    have "drop (11 + ?n + k) ?data = drop k (?types @ concat (map binary_cell vs))" for k
    proof -
      let ?pre = "?head @ ?bm @ [byte 1]"
      have "drop (length ?pre + k) (?pre @ xs) = drop k xs" for xs :: string by (simp only: drop_append) simp
      moreover have "length ?pre = 11 + ?n" by simp
      ultimately show ?thesis unfolding execute_packet_def by (metis append.assoc)
    qed
    then have "from_le (take 2 (drop (11 + ?n + 2 * i) ?data)) = parameter_type (vs ! i)" if "i < length vs" for i
      using types_at [OF that, of "concat (map binary_cell vs)"] parameter_type_small by metis
    then have "map (\<lambda>i. from_le (take 2 (drop (11 + ?n + 2 * i) ?data))) [0..<length vs] = map parameter_type vs"
      by (intro nth_equalityI) simp_all
    moreover have "11 + ?n + 2 * length vs \<le> length ?data" using len by (simp add: data)
    ultimately show ?thesis by (simp add: read_types_ok)
  qed
  have "decode_parameters ((?head @ ?bm @ [byte 1] @ ?types) @ concat (map binary_cell vs)) ?bm [0..<0 + length vs]
      (length (?head @ ?bm @ [byte 1] @ ?types)) ?st = (Inr vs, ?st)"
  proof (rule decode_parameters_append)
    fix j assume j: "j < length vs"
    then have "j div 8 < ?n" by linarith
    with j mark_nulls_enumerate [of j vs 0 ?n]
    show "get ?bm ((0 + j) div 8) = Some (?bm ! ((0 + j) div 8)) \<and> (null_bit_set ?bm (0 + j) \<longleftrightarrow> vs ! j = VNull)"
      by (simp add: get_def)
    show "get (ws_parameter_types ?st) (0 + j) = Some (parameter_type (vs ! j))" using j by (simp add: get_def)
  qed (use assms in simp_all)
  then have loop: "decode_parameters ?data ?bm [0..<length vs] (11 + ?n + 2 * length vs) ?st = (Inr vs, ?st)"
    unfolding len data by simp
  have sizes: "\<not> length ?data < 10" "\<not> length ?data - 10 < ?n + 1" "\<not> length ?data - (11 + ?n) < length vs * 2"
    using len by (simp_all add: data)
  have not0: "byte 1 \<noteq> byte 0" by (simp add: byte_eq_iff)
  show ?thesis
    using sizes not0 loop by (simp add: decode_stmt_parameters_def assms(3) Let_def bits flag types add.commute add.left_commute)
qed

section \<open>Where the code reads something else\<close>

text \<open>
  Character positions used as byte positions: behind a two-byte character the name of a
  system variable is cut one byte too early, and the variable is not found.
\<close>

definition accented_query :: string where
  "accented_query = ''SELECT '' @ [CHR 0x27, CHR 0xC3, CHR 0xA9, CHR 0x27] @ '', @@autocommit''"

lemma sysvar_misread:
  "handle_sysvar_query unicode ''SELECT 1, @@autocommit'' = Inr (text_result [''@@autocommit''] [[VText ''1'']]) \<and>
   handle_sysvar_query unicode accented_query = Inr (text_result ['' @@autocommi''] [[VText []]])"
  by code_simp

text \<open>
  The columns of a prepared query over a derived table are declared as text, whatever their
  type; an integer in such a column is sent in eight bytes that a client reads as a string.
\<close>

lemma derived_column_metadata:
  "query_from q = Some (Derived sub alias) \<Longrightarrow> query_projection q = [SelectExpr (Column qual name) None] \<Longrightarrow>
   ps_statement p = QueryStatement q \<Longrightarrow> prepared_result_metadata db p None = [(name, DText)]"
  by (simp add: prepared_result_metadata_def item_metadata_def)

lemma integer_read_as_text:
  "decode_binary_row [DText] (build_binary_row [VInteger n]) \<noteq> Some [VInteger n]"
  by (auto simp: decode_binary_row_def split: option.splits prod.splits if_splits)

end
