(* ===== verification/Server.thy ===== *)
theory Server
  imports Config Display KvStore Wire
begin

text \<open>
  The HTTP server of \<^verbatim>\<open>src/src/server.rs\<close>: the state it shares, the routes, the check of
  the credentials and every handler. A handler takes what the framework extracts from the
  request and returns the response with the state behind it; the framework itself (matching
  of paths, JSON of bodies, base64, header text) is a parameter. The lemmas show that
  only \<open>/health\<close> answers a client without credentials and what a request can change,
  that what a client sets it gets, and where responses and fallbacks hide a failure.
\<close>

section \<open>Responses\<close>

datatype json = JNull | JBool bool | JInt int | JFloat f64 | JString string | JArray "json list" | JObject "(string \<times> json) list"

record value_response =
  vr_key :: string
  vr_value :: "string option"
  vr_exists :: bool

record store_info =
  si_keys_count :: nat
  si_is_empty :: bool
  si_wal_size_bytes :: nat

record column_info =
  ci_name :: string
  ci_data_type :: string
  ci_nullable :: bool
  ci_primary_key :: bool

record sql_response =
  sr_query :: string
  sr_result_type :: string
  sr_rows_affected :: "nat option"
  sr_table_name :: "string option"
  sr_tables :: "string list option"
  sr_columns :: "string list option"
  sr_rows :: "json list list option"
  sr_schema :: "column_info list option"
  sr_message :: "string option"

datatype api_data =
    ValueData value_response
  | ValuesData "value_response list"
  | InfoData store_info
  | SqlData sql_response
  | JsonData json

record api_response =
  ar_success :: bool
  ar_data :: "api_data option"
  ar_error :: "string option"

definition api_success :: "api_data \<Rightarrow> api_response" where
  "api_success d = \<lparr>ar_success = True, ar_data = Some d, ar_error = None\<rparr>"

definition api_error :: "string \<Rightarrow> api_response" where
  "api_error msg = \<lparr>ar_success = False, ar_data = None, ar_error = Some msg\<rparr>"

record http_response =
  hr_status :: nat
  hr_challenge :: "string option"
  hr_body :: api_response

definition respond :: "nat \<Rightarrow> api_response \<Rightarrow> http_response" where
  "respond status body = \<lparr>hr_status = status, hr_challenge = None, hr_body = body\<rparr>"

definition OK :: nat where "OK = 200"
definition BAD_REQUEST :: nat where "BAD_REQUEST = 400"
definition UNAUTHORIZED :: nat where "UNAUTHORIZED = 401"
definition NOT_FOUND :: nat where "NOT_FOUND = 404"
definition INTERNAL_SERVER_ERROR :: nat where "INTERNAL_SERVER_ERROR = 500"

lemmas status_codes = OK_def BAD_REQUEST_def UNAUTHORIZED_def NOT_FOUND_def INTERNAL_SERVER_ERROR_def

section \<open>Credentials\<close>

text \<open>What the header and base64 libraries do with the bytes of the \<open>Authorization\<close> header.\<close>

record http_platform =
  hp_to_str :: "string \<Rightarrow> string option"
  hp_base64 :: "string \<Rightarrow> string option"

definition unauthorized :: "string \<Rightarrow> http_response" where
  "unauthorized msg = respond UNAUTHORIZED (api_error msg)"

text \<open>The response that refuses a request, \<open>None\<close> when it goes on to its handler.\<close>

definition auth_middleware :: "http_platform \<Rightarrow> server_config \<Rightarrow> string option \<Rightarrow> http_response option" where
  "auth_middleware hp config authorization =
     (if \<not> auth_required config then None
      else case authorization of
        None \<Rightarrow> Some ((unauthorized ''Authentication required'')\<lparr>hr_challenge := Some ''Basic realm=\"RustyDB\"''\<rparr>)
      | Some h \<Rightarrow>
         (case hp_to_str hp h of
            None \<Rightarrow> Some (unauthorized ''Invalid authorization header'')
          | Some auth_str \<Rightarrow>
              if \<not> starts_with_str auth_str ''Basic '' then Some (unauthorized ''Basic authentication required'')
              else (case hp_base64 hp (drop 6 auth_str) of
                 None \<Rightarrow> Some (unauthorized ''Invalid base64 encoding'')
               | Some decoded \<Rightarrow>
                   if \<not> utf8_valid decoded then Some (unauthorized ''Invalid UTF-8 in credentials'')
                   else (case split_once (CHR '':'') decoded of
                      None \<Rightarrow> Some (unauthorized ''Invalid credentials format'')
                    | Some (user, pass) \<Rightarrow>
                        if user \<noteq> the (sc_username config) \<or> pass \<noteq> the (sc_password config)
                        then Some (unauthorized ''Invalid username or password'') else None))))"

section \<open>Handlers of the key-value store\<close>

record app_state =
  as_kv :: kv_store
  as_sql :: database
  as_config :: server_config

type_synonym handled = "(http_response \<times> app_state) res"

definition value_data :: "string \<Rightarrow> string option \<Rightarrow> api_response" where
  "value_data key v = api_success (ValueData \<lparr>vr_key = key, vr_value = v, vr_exists = v \<noteq> None\<rparr>)"

definition http_kv_get :: "app_state \<Rightarrow> string \<Rightarrow> http_response" where
  "http_kv_get st key = (case kv_get (as_kv st) key of
     Inr (Some v) \<Rightarrow> respond OK (value_data key (Some v))
   | Inr None \<Rightarrow> respond NOT_FOUND (value_data key None)
   | Inl _ \<Rightarrow> respond INTERNAL_SERVER_ERROR (value_data key None))"

definition set_response :: "string \<Rightarrow> string \<Rightarrow> unit res \<Rightarrow> http_response" where
  "set_response key v r = (case r of
     Inr _ \<Rightarrow> respond OK (value_data key (Some v))
   | Inl _ \<Rightarrow> respond INTERNAL_SERVER_ERROR (value_data key None))"

definition http_kv_set :: "kv_platform \<Rightarrow> io \<Rightarrow> app_state \<Rightarrow> string \<Rightarrow> string \<Rightarrow> http_response \<times> app_state" where
  "http_kv_set kp os st key v = (case kv_set kp os (as_kv st) key v of
     (r, s) \<Rightarrow> (set_response key v r, st\<lparr>as_kv := s\<rparr>))"

definition http_kv_set_async :: "app_state \<Rightarrow> string \<Rightarrow> string \<Rightarrow> http_response \<times> app_state" where
  "http_kv_set_async st key v = (case kv_set_async (as_kv st) key v of
     (r, s) \<Rightarrow> (set_response key v r, st\<lparr>as_kv := s\<rparr>))"

definition json_response :: "nat \<Rightarrow> (string \<times> json) list \<Rightarrow> http_response" where
  "json_response status entries = respond status (api_success (JsonData (JObject entries)))"

fun error_text :: "error \<Rightarrow> string" where
  "error_text (Fail e) = e"
| "error_text (Panic e) = e"

definition http_kv_delete :: "kv_platform \<Rightarrow> io \<Rightarrow> app_state \<Rightarrow> string \<Rightarrow> http_response \<times> app_state" where
  "http_kv_delete kp os st key = (case kv_delete kp os (as_kv st) key of
     (Inr deleted, s) \<Rightarrow>
       (json_response (if deleted then OK else NOT_FOUND) [(''key'', JString key), (''deleted'', JBool deleted)], st\<lparr>as_kv := s\<rparr>)
   | (Inl e, s) \<Rightarrow>
       (json_response INTERNAL_SERVER_ERROR
          [(''key'', JString key), (''deleted'', JBool False), (''error'', JString (error_text e))], st\<lparr>as_kv := s\<rparr>))"

definition http_kv_get_many :: "app_state \<Rightarrow> string list \<Rightarrow> http_response" where
  "http_kv_get_many st keys = (case kv_get_many (as_kv st) keys of
     Inr results \<Rightarrow> respond OK (api_success (ValuesData (map (\<lambda>key.
       let v = map_of results key in \<lparr>vr_key = key, vr_value = v, vr_exists = v \<noteq> None\<rparr>) keys)))
   | Inl _ \<Rightarrow> respond INTERNAL_SERVER_ERROR (api_success (ValuesData [])))"

definition http_kv_set_many ::
  "kv_platform \<Rightarrow> (nat \<Rightarrow> io) \<Rightarrow> app_state \<Rightarrow> (string \<times> string) list \<Rightarrow> http_response \<times> app_state" where
  "http_kv_set_many kp os st pairs = (case kv_set_many kp os (as_kv st) pairs of
     (Inr n, s) \<Rightarrow>
       (json_response OK [(''requested'', JInt (int (length pairs))), (''set'', JInt (int n))], st\<lparr>as_kv := s\<rparr>)
   | (Inl e, s) \<Rightarrow> (json_response INTERNAL_SERVER_ERROR [(''error'', JString (error_text e))], st\<lparr>as_kv := s\<rparr>))"

definition res_or :: "'a \<Rightarrow> 'a res \<Rightarrow> 'a" where
  "res_or d r = (case r of Inr v \<Rightarrow> v | Inl _ \<Rightarrow> d)"

definition http_kv_info :: "app_state \<Rightarrow> http_response" where
  "http_kv_info st = respond OK (api_success (InfoData
     \<lparr>si_keys_count = res_or 0 (kv_len (as_kv st)), si_is_empty = res_or True (kv_is_empty (as_kv st)),
      si_wal_size_bytes = res_or 0 (kv_store_wal_size (as_kv st))\<rparr>))"

definition flag_response :: "string \<Rightarrow> unit res \<Rightarrow> http_response" where
  "flag_response field r = (case r of
     Inr _ \<Rightarrow> json_response OK [(field, JBool True)]
   | Inl e \<Rightarrow> json_response INTERNAL_SERVER_ERROR [(field, JBool False), (''error'', JString (error_text e))])"

definition http_kv_clear :: "kv_platform \<Rightarrow> io \<Rightarrow> app_state \<Rightarrow> http_response \<times> app_state" where
  "http_kv_clear kp os st = (case kv_clear kp os (as_kv st) of
     (r, s) \<Rightarrow> (flag_response ''cleared'' r, st\<lparr>as_kv := s\<rparr>))"

definition http_kv_snapshot :: "kv_platform \<Rightarrow> (nat \<Rightarrow> io) \<Rightarrow> io \<Rightarrow> app_state \<Rightarrow> http_response \<times> app_state" where
  "http_kv_snapshot kp flush_os os st = (case kv_take_snapshot kp flush_os os (as_kv st) of
     (r, s) \<Rightarrow> (flag_response ''snapshot'' r, st\<lparr>as_kv := s\<rparr>))"

definition http_kv_flush :: "kv_platform \<Rightarrow> (nat \<Rightarrow> io) \<Rightarrow> app_state \<Rightarrow> http_response \<times> app_state" where
  "http_kv_flush kp os st = (case kv_store_flush kp os (as_kv st) of
     (r, s) \<Rightarrow> (flag_response ''flushed'' r, st\<lparr>as_kv := s\<rparr>))"

section \<open>Handlers of the SQL database\<close>

definition value_to_json :: "val \<Rightarrow> json" where
  "value_to_json v = (case v of
     VNull \<Rightarrow> JNull
   | VInteger i \<Rightarrow> JInt (sint i)
   | VFloat f \<Rightarrow> if f64_is_finite f then JFloat f else JNull
   | VText s \<Rightarrow> JString s
   | VBoolean b \<Rightarrow> JBool b)"

definition plain_response :: "string \<Rightarrow> string \<Rightarrow> sql_response" where
  "plain_response query kind = \<lparr>sr_query = query, sr_result_type = kind, sr_rows_affected = None, sr_table_name = None,
     sr_tables = None, sr_columns = None, sr_rows = None, sr_schema = None, sr_message = None\<rparr>"

definition column_info_of :: "column_def \<Rightarrow> column_info" where
  "column_info_of c = \<lparr>ci_name = col_name c, ci_data_type = data_type_name (col_data_type c),
     ci_nullable = col_nullable c, ci_primary_key = col_primary_key c\<rparr>"

text \<open>The data of the response to a statement that succeeded, or the message of its error.\<close>

definition sql_response_of :: "string \<Rightarrow> execution_result \<Rightarrow> string + sql_response" where
  "sql_response_of query r =
     (case r of
        RSelect rs \<Rightarrow> Inr ((plain_response query ''select'')\<lparr>
          sr_columns := Some (rs_columns rs), sr_rows := Some (map (map value_to_json) (rs_rows rs)),
          sr_message := Some (show_nat (length (rs_rows rs)) @ '' row(s) returned'')\<rparr>)
      | RowsAffected n \<Rightarrow> Inr ((plain_response query ''rows_affected'')\<lparr>
          sr_rows_affected := Some n, sr_message := Some (show_nat n @ '' row(s) affected'')\<rparr>)
      | TableCreated name \<Rightarrow> Inr ((plain_response query ''table_created'')\<lparr>
          sr_table_name := Some name, sr_message := Some (''Table '' @ quoted name @ '' created'')\<rparr>)
      | TableDropped name \<Rightarrow> Inr ((plain_response query ''table_dropped'')\<lparr>
          sr_table_name := Some name, sr_message := Some (''Table '' @ quoted name @ '' dropped'')\<rparr>)
      | IndexCreated name \<Rightarrow> Inr ((plain_response query ''index_created'')\<lparr>
          sr_table_name := Some name, sr_message := Some (''Index '' @ quoted name @ '' created'')\<rparr>)
      | IndexDropped name \<Rightarrow> Inr ((plain_response query ''index_dropped'')\<lparr>
          sr_table_name := Some name, sr_message := Some (''Index '' @ quoted name @ '' dropped'')\<rparr>)
      | RTables tables \<Rightarrow> Inr ((plain_response query ''tables'')\<lparr>sr_tables := Some tables\<rparr>)
      | TableDescription name columns \<Rightarrow> Inr ((plain_response query ''describe'')\<lparr>
          sr_table_name := Some name, sr_schema := Some (map column_info_of columns)\<rparr>)
      | RIndexes indexes \<Rightarrow> Inr ((plain_response query ''indexes'')\<lparr>
          sr_columns := Some [''name'', ''columns'', ''unique''],
          sr_rows := Some (map (\<lambda>ix. [JString (ix_name ix), JString (join_with '', '' (ix_columns ix)), JBool (ix_unique ix)]) indexes)\<rparr>)
      | RExplain ls \<Rightarrow> Inr ((plain_response query ''explain'')\<lparr>
          sr_columns := Some [''plan''], sr_rows := Some (map (\<lambda>l. [JString l]) ls)\<rparr>)
      | RError e \<Rightarrow> Inl e
      | t \<Rightarrow> Inr ((plain_response query ''transaction'')\<lparr>sr_message := Some (res_or [] (execution_result_to_string t))\<rparr>))"

definition sql_execute :: "platform \<Rightarrow> io \<Rightarrow> app_state \<Rightarrow> string \<Rightarrow> handled" where
  "sql_execute pf os st query =
     rbind (database_execute pf os (as_sql st) query) (\<lambda>(r, db).
       Inr (case sql_response_of query r of
              Inl e \<Rightarrow> respond BAD_REQUEST (api_error e)
            | Inr d \<Rightarrow> respond OK (api_success (SqlData d)), st\<lparr>as_sql := db\<rparr>))"

definition sql_tables :: "app_state \<Rightarrow> http_response" where
  "sql_tables st = (let tables = list_tables (as_sql st) in
     json_response OK [(''tables'', JArray (map JString tables)), (''count'', JInt (int (length tables)))])"

definition sql_save :: "platform \<Rightarrow> io \<Rightarrow> app_state \<Rightarrow> http_response \<times> app_state" where
  "sql_save pf os st = (case save pf os (as_sql st) of
     (r, db) \<Rightarrow> (flag_response ''saved'' r, st\<lparr>as_sql := db\<rparr>))"

definition RUSTYDB_VERSION :: string where
  "RUSTYDB_VERSION = ''0.3.0-beta''"

definition health_check :: http_response where
  "health_check = json_response OK [(''status'', JString ''healthy''), (''version'', JString RUSTYDB_VERSION)]"

section \<open>The router\<close>

datatype http_method = MGet | MPut | MPost | MDelete

datatype handler =
    HKvGet | HKvSet | HKvSetAsync | HKvDelete | HKvGetMany | HKvSetMany | HKvInfo | HKvClear | HKvSnapshot | HKvFlush
  | HSqlExecute | HSqlTables | HSqlSave | HHealth

type_synonym routes = "(string \<times> http_method \<times> handler) list"

definition kv_routes :: routes where
  "kv_routes =
     [(''/{key}'', MGet, HKvGet), (''/{key}'', MPut, HKvSet), (''/{key}'', MPost, HKvSetAsync), (''/{key}'', MDelete, HKvDelete),
      (''/'', MPost, HKvSetMany), (''/mget'', MPost, HKvGetMany), (''/mset'', MPost, HKvSetMany), (''/info'', MGet, HKvInfo),
      (''/clear'', MPost, HKvClear), (''/snapshot'', MPost, HKvSnapshot), (''/flush'', MPost, HKvFlush)]"

definition sql_routes :: routes where
  "sql_routes = [(''/execute'', MPost, HSqlExecute), (''/tables'', MGet, HSqlTables), (''/save'', MPost, HSqlSave)]"

definition nest :: "string \<Rightarrow> routes \<Rightarrow> routes" where
  "nest prefix rs = map (\<lambda>(path, m, h). (prefix @ path, m, h)) rs"

definition protected_routes :: routes where
  "protected_routes = nest ''/kv'' kv_routes @ nest ''/sql'' sql_routes"

definition create_router :: "(routes \<times> bool) list" where
  "create_router = [([(''/health'', MGet, HHealth)], False), (protected_routes, True)]"

definition needs_credentials :: "handler \<Rightarrow> bool" where
  "needs_credentials h \<longleftrightarrow> (\<exists>(rs, layered) \<in> set create_router. layered \<and> h \<in> (snd \<circ> snd) ` set rs)"

text \<open>A request once its route is found and its path and body are extracted.\<close>

datatype call =
    CallHealth
  | CallKvGet string | CallKvSet string string | CallKvSetAsync string string | CallKvDelete string
  | CallKvGetMany "string list" | CallKvSetMany "(string \<times> string) list"
  | CallKvInfo | CallKvClear | CallKvSnapshot | CallKvFlush
  | CallSqlExecute string | CallSqlTables | CallSqlSave

fun handler_of :: "call \<Rightarrow> handler" where
  "handler_of CallHealth = HHealth"
| "handler_of (CallKvGet _) = HKvGet"
| "handler_of (CallKvSet _ _) = HKvSet"
| "handler_of (CallKvSetAsync _ _) = HKvSetAsync"
| "handler_of (CallKvDelete _) = HKvDelete"
| "handler_of (CallKvGetMany _) = HKvGetMany"
| "handler_of (CallKvSetMany _) = HKvSetMany"
| "handler_of CallKvInfo = HKvInfo"
| "handler_of CallKvClear = HKvClear"
| "handler_of CallKvSnapshot = HKvSnapshot"
| "handler_of CallKvFlush = HKvFlush"
| "handler_of (CallSqlExecute _) = HSqlExecute"
| "handler_of CallSqlTables = HSqlTables"
| "handler_of CallSqlSave = HSqlSave"

text \<open>The operations the operating system completes for one request.\<close>

record request_io =
  rq_one :: io
  rq_many :: "nat \<Rightarrow> io"

fun handle :: "kv_platform \<Rightarrow> platform \<Rightarrow> request_io \<Rightarrow> app_state \<Rightarrow> call \<Rightarrow> handled" where
  "handle kp pf os st CallHealth = Inr (health_check, st)"
| "handle kp pf os st (CallKvGet key) = Inr (http_kv_get st key, st)"
| "handle kp pf os st (CallKvSet key v) = Inr (http_kv_set kp (rq_one os) st key v)"
| "handle kp pf os st (CallKvSetAsync key v) = Inr (http_kv_set_async st key v)"
| "handle kp pf os st (CallKvDelete key) = Inr (http_kv_delete kp (rq_one os) st key)"
| "handle kp pf os st (CallKvGetMany keys) = Inr (http_kv_get_many st keys, st)"
| "handle kp pf os st (CallKvSetMany pairs) = Inr (http_kv_set_many kp (rq_many os) st pairs)"
| "handle kp pf os st CallKvInfo = Inr (http_kv_info st, st)"
| "handle kp pf os st CallKvClear = Inr (http_kv_clear kp (rq_one os) st)"
| "handle kp pf os st CallKvSnapshot = Inr (http_kv_snapshot kp (rq_many os) (rq_one os) st)"
| "handle kp pf os st CallKvFlush = Inr (http_kv_flush kp (rq_many os) st)"
| "handle kp pf os st (CallSqlExecute query) = sql_execute pf (rq_one os) st query"
| "handle kp pf os st CallSqlTables = Inr (sql_tables st, st)"
| "handle kp pf os st CallSqlSave = Inr (sql_save pf (rq_one os) st)"

definition serve ::
  "http_platform \<Rightarrow> kv_platform \<Rightarrow> platform \<Rightarrow> request_io \<Rightarrow> app_state \<Rightarrow> string option \<Rightarrow> call \<Rightarrow> handled" where
  "serve hp kp pf os st authorization c =
     (if needs_credentials (handler_of c)
      then case auth_middleware hp (as_config st) authorization of
          Some refusal \<Rightarrow> Inr (refusal, st)
        | None \<Rightarrow> handle kp pf os st c
      else handle kp pf os st c)"

section \<open>Starting\<close>

definition sql_options_of :: "server_config \<Rightarrow> sql_options" where
  "sql_options_of config = \<lparr>opt_plan_cache_capacity = sc_plan_cache_capacity config,
     opt_memory_pool_capacity = sc_memory_pool_capacity config,
     opt_bloom_false_positive_rate = sc_bloom_false_positive_rate config\<rparr>"

text \<open>
  The state a server starts with: a store or database that does not open is replaced by an
  empty one in memory. A panic while opening is not caught.
\<close>

definition start_kv :: "kv_platform \<Rightarrow> open_io \<Rightarrow> string \<Rightarrow> string set \<Rightarrow> kv_disk \<Rightarrow> server_config \<Rightarrow> kv_store \<times> string set" where
  "start_kv kp os err held d config =
     (if sc_memory_only config then (kv_new, held)
      else case kv_open kp os err held d (sc_data_dir config) of Inr s \<Rightarrow> s | Inl _ \<Rightarrow> (kv_new, held))"

definition start_sql ::
  "platform \<Rightarrow> open_io \<Rightarrow> string \<Rightarrow> string set \<Rightarrow> disk \<Rightarrow> server_config \<Rightarrow> (database \<times> string set) res" where
  "start_sql pf os err held d config =
     (let in_memory = (database_with_options (sql_options_of config), held)
      in if sc_memory_only config then Inr in_memory
         else case open_with_options pf os err held (sc_data_dir config) d (sql_options_of config) of
           Inr db \<Rightarrow> Inr db
         | Inl (Fail e) \<Rightarrow> Inr in_memory
         | Inl (Panic why) \<Rightarrow> Inl (Panic why))"

definition start_state ::
  "kv_platform \<Rightarrow> platform \<Rightarrow> open_io \<Rightarrow> open_io \<Rightarrow> string \<Rightarrow> string set \<Rightarrow> kv_disk \<Rightarrow> disk \<Rightarrow> server_config \<Rightarrow> app_state res" where
  "start_state kp pf kv_os sql_os err held kd d config =
     (case start_kv kp kv_os err held kd config of (kv, held1) \<Rightarrow>
       rbind (start_sql pf sql_os err held1 d config) (\<lambda>(db, held2).
         Inr \<lparr>as_kv = kv, as_sql = db, as_config = config\<rparr>))"

section \<open>Who may call what\<close>

lemma needs_credentials_iff: "needs_credentials h \<longleftrightarrow> h \<noteq> HHealth"
  by (cases h) (simp_all add: needs_credentials_def create_router_def protected_routes_def nest_def kv_routes_def sql_routes_def)

text \<open>The bytes of the header that let a request through.\<close>

definition grants :: "http_platform \<Rightarrow> server_config \<Rightarrow> string \<Rightarrow> bool" where
  "grants hp config h \<longleftrightarrow>
     (\<exists>encoded. hp_to_str hp h = Some (''Basic '' @ encoded) \<and>
        hp_base64 hp encoded = Some (the (sc_username config) @ '':'' @ the (sc_password config)) \<and>
        utf8_valid (the (sc_username config) @ '':'' @ the (sc_password config)) \<and>
        CHR '':'' \<notin> set (the (sc_username config)))"

lemma starts_with_append: "starts_with_str s prefix \<longleftrightarrow> (\<exists>rest. s = prefix @ rest)"
  unfolding starts_with_str_def by (metis append_eq_conv_conj append_take_drop_id)

lemma auth_middleware_iff:
  assumes "auth_required config"
  shows "auth_middleware hp config authorization = None \<longleftrightarrow> (\<exists>h. authorization = Some h \<and> grants hp config h)"
proof (cases authorization)
  case (Some h)
  show ?thesis
  proof (cases "\<exists>encoded decoded. hp_to_str hp h = Some (''Basic '' @ encoded) \<and> hp_base64 hp encoded = Some decoded")
    case True
    then obtain encoded decoded where e: "hp_to_str hp h = Some (''Basic '' @ encoded)" "hp_base64 hp encoded = Some decoded" by blast
    have "auth_middleware hp config authorization = None \<longleftrightarrow>
        utf8_valid decoded \<and> split_once (CHR '':'') decoded = Some (the (sc_username config), the (sc_password config))"
      using assms Some e by (auto simp: auth_middleware_def starts_with_str_def split: option.splits)
    with Some e show ?thesis by (auto simp: split_once_iff grants_def)
  next
    case False
    then show ?thesis using assms Some
      by (auto simp: auth_middleware_def grants_def starts_with_append split: option.splits)
  qed
qed (use assms in \<open>simp add: auth_middleware_def\<close>)

lemma refusals_are_401: "auth_middleware hp config authorization = Some r \<Longrightarrow> hr_status r = UNAUTHORIZED \<and> \<not> ar_success (hr_body r)"
  by (auto simp: auth_middleware_def unauthorized_def respond_def api_error_def split: option.splits if_splits)

text \<open>With credentials configured, a request either carries them or is refused and changes nothing.\<close>

lemma serve_protected:
  assumes "auth_required (as_config st)" "c \<noteq> CallHealth"
  shows "serve hp kp pf os st authorization c =
      (if \<exists>h. authorization = Some h \<and> grants hp (as_config st) h then handle kp pf os st c
       else Inr (the (auth_middleware hp (as_config st) authorization), st))"
proof -
  have "needs_credentials (handler_of c)" using assms(2) by (cases c) (simp_all add: needs_credentials_iff)
  with auth_middleware_iff [OF assms(1), of hp authorization] show ?thesis
    by (cases "auth_middleware hp (as_config st) authorization") (auto simp: serve_def)
qed

lemma unauthenticated_refused:
  assumes "auth_required (as_config st)" "c \<noteq> CallHealth" "\<And>h. authorization = Some h \<Longrightarrow> \<not> grants hp (as_config st) h"
  shows "\<exists>r. serve hp kp pf os st authorization c = Inr (r, st) \<and> hr_status r = UNAUTHORIZED"
proof -
  from auth_middleware_iff [OF assms(1), of hp authorization] assms(3)
  obtain r where "auth_middleware hp (as_config st) authorization = Some r" by fastforce
  then show ?thesis using assms refusals_are_401 by (auto simp: serve_protected)
qed

text \<open>A user name with a colon can never be given: every request is refused.\<close>

lemma colon_locks_out: "CHR '':'' \<in> set (the (sc_username config)) \<Longrightarrow> \<not> grants hp config h"
  by (simp add: grants_def)

section \<open>What the handlers answer\<close>

lemma kv_write_data: "kv_write kp os s op = (Inr (), s') \<Longrightarrow> map_of (ks_data s') = apply_operation (map_of (ks_data s)) op"
  by (auto simp: kv_write_def kv_log_def kv_apply_map split: option.splits prod.splits sum.splits)

text \<open>A set that is answered with 200 is what the next get returns.\<close>

lemma set_then_get:
  assumes "http_kv_set kp os st key v = (r, st')" "hr_status r = OK"
  shows "http_kv_get st' key = respond OK (value_data key (Some v))"
proof -
  obtain x s where w: "kv_set kp os (as_kv st) key v = (x, s)" by (cases "kv_set kp os (as_kv st) key v")
  with assms have "x = Inr ()" "as_kv st' = s"
    by (auto simp: http_kv_set_def set_response_def respond_def status_codes split: sum.splits)
  with w have "map_of (ks_data (as_kv st')) key = Some v"
    by (simp add: kv_set_def kv_write_data)
  then show ?thesis by (simp add: http_kv_get_def kv_get_def)
qed

lemma get_many_gets:
  "http_kv_get_many st keys = respond OK (api_success (ValuesData
     (map (\<lambda>key. \<lparr>vr_key = key, vr_value = map_of (ks_data (as_kv st)) key, vr_exists = map_of (ks_data (as_kv st)) key \<noteq> None\<rparr>) keys)))"
proof -
  have "map_of (List.map_filter (\<lambda>key. map_option (\<lambda>v. (key, v)) (m key)) keys) key = m key" if "key \<in> set keys" for key keys
    and m :: "string \<rightharpoonup> string"
    using that
  proof (induction keys)
    case (Cons k keys)
    then show ?case
      by (cases "m k"; cases "key \<in> set keys") (auto simp: map_filter_simps map_filter_def map_of_eq_None_iff split: option.splits)
  qed simp
  then show ?thesis by (simp add: http_kv_get_many_def kv_get_many_def Let_def cong: map_cong)
qed

lemma sql_response_error: "sql_response_of query r = Inl e \<longleftrightarrow> r = RError e"
  by (cases r) (simp_all add: sql_response_of_def)

text \<open>A SQL request is answered with 200, or with 400 and the message of the error.\<close>

lemma sql_execute_status:
  assumes "sql_execute pf os st query = Inr (r, st')"
  shows "\<exists>result. database_execute pf os (as_sql st) query = Inr (result, as_sql st') \<and>
     hr_status r = (case result of RError e \<Rightarrow> BAD_REQUEST | _ \<Rightarrow> OK) \<and>
     ar_error (hr_body r) = (case result of RError e \<Rightarrow> Some e | _ \<Rightarrow> None)"
proof -
  from assms obtain result db where x: "database_execute pf os (as_sql st) query = Inr (result, db)" "as_sql st' = db"
      "r = (case sql_response_of query result of Inl e \<Rightarrow> respond BAD_REQUEST (api_error e) | Inr d \<Rightarrow> respond OK (api_success (SqlData d)))"
    by (cases "database_execute pf os (as_sql st) query") (auto simp: sql_execute_def)
  show ?thesis
  proof (cases "sql_response_of query result")
    case (Inl e)
    with x show ?thesis by (auto simp: sql_response_error respond_def api_error_def)
  next
    case (Inr d)
    then have "\<And>e. result \<noteq> RError e" using sql_response_error [of query result] by auto
    with x Inr show ?thesis by (cases result) (auto simp: respond_def api_success_def)
  qed
qed

section \<open>Where a failure does not show\<close>

text \<open>A set that fails answers 500, but its body says that the request succeeded.\<close>

lemma failed_set_reports_success:
  "kv_set kp os (as_kv st) key v = (Inl e, s) \<Longrightarrow>
   http_kv_set kp os st key v = (r, st') \<Longrightarrow> hr_status r = INTERNAL_SERVER_ERROR \<and> ar_success (hr_body r) \<and> ar_error (hr_body r) = None"
  by (auto simp: http_kv_set_def set_response_def respond_def value_data_def api_success_def)

text \<open>
  A server whose data directory does not open, because another process holds the lock or the
  files are damaged, starts empty and in memory; statements are acknowledged and nothing is written.
\<close>

lemma in_memory_execute_keeps_disk:
  assumes "\<not> db_wal_open db" "\<not> db_auto_save db" "database_execute pf os db sql = Inr (r, db')"
  shows "db_disk db' = db_disk db \<and> \<not> db_wal_open db' \<and> \<not> db_auto_save db'"
  using assms
  by (auto simp: database_execute_def db_parse_cached_def execute_autocommit_durable_def log_transaction_def Let_def
      split: prod.splits sum.splits error.splits if_splits)

lemma start_falls_back:
  assumes "\<not> sc_memory_only config" "open_with_options pf os err held (sc_data_dir config) d (sql_options_of config) = Inl (Fail e)"
  shows "start_sql pf os err held d config = Inr (database_with_options (sql_options_of config), held)"
  using assms by (simp add: start_sql_def Let_def)

end
