(* ===== verification/Calendar.thy ===== *)
theory Calendar
  imports Config WalLog
begin

text \<open>
  Timestamps and recovery points of \<^verbatim>\<open>src/src/recovery.rs\<close> (lines 16 to 55 and 576 to 699):
  \<open>parse_rfc3339\<close>, the calendar behind it and \<open>RecoveryPoint::from_str\<close>. Numbers are integers
  that wrap at the width the source gives them. A time is its milliseconds since the epoch.
  The lemmas show that the day number agrees with the calendar, day by day, that a
  recovery point is read back from its text, and what the clock of a timestamp accepts.
\<close>

section \<open>Numbers\<close>

definition wrap :: "nat \<Rightarrow> int \<Rightarrow> int" where
  "wrap width i = (i + 2 ^ (width - 1)) mod 2 ^ width - 2 ^ (width - 1)"

text \<open>Division truncates towards zero.\<close>

definition tdiv :: "int \<Rightarrow> int \<Rightarrow> int" where
  "tdiv a b = sgn a * sgn b * (\<bar>a\<bar> div \<bar>b\<bar>)"

definition parse_sint :: "nat \<Rightarrow> string \<Rightarrow> int option" where
  "parse_sint width s = (case read_sign s of (neg, ds) \<Rightarrow>
     if \<not> all_digits ds then None
     else let i = (if neg then - int (read_nat ds) else int (read_nat ds)) in
       if - (2 ^ (width - 1)) \<le> i \<and> i < 2 ^ (width - 1) then Some i else None)"

definition ok_or :: "string \<Rightarrow> 'a option \<Rightarrow> 'a res" where
  "ok_or msg x = (case x of Some v \<Rightarrow> Inr v | None \<Rightarrow> Inl (Fail msg))"

section \<open>The calendar\<close>

definition is_leap_year :: "int \<Rightarrow> bool" where
  "is_leap_year year \<longleftrightarrow> year mod 4 = 0 \<and> (year mod 100 \<noteq> 0 \<or> year mod 400 = 0)"

definition days_in_month :: "int \<Rightarrow> int \<Rightarrow> int" where
  "days_in_month year month =
     (if month = 2 then (if is_leap_year year then 29 else 28)
      else if month = 4 \<or> month = 6 \<or> month = 9 \<or> month = 11 then 30
      else 31)"

definition days_from_civil :: "int \<Rightarrow> int \<Rightarrow> int \<Rightarrow> int" where
  "days_from_civil year0 month day =
     (let year = wrap 32 (year0 - (if month \<le> 2 then 1 else 0));
          era = tdiv (if year \<ge> 0 then year else wrap 32 (year - 399)) 400;
          year_of_era = year - era * 400;
          day_of_year = (153 * (month + (if month > 2 then - 3 else 9)) + 2) div 5 + day - 1;
          day_of_era = year_of_era * 365 + year_of_era div 4 - year_of_era div 100 + day_of_year
      in wrap 32 (wrap 32 (wrap 32 (era * 146097) + day_of_era) - 719468))"

section \<open>Timestamps\<close>

definition parse_part :: "(string \<Rightarrow> 'a option) \<Rightarrow> string \<Rightarrow> string list \<Rightarrow> 'a res" where
  "parse_part parse msg parts = ok_or msg (case parts of [] \<Rightarrow> None | p # _ \<Rightarrow> parse p)"

definition parse_date :: "string \<Rightarrow> (int \<times> int \<times> int) res" where
  "parse_date date =
     (let parts = split_char (CHR ''-'') date in
      rbind (parse_part (parse_sint 32) ''Invalid timestamp year'' parts) (\<lambda>year.
      rbind (parse_part (parse_uint 32) ''Invalid timestamp month'' (drop 1 parts)) (\<lambda>month.
      rbind (parse_part (parse_uint 32) ''Invalid timestamp day'' (drop 2 parts)) (\<lambda>day.
        if drop 3 parts \<noteq> [] \<or> \<not> (1 \<le> month \<and> month \<le> 12) then Inl (Fail ''Invalid timestamp date'')
        else if \<not> (1 \<le> day \<and> int day \<le> days_in_month year (int month)) then Inl (Fail ''Invalid timestamp date'')
        else Inr (year, int month, int day)))))"

text \<open>\<open>split_zone\<close> cuts the offset off the clock: the zone letter, or the last sign behind the first character.\<close>

definition offset_index :: "string \<Rightarrow> nat option" where
  "offset_index time =
     (case filter (\<lambda>i. 0 < i \<and> (time ! i = CHR ''+'' \<or> time ! i = CHR ''-'')) [0..<length time] of
        [] \<Rightarrow> None | is \<Rightarrow> Some (last is))"

definition parse_offset :: "string \<Rightarrow> int res" where
  "parse_offset offset =
     (let sign = (if hd offset = CHR ''-'' then - 1 else 1); parts = split_char (CHR '':'') (tl offset) in
      rbind (parse_part (parse_sint 64) ''Invalid timestamp offset'' parts) (\<lambda>hours.
      rbind (parse_part (parse_sint 64) ''Invalid timestamp offset'' (drop 1 parts)) (\<lambda>minutes.
        if drop 2 parts \<noteq> [] \<or> hours > 23 \<or> minutes > 59 then Inl (Fail ''Invalid timestamp offset'')
        else Inr (wrap 64 (sign * wrap 64 (wrap 64 (hours * 3600) + wrap 64 (minutes * 60)))))))"

definition split_zone :: "string \<Rightarrow> (string \<times> int) res" where
  "split_zone time =
     (if time \<noteq> [] \<and> (last time = CHR ''Z'' \<or> last time = CHR ''z'') then Inr (butlast time, 0)
      else rbind (ok_or ''RFC 3339 timestamp requires Z or a UTC offset'' (offset_index time)) (\<lambda>i.
        rbind (parse_offset (drop i time)) (\<lambda>offset. Inr (take i time, offset))))"

definition parse_fraction :: "string \<Rightarrow> nat res" where
  "parse_fraction second_part =
     (let fraction = (case split_once (CHR ''.'') second_part of Some (_, f) \<Rightarrow> f | None \<Rightarrow> []) in
      if fraction = []
      then if second_part \<noteq> [] \<and> last second_part = CHR ''.'' then Inl (Fail ''Invalid timestamp fraction'') else Inr 0
      else if \<not> list_all is_digit fraction then Inl (Fail ''Invalid timestamp fraction'')
      else let digits = take 3 fraction in Inr (read_nat digits * 10 ^ (3 - length digits)))"

definition parse_clock :: "string \<Rightarrow> (int \<times> int \<times> int \<times> nat) res" where
  "parse_clock clock =
     (let parts = split_char (CHR '':'') clock in
      rbind (parse_part (parse_sint 64) ''Invalid timestamp hour'' parts) (\<lambda>hour.
      rbind (parse_part (parse_sint 64) ''Invalid timestamp minute'' (drop 1 parts)) (\<lambda>minute.
      rbind (parse_part Some ''Invalid timestamp second'' (drop 2 parts)) (\<lambda>second_part.
        if drop 3 parts \<noteq> [] \<or> hour > 23 \<or> minute > 59 then Inl (Fail ''Invalid timestamp time'')
        else
          let seconds_text = (case split_once (CHR ''.'') second_part of Some (s, _) \<Rightarrow> s | None \<Rightarrow> second_part) in
          rbind (ok_or ''Invalid timestamp second'' (parse_sint 64 seconds_text)) (\<lambda>second.
            if second > 59 then Inl (Fail ''Invalid timestamp second'')
            else rbind (parse_fraction second_part) (\<lambda>millis. Inr (hour, minute, second, millis)))))))"

definition unix_seconds :: "int \<times> int \<times> int \<Rightarrow> int \<Rightarrow> int \<Rightarrow> int \<Rightarrow> int \<Rightarrow> int" where
  "unix_seconds date hour minute second offset =
     (case date of (year, month, day) \<Rightarrow>
       wrap 64 (wrap 64 (wrap 64 (wrap 64 (days_from_civil year month day * 86400 + wrap 64 (hour * 3600)) + wrap 64 (minute * 60)) + second)
         - offset))"

definition parse_rfc3339 :: "string \<Rightarrow> nat res" where
  "parse_rfc3339 text0 =
     (let s = trim text0 in
      rbind (ok_or ''Timestamp must use RFC 3339 date-time syntax''
              (case split_once (CHR ''T'') s of Some p \<Rightarrow> Some p | None \<Rightarrow> split_once (CHR ''t'') s)) (\<lambda>(date, time).
      rbind (parse_date date) (\<lambda>ymd.
      rbind (split_zone time) (\<lambda>(clock, offset).
      rbind (parse_clock clock) (\<lambda>(hour, minute, second, millis).
        let secs = unix_seconds ymd hour minute second offset in
        if secs < 0 then Inl (Fail ''Recovery timestamp predates the Unix epoch'')
        else Inr (nat secs * 1000 + millis))))))"

section \<open>Recovery points\<close>

record recovery_point =
  sql_commit_version :: nat
  kv_sequence :: nat

fun read_parts :: "nat option \<Rightarrow> nat option \<Rightarrow> string list \<Rightarrow> (nat option \<times> nat option) res" where
  "read_parts sql kv [] = Inr (sql, kv)"
| "read_parts sql kv (part # parts) =
     (case split_once (CHR '':'') part of
        None \<Rightarrow> Inl (Fail ''Recovery point must be sql:N,kv:N'')
      | Some (name, v) \<Rightarrow>
          let n = to_ascii_lowercase (trim name) in
          if n = ''sql''
          then rbind (ok_or ''Invalid SQL commit version'' (parse_uint 64 (trim v))) (\<lambda>x. read_parts (Some x) kv parts)
          else if n = ''kv''
          then rbind (ok_or ''Invalid KV sequence'' (parse_uint 64 (trim v))) (\<lambda>x. read_parts sql (Some x) parts)
          else Inl (Fail ''Recovery point must be sql:N,kv:N''))"

definition recovery_point_from_str :: "string \<Rightarrow> recovery_point res" where
  "recovery_point_from_str s =
     rbind (read_parts None None (split_char (CHR '','') s)) (\<lambda>(sql, kv).
     rbind (ok_or ''Recovery point is missing sql:N'' sql) (\<lambda>x.
     rbind (ok_or ''Recovery point is missing kv:N'' kv) (\<lambda>y.
       Inr \<lparr>sql_commit_version = x, kv_sequence = y\<rparr>)))"

section \<open>The day number follows the calendar\<close>

fun next_date :: "int \<times> int \<times> int \<Rightarrow> int \<times> int \<times> int" where
  "next_date (y, m, d) =
     (if d < days_in_month y m then (y, m, d + 1) else if m < 12 then (y, m + 1, 1) else (y + 1, 1, 1))"

lemma wrap_small: "- (2 ^ (width - 1)) \<le> i \<Longrightarrow> i < 2 ^ (width - 1) \<Longrightarrow> 0 < width \<Longrightarrow> wrap width i = i"
proof -
  assume *: "- (2 ^ (width - 1)) \<le> i" "i < 2 ^ (width - 1)" "0 < width"
  then have "(2 :: int) ^ width = 2 * 2 ^ (width - 1)" by (simp flip: power_Suc)
  with * have "(i + 2 ^ (width - 1)) mod 2 ^ width = i + 2 ^ (width - 1)" by (intro mod_pos_pos_trivial) auto
  then show ?thesis by (simp add: wrap_def)
qed

lemma wrap_32: "- 2147483648 \<le> i \<Longrightarrow> i < 2147483648 \<Longrightarrow> wrap 32 i = i"
  using wrap_small [of 32 i] by simp

lemma era_floor: "tdiv (if y \<ge> 0 then y else y - 399) 400 = y div 400"
proof (cases "y \<ge> 0")
  case True
  then show ?thesis by (cases "y = 0") (simp_all add: tdiv_def)
next
  case False
  then have "tdiv (y - 399) 400 = - ((399 - y) div 400)" by (simp add: tdiv_def)
  also have "(399 - y) div 400 = - (y div 400)"
    by (rule int_div_pos_eq [where r = "399 - y mod 400"]) (use mult_div_mod_eq [of 400 y] in \<open>simp_all add: algebra_simps\<close>)
  also have "- (- (y div 400)) = y div 400" by simp
  finally show ?thesis using False by simp
qed

text \<open>The number of days before the first of March of a year, and of days from there to a day.\<close>

definition year_days :: "int \<Rightarrow> int" where
  "year_days y = 365 * y + y div 4 - y div 100 + y div 400"

lemma era_days:
  "y div 400 * 146097 + ((y - y div 400 * 400) * 365 + (y - y div 400 * 400) div 4 - (y - y div 400 * 400) div 100) = year_days y"
proof -
  define e r where "e = y div 400" and "r = y mod 400"
  have y: "y = 400 * e + r" and r: "0 \<le> r" "r < 400" by (simp_all add: e_def r_def)
  have "(r + 100 * e * 4) div 4 = 100 * e + r div 4" "(r + 4 * e * 100) div 100 = 4 * e + r div 100" by (subst div_mult_self1; simp)+
  then have "y div 4 = 100 * e + r div 4" "y div 100 = 4 * e + r div 100" by (simp_all add: y ac_simps)
  moreover have "y - y div 400 * 400 = r" using y by (simp add: e_def)
  ultimately show ?thesis using y by (simp add: year_days_def flip: e_def)
qed

lemma days_from_civil_linear:
  assumes "\<bar>year\<bar> \<le> 5000000" "1 \<le> month" "month \<le> 12" "1 \<le> day" "day \<le> 31"
  shows "days_from_civil year month day =
     year_days (year - (if month \<le> 2 then 1 else 0)) +
     ((153 * (month + (if month > 2 then - 3 else 9)) + 2) div 5 + day - 1) - 719468"
proof -
  define y where "y = year - (if month \<le> 2 then 1 else 0)"
  define doy where "doy = (153 * (month + (if month > 2 then - 3 else 9)) + 2) div 5 + day - 1"
  have y: "\<bar>y\<bar> \<le> 5000001" using assms(1) by (auto simp: y_def)
  have doy: "0 \<le> doy" "doy \<le> 400" using assms(2-5) by (auto simp: doy_def)
  let ?era = "y div 400" and ?yoe = "y - y div 400 * 400"
  have yoe: "0 \<le> ?yoe" "?yoe < 400" by presburger+
  have era: "\<bar>?era\<bar> \<le> 12501" using y by linarith
  have wrap_y: "wrap 32 y = y" "wrap 32 (y - 399) = y - 399" using y by (auto intro!: wrap_32)
  then have era_eq: "tdiv (if wrap 32 y \<ge> 0 then wrap 32 y else wrap 32 (wrap 32 y - 399)) 400 = ?era"
    using era_floor [of y] by (simp split: if_splits)
  have wrap_era: "wrap 32 (?era * 146097) = ?era * 146097" using era by (intro wrap_32) linarith+
  define doe where "doe = ?yoe * 365 + ?yoe div 4 - ?yoe div 100 + doy"
  have "0 \<le> x * 365 + x div 4 - x div 100 \<and> x * 365 + x div 4 - x div 100 \<le> 146000" if "0 \<le> x" "x < 400" for x :: int
    using that by linarith
  from this [OF yoe] have "0 \<le> doe" "doe \<le> 150000" using doy by (simp_all add: doe_def)
  then have wraps: "wrap 32 (?era * 146097 + doe) = ?era * 146097 + doe"
      "wrap 32 (?era * 146097 + doe - 719468) = ?era * 146097 + doe - 719468"
    using era by (auto intro!: wrap_32)
  have "days_from_civil year month day = ?era * 146097 + doe - 719468"
    unfolding days_from_civil_def Let_def y_def [symmetric] doy_def [symmetric]
    unfolding era_eq unfolding wrap_y wrap_era doe_def [symmetric] wraps by (rule refl)
  then show ?thesis unfolding y_def [symmetric] doy_def [symmetric] using era_days [of y] by (simp add: doe_def)
qed

lemma div_step:
  fixes y k :: int
  assumes "0 < k"
  shows "y div k = (y - 1) div k + (if y mod k = 0 then 1 else 0)"
proof (cases "y mod k = 0")
  case True
  have "(y - 1) div k = y div k - 1"
    by (rule int_div_pos_eq [where r = "k - 1"]) (use True assms mult_div_mod_eq [of k y] in \<open>simp_all add: algebra_simps\<close>)
  with True show ?thesis by simp
next
  case False
  have "0 < y mod k" "y mod k < k" using False pos_mod_sign [of k y] pos_mod_bound [of k y] assms by linarith+
  then have "(y - 1) div k = y div k"
    by (intro int_div_pos_eq [where r = "y mod k - 1"]) (use mult_div_mod_eq [of k y] in \<open>simp_all add: algebra_simps\<close>)
  with False show ?thesis by simp
qed

lemma leap_step: "year_days y = year_days (y - 1) + (if is_leap_year y then 366 else 365)"
proof -
  have arith: "365 * y + a - b + c = 365 * (y - 1) + a' - b' + c' + 365 + i - j + k"
    if "a = a' + i" "b = b' + j" "c = c' + k" for a b c a' b' c' i j k :: int using that by simp
  have "year_days y = year_days (y - 1) + 365 + (if y mod 4 = 0 then 1 else 0) - (if y mod 100 = 0 then 1 else 0)
      + (if y mod 400 = 0 then 1 else 0)"
    unfolding year_days_def by (rule arith; rule div_step; simp)
  moreover have "y mod 400 = 0 \<Longrightarrow> y mod 100 = 0" "y mod 100 = 0 \<Longrightarrow> y mod 4 = 0"
    using mod_mod_cancel [of 100 400 y] mod_mod_cancel [of 4 100 y] by auto
  ultimately show ?thesis
    by (cases "y mod 4 = 0"; cases "y mod 100 = 0"; cases "y mod 400 = 0") (simp_all add: is_leap_year_def)
qed

text \<open>From one day to the next the number grows by one, and it is zero on the first of January 1970.\<close>

lemma months:
  assumes "1 \<le> m" "m \<le> (12 :: int)"
  obtains "m = 1" | "m = 2" | "m = 3" | "m = 4" | "m = 5" | "m = 6" | "m = 7" | "m = 8" | "m = 9" | "m = 10" | "m = 11" | "m = 12"
proof -
  have "nat m \<in> {1..<13}" using assms by auto
  then have "nat m \<in> {1, 2, 3, 4, 5, 6, 7, 8, 9, 10, 11, 12}" by (auto simp: numeral_eq_Suc atLeastLessThanSuc)
  then show thesis using assms that by auto
qed

lemma next_day:
  assumes "\<bar>y\<bar> < 5000000" "1 \<le> m" "m \<le> 12" "1 \<le> d" "d \<le> days_in_month y m" "next_date (y, m, d) = (y', m', d')"
  shows "days_from_civil y' m' d' = days_from_civil y m d + 1"
proof -
  have days: "1 \<le> days_in_month y m" "days_in_month y m \<le> 31" by (simp_all add: days_in_month_def)
  show ?thesis
  proof (cases "d < days_in_month y m")
    case True
    with assms(6) have "y' = y" "m' = m" "d' = d + 1" by simp_all
    then show ?thesis using True assms(1-4) days by (simp add: days_from_civil_linear)
  next
    case False
    with assms(5) have d: "d = days_in_month y m" by simp
    have last: "days_from_civil y m (days_in_month y m) = year_days (y - (if m \<le> 2 then 1 else 0)) +
        ((153 * (m + (if m > 2 then - 3 else 9)) + 2) div 5 + days_in_month y m - 1) - 719468"
      using assms(1-3) days by (intro days_from_civil_linear) auto
    show ?thesis
    proof (cases "m = 12")
      case True
      then have "y' = y + 1" "m' = 1" "d' = 1" using assms(6) False by simp_all
      then show ?thesis using True last assms(1) by (simp add: d days_in_month_def days_from_civil_linear)
    next
      case False
      then have nxt: "y' = y" "m' = m + 1" "d' = 1" using assms(3,6) d by simp_all
      have "days_from_civil y (m + 1) 1 = year_days (y - (if m + 1 \<le> 2 then 1 else 0)) +
          ((153 * (m + 1 + (if m + 1 > 2 then - 3 else 9)) + 2) div 5 + 1 - 1) - 719468"
        using assms(1-3) False by (intro days_from_civil_linear) auto
      with last leap_step [of y] False show ?thesis
        unfolding nxt d by (rule_tac months [OF assms(2,3)]) (simp_all add: days_in_month_def)
    qed
  qed
qed

lemma epoch: "days_from_civil 1970 1 1 = 0"
  by (simp add: days_from_civil_linear year_days_def)

section \<open>Points and clocks\<close>

definition show_point :: "recovery_point \<Rightarrow> string" where
  "show_point p = ''sql:'' @ show_nat (sql_commit_version p) @ '',kv:'' @ show_nat (kv_sequence p)"

lemma trim_show_nat [simp]: "trim (show_nat n) = show_nat n"
proof -
  have "\<not> is_white c" if "c \<in> set (show_nat n)" for c
    using show_nat_digits [OF that] by (auto simp: is_digit_def is_white_def)
  then show ?thesis using trim_core [of "[]" "[]" "show_nat n"] by (simp add: blank_def)
qed

lemma show_nat_no_comma: "CHR '','' \<notin> set (show_nat n)"
  using show_nat_digits by (force simp: is_digit_def)

lemma point_round_trip:
  assumes "sql_commit_version p < 2 ^ 64" "kv_sequence p < 2 ^ 64"
  shows "recovery_point_from_str (show_point p) = Inr p"
proof -
  have "CHR '','' \<notin> set (''sql:'' @ show_nat (sql_commit_version p))" using show_nat_no_comma by simp
  from split_char_append [OF this] split_char_none [of "CHR '',''" "''kv:'' @ show_nat (kv_sequence p)"]
  have parts: "split_char (CHR '','') (show_point p) =
      [''sql:'' @ show_nat (sql_commit_version p), ''kv:'' @ show_nat (kv_sequence p)]"
    using show_nat_no_comma by (simp add: show_point_def)
  have names: "trim ''sql'' = ''sql''" "trim ''kv'' = ''kv''" "to_ascii_lowercase ''sql'' = ''sql''" "to_ascii_lowercase ''kv'' = ''kv''"
    by code_simp+
  have once: "split_once (CHR '':'') (''sql:'' @ s) = Some (''sql'', s)" "split_once (CHR '':'') (''kv:'' @ s) = Some (''kv'', s)" for s
    by (simp_all add: split_once_iff)
  show ?thesis
    unfolding recovery_point_from_str_def parts read_parts.simps once
    using assms parse_uint_show by (simp add: names Let_def ok_or_def)
qed

text \<open>The clock has upper bounds only: negative hours, minutes and seconds are read as well.\<close>

lemma negative_clock_accepted:
  "parse_clock ''-1:-1:-1'' = Inr (- 1, - 1, - 1, 0)"
  by code_simp

end
