(* ===== verification/Restore.thy ===== *)
theory Restore
  imports Recovery
begin

text \<open>
  Restoring the backup of a data directory. With a working file system, creating a backup of
  a closed database and store and restoring it to the latest state gives files that open
  to the same catalog and the same map; when the SQL log ends in an unfinished record, the
  restored log begins with it, and opening it stops there.
\<close>

section \<open>A working file system\<close>

definition healthy :: "recovery_io \<Rightarrow> bool" where
  "healthy ri \<longleftrightarrow> (\<forall>what. ri_fail ri what = None) \<and> ri_sql_lock ri = LockOk \<and> ri_kv_lock ri = LockOk"

definition unlocked :: "string set \<Rightarrow> string \<Rightarrow> bool" where
  "unlocked held root \<longleftrightarrow> lock_path root ''sql'' \<notin> held \<and> lock_path root ''kv'' \<notin> held"

lemma attempt_healthy [simp]: "healthy ri \<Longrightarrow> attempt ri what msg = Inr ()"
  by (simp add: healthy_def attempt_def)

lemma locks_differ: "lock_path root ''kv'' \<noteq> lock_path root ''sql''"
  by (simp add: lock_path_def path_join_def)

lemma take_locks_healthy [simp]: "healthy ri \<Longrightarrow> unlocked held root \<Longrightarrow> take_locks ri held root = Inr ()"
  using locks_differ by (simp add: take_locks_def healthy_def unlocked_def lock_acquire_def)

lemma copy_files_healthy:
  "healthy ri \<Longrightarrow> copy_files ri root fs d = (Inr (), foldl (\<lambda>d (s, p, c). AList.update p c d) d fs)"
  by (induction fs arbitrary: d) (auto simp: copy_file_def)

section \<open>The lines of a written log\<close>

lemma file_lines_written:
  assumes "\<forall>r \<in> set rs. json_line (enc r)" "newline \<notin> set torn"
  shows "file_lines (concat (map (\<lambda>r. enc r @ [newline]) rs) @ torn) = map enc rs @ (if torn = [] then [] else [torn])"
  using assms
proof (induction rs)
  case (Cons r rs)
  then show ?case using json_line_props [of "enc r"] by (simp add: file_lines_Cons)
qed (simp add: file_lines_last)

lemma readable_lines_written:
  assumes "\<forall>r \<in> set rs. json_line (enc r)" "newline \<notin> set torn" "utf8_valid torn"
  shows "readable_lines (concat (map (\<lambda>r. enc r @ [newline]) rs) @ torn) = map enc rs @ (if torn = [] then [] else [torn])"
proof -
  have "\<forall>r \<in> set rs. utf8_valid (enc r)" using assms(1) json_line_props by blast
  then show ?thesis using assms by (simp add: readable_lines_def file_lines_written)
qed

section \<open>Collecting\<close>

lemma or_insert_last: "\<forall>x \<in> set m. fst x < k \<Longrightarrow> or_insert k r m = m @ [(k, r)]"
proof -
  assume *: "\<forall>x \<in> set m. fst x < k"
  then have "insort_key fst (k, r) m = m @ [(k, r)]" by (induction m) auto
  with * show ?thesis by (auto simp: or_insert_def)
qed

text \<open>What a log format reads back of its own records.\<close>

definition reads_back :: "'r log_format \<Rightarrow> 'r \<Rightarrow> bool" where
  "reads_back fmt r \<longleftrightarrow> json_line (lf_json fmt r) \<and> lf_read fmt (lf_json fmt r) = Some r \<and> lf_valid fmt r"

lemma collect_lines:
  assumes "\<forall>r \<in> set rs. reads_back fmt r" "sorted_wrt (<) (map (lf_key fmt) rs)" "\<forall>x \<in> set m. \<forall>r \<in> set rs. fst x < lf_key fmt r"
  shows "res_fold (collect_line fmt path) m (map (lf_json fmt) rs) = Inr (m @ map (\<lambda>r. (lf_key fmt r, r)) rs)"
  using assms
proof (induction rs arbitrary: m)
  case (Cons r rs)
  have "collect_line fmt path m (lf_json fmt r) = Inr (m @ [(lf_key fmt r, r)])"
    using Cons.prems by (simp add: collect_line_def reads_back_def or_insert_last)
  moreover have "res_fold (collect_line fmt path) (m @ [(lf_key fmt r, r)]) (map (lf_json fmt) rs) =
      Inr ((m @ [(lf_key fmt r, r)]) @ map (\<lambda>r. (lf_key fmt r, r)) rs)"
    using Cons.prems by (intro Cons.IH) auto
  ultimately show ?case by simp
qed simp

text \<open>An unfinished last record is no record and nothing else the format reads.\<close>

definition torn_end :: "'r log_format \<Rightarrow> string \<Rightarrow> bool" where
  "torn_end fmt torn \<longleftrightarrow> newline \<notin> set torn \<and> utf8_valid torn \<and> lf_read fmt torn = None"

lemma collect_log:
  assumes "healthy ri" "\<forall>r \<in> set rs. reads_back fmt r" "sorted_wrt (<) (map (lf_key fmt) rs)" "torn = [] \<or> torn_end fmt torn"
    and "log_files fmt (root, d) = [(path, log_text fmt rs @ torn)]"
  shows "collect_records fmt ri [(root, d)] = Inr (map (\<lambda>r. (lf_key fmt r, r)) rs)"
proof -
  have "readable_lines (log_text fmt rs @ torn) = map (lf_json fmt) rs @ (if torn = [] then [] else [torn])"
    unfolding log_text_def using assms(2,4) by (intro readable_lines_written) (auto simp: reads_back_def torn_end_def utf8_valid_def)
  moreover have "res_fold (collect_line fmt path) m (if torn = [] then [] else [torn]) = Inr m" for m
    using assms(4) by (auto simp: torn_end_def collect_line_def)
  ultimately show ?thesis
    using assms collect_lines [of rs fmt "[]" path] by (simp add: collect_records_def collect_file_def res_fold_append)
qed

lemma legacy_written:
  assumes "healthy ri" "\<forall>r \<in> set rs. reads_back fmt r" "torn = [] \<or> torn_end fmt torn"
  shows "legacy_lines fmt ri (Some (log_text fmt rs @ torn)) = Inr (if trim torn = [] then [] else [torn])"
proof -
  have "readable_lines (log_text fmt rs @ torn) = map (lf_json fmt) rs @ (if torn = [] then [] else [torn])"
    unfolding log_text_def using assms(2,3) by (intro readable_lines_written) (auto simp: reads_back_def torn_end_def utf8_valid_def)
  moreover have "trim [] = []" by code_simp
  ultimately show ?thesis using assms by (auto simp: legacy_lines_def reads_back_def torn_end_def filter_empty_conv)
qed

section \<open>Writing the restored log\<close>

lemma restore_loop_chain:
  assumes "healthy ri" "chain fmt restored (filter (\<lambda>r. base < lf_key fmt r) rs) n"
  shows "restore_loop fmt ri base None None restored rs = (log_text fmt (filter (\<lambda>r. base < lf_key fmt r) rs), Inr n)"
  using assms(2)
proof (induction rs arbitrary: restored)
  case (Cons r rs)
  then show ?case using assms(1) by (cases "base < lf_key fmt r") (auto simp: not_less)
qed simp

lemma restore_log_latest:
  assumes "healthy ri" "\<forall>r \<in> set rs. reads_back fmt r" "torn = [] \<or> torn_end fmt torn"
    and "chain fmt base (filter (\<lambda>r. base < lf_key fmt r) rs) n"
  shows "restore_log fmt ri name (Some (log_text fmt rs @ torn)) True base None None rs d =
     (Inr n, AList.update name ((if trim torn = [] then [] else torn @ [newline]) @ log_text fmt (filter (\<lambda>r. base < lf_key fmt r) rs)) d)"
  using assms by (simp add: restore_log_def legacy_written restore_loop_chain Let_def)

text \<open>The records a database replays form a chain.\<close>

lemma sql_replay_chain:
  assumes "res_fold (replay_record pf) c rs = Inr c'" "sorted_wrt (<) (map wr_commit_version rs)"
    and "\<forall>r \<in> set rs. base < wr_commit_version r \<longrightarrow> cat_version c < wr_commit_version r" "base \<le> cat_version c"
  shows "chain (sql_log pf) (cat_version c) (filter (\<lambda>r. base < wr_commit_version r) rs) (cat_version c')"
  using assms
proof (induction rs arbitrary: c)
  case (Cons r rs)
  from Cons.prems(1) obtain c1 where r: "replay_record pf c r = Inr c1" "res_fold (replay_record pf) c1 rs = Inr c'"
    by (auto simp: rbind_Inr_iff)
  show ?case
  proof (cases "base < wr_commit_version r")
    case True
    then have "cat_version c < wr_commit_version r" using Cons.prems(3) by simp
    with r(1) have "wr_base_version r = cat_version c" "cat_version c1 = wr_commit_version r"
      by (auto simp: replay_record_def replay_transaction_def rbind_Inr_iff split: if_splits)
    with Cons.IH [OF r(2)] Cons.prems(2) True show ?thesis by (auto simp: sql_log_def)
  next
    case False
    then have "c1 = c" using r(1) Cons.prems(4) by (simp add: replay_record_def replay_transaction_def)
    with Cons.IH [OF r(2)] Cons.prems(2-4) False show ?thesis by simp
  qed
qed simp

lemma kv_contiguous_chain:
  assumes "map kr_sequence rs = [Suc base..<Suc base + length rs]" "base + length rs \<le> u64_max"
  shows "chain (kv_log_format kp) base rs (base + length rs)"
  using assms
proof (induction rs arbitrary: base)
  case (Cons r rs)
  have seq: "kr_sequence r = Suc base" "map kr_sequence rs = [Suc (Suc base)..<Suc (Suc base) + length rs]"
    using Cons.prems(1) by (simp_all add: upt_conv_Cons del: upt_Suc)
  with Cons.IH [of "Suc base"] Cons.prems(2) show ?case by (simp add: kv_log_format_def sat_add_def)
qed simp

section \<open>The files of a backup\<close>

lemma update_new: "k \<notin> fst ` set m \<Longrightarrow> AList.update k v m = m @ [(k, v)]"
  by (induction m) auto

definition base_dir :: "dir \<Rightarrow> dir" where
  "base_dir src = List.map_filter (\<lambda>n. map_option (\<lambda>s. (''base/'' @ n, s)) (map_of src n)) base_names"

lemma base_names_eq: "base_names = [''catalog.json'', ''sql_wal.log'', ''rustydb.db'', ''rustydb.wal'']"
  by (simp add: base_names_def)

lemma base_dir_copied:
  "foldl (\<lambda>d (s, p, c). AList.update p c d) [] (named_files source [] ''base/'' base_names src) = base_dir src"
  by (cases "map_of src ''catalog.json''"; cases "map_of src ''sql_wal.log''"; cases "map_of src ''rustydb.db''"; cases "map_of src ''rustydb.wal''")
    (simp_all add: named_files_def base_dir_def base_names_def map_filter_simps)

lemma base_dir_lookup:
  "map_of (base_dir src) ''base/catalog.json'' = map_of src ''catalog.json''"
  "map_of (base_dir src) ''base/sql_wal.log'' = map_of src ''sql_wal.log''"
  "map_of (base_dir src) ''base/rustydb.db'' = map_of src ''rustydb.db''"
  "map_of (base_dir src) ''base/rustydb.wal'' = map_of src ''rustydb.wal''"
  "map_of (base_dir src) ''manifest.json'' = None"
  by (cases "map_of src ''catalog.json''"; cases "map_of src ''sql_wal.log''"; cases "map_of src ''rustydb.db''"; cases "map_of src ''rustydb.wal''";
      simp add: base_dir_def base_names_def map_filter_simps)+

lemma base_dir_no_archive: "subdir ''wal_archive'' (base_dir src) = []"
  by (auto simp: subdir_def base_dir_def base_names_def map_filter_def starts_with_str_def filter_empty_conv)

lemma copy_tree_nothing: "healthy ri \<Longrightarrow> subdir ''wal_archive'' src = [] \<Longrightarrow> copy_tree ri from_root root src d = (Inr (), d)"
  by (simp add: copy_tree_def list_files_def named_files_def map_filter_simps)

lemma file_names:
  "file_name ''base/sql_wal.log'' = ''sql_wal.log''" "file_name ''base/catalog.json'' = ''catalog.json''"
  "file_name ''base/rustydb.db'' = ''rustydb.db''" "file_name ''base/rustydb.wal'' = ''rustydb.wal''"
  "file_name ''manifest.json'' = ''manifest.json''"
  by code_simp+

lemma sql_names:
  "contains_str ''sql_wal.log'' ''sql''" "\<not> contains_str ''rustydb.wal'' ''sql''"
  "\<not> ends_with_str ''catalog.json'' ''.wal''" "\<not> ends_with_str ''rustydb.db'' ''.wal''" "\<not> ends_with_str ''manifest.json'' ''.wal''"
  by code_simp+

lemma sql_log_names:
  "lf_log (sql_log pf) (file_name ''base/sql_wal.log'')" "\<not> lf_log (sql_log pf) (file_name ''base/catalog.json'')"
  "\<not> lf_log (sql_log pf) (file_name ''base/rustydb.db'')" "\<not> lf_log (sql_log pf) (file_name ''base/rustydb.wal'')"
  "\<not> lf_log (sql_log pf) (file_name ''manifest.json'')"
  unfolding file_names by (simp_all add: sql_log_def sql_names)

lemma kv_log_names:
  "lf_log (kv_log_format kp) (file_name ''base/rustydb.wal'')" "\<not> lf_log (kv_log_format kp) (file_name ''base/catalog.json'')"
  "\<not> lf_log (kv_log_format kp) (file_name ''base/rustydb.db'')" "\<not> lf_log (kv_log_format kp) (file_name ''base/sql_wal.log'')"
  "\<not> lf_log (kv_log_format kp) (file_name ''manifest.json'')"
  unfolding file_names by (simp_all add: kv_log_format_def starts_with_str_def)

text \<open>The only log of its kind, whether the manifest is there yet or not.\<close>

lemma log_files_filter:
  "log_files fmt (root, d) = map (\<lambda>p. (path_join root p, the (map_of d p)))
     (sort_key (split_char (CHR ''/'')) (filter (\<lambda>p. lf_log fmt (file_name p)) (map fst d)))"
  by (simp add: log_files_def list_files_def filter_sort)

lemma base_logs:
  assumes "map_of src ''sql_wal.log'' = Some w" "map_of src ''rustydb.wal'' = Some k" "tail = [] \<or> tail = [(''manifest.json'', s)]"
  shows "log_files (sql_log pf) (root, base_dir src @ tail) = [(path_join root ''base/sql_wal.log'', w)]"
    and "log_files (kv_log_format kp) (root, base_dir src @ tail) = [(path_join root ''base/rustydb.wal'', k)]"
  unfolding log_files_filter using assms base_dir_lookup [of src]
  by (cases "map_of src ''catalog.json''"; cases "map_of src ''rustydb.db''";
      auto simp: base_dir_def base_names_def map_filter_simps sql_log_names kv_log_names)+

section \<open>The manifest\<close>

definition described :: "platform \<Rightarrow> dir \<Rightarrow> string \<Rightarrow> backup_file" where
  "described pf d p = \<lparr>bf_path = p, bf_size = length (the (map_of d p)), bf_checksum = pf_crc pf (the (map_of d p))\<rparr>"

lemma describe_healthy: "healthy ri \<Longrightarrow> describe_file pf ri d = (\<lambda>p. Inr (described pf d p))"
  by (simp add: fun_eq_iff describe_file_def checksum_file_def described_def Let_def)

lemma validate_described:
  assumes "healthy ri" "\<forall>p \<in> set ps. map_of d' p = map_of d p \<and> map_of d p \<noteq> None"
  shows "res_all (validate_entry pf ri d') (map (described pf d) ps) = Inr ()"
  using assms(2) by (induction ps) (auto simp: res_all_def validate_entry_def described_def checksum_file_def assms(1))

section \<open>A closed data directory and its backup\<close>

text \<open>The engines' view of a directory.\<close>

definition sql_disk :: "dir \<Rightarrow> disk" where
  "sql_disk d = \<lparr>disk_wal = map_of d ''sql_wal.log'', disk_catalog = map_of d ''catalog.json'',
     disk_catalog_tmp = map_of d ''catalog.json.tmp'', disk_archive = subdir ''wal_archive'' d,
     disk_tables = (if subdir ''tables'' d = [] then None else Some (subdir ''tables'' d))\<rparr>"

definition kv_disk_of :: "dir \<Rightarrow> kv_disk" where
  "kv_disk_of d = \<lparr>kd_wal = map_of d ''rustydb.wal'', kd_snapshot = map_of d ''rustydb.db'',
     kd_snapshot_tmp = map_of d ''rustydb.db.tmp'', kd_archive = subdir ''wal_archive'' d\<rparr>"

definition kv_base :: "kv_platform \<Rightarrow> string option \<Rightarrow> nat option" where
  "kv_base kp file = (case file of
     None \<Rightarrow> Some 0
   | Some bytes \<Rightarrow> if utf8_valid bytes then Some (case kp_read_snapshot kp bytes of Some s \<Rightarrow> kn_sequence s | None \<Rightarrow> 0) else None)"

text \<open>
  The logs as the engines leave them: records in the order of their numbers, those of the
  store without a gap behind its snapshot, and perhaps an unfinished SQL record.
\<close>

definition closed_dir ::
  "platform \<Rightarrow> kv_platform \<Rightarrow> dir \<Rightarrow> wal_record list \<Rightarrow> string \<Rightarrow> kv_wal_record list \<Rightarrow> nat \<Rightarrow> bool" where
  "closed_dir pf kp src rs torn krs k0 \<longleftrightarrow>
     subdir ''wal_archive'' src = [] \<and> subdir ''tables'' src = [] \<and>
     map_of src ''sql_wal.log'' = Some (log_bytes pf rs @ torn) \<and> (\<forall>r \<in> set rs. readable pf r) \<and>
     sorted_wrt (<) (map wr_commit_version rs) \<and> (torn = [] \<or> newline \<notin> set torn \<and> unreadable pf torn) \<and>
     map_of src ''rustydb.wal'' = Some (kv_log_bytes kp krs) \<and> (\<forall>r \<in> set krs. kv_readable kp r) \<and>
     map kr_sequence krs = [Suc k0..<Suc k0 + length krs] \<and> k0 + length krs \<le> u64_max \<and>
     kv_base kp (map_of src ''rustydb.db'') = Some k0"

lemma log_text_sql: "log_text (sql_log pf) rs = log_bytes pf rs"
  by (simp add: log_text_def log_bytes_def sql_log_def)

lemma log_text_kv: "log_text (kv_log_format kp) rs = kv_log_bytes kp rs"
  by (simp add: log_text_def kv_log_bytes_def kv_log_format_def)

lemma reads_back_sql: "reads_back (sql_log pf) r \<longleftrightarrow> readable pf r"
  by (simp add: reads_back_def readable_def sql_log_def)

lemma reads_back_kv: "reads_back (kv_log_format kp) r \<longleftrightarrow> kv_readable kp r"
  by (simp add: reads_back_def kv_readable_def kv_log_format_def)

lemma torn_end_sql: "newline \<notin> set torn \<and> unreadable pf torn \<Longrightarrow> torn_end (sql_log pf) torn"
  by (simp add: torn_end_def unreadable_def sql_log_def)

lemma closed_sequences: "closed_dir pf kp src rs torn krs k0 \<Longrightarrow> r \<in> set krs \<Longrightarrow> k0 < kr_sequence r"
proof -
  assume "closed_dir pf kp src rs torn krs k0" "r \<in> set krs"
  then have "kr_sequence r \<in> set [Suc k0..<Suc k0 + length krs]" unfolding closed_dir_def by (metis image_eqI set_map)
  then show ?thesis by auto
qed

lemma read_sql_snapshot_base:
  assumes "healthy ri" "load_catalog pf (sql_disk src) = Inr c0" "subdir ''tables'' src = []"
  shows "\<exists>t. read_sql_snapshot pf ri (map_of src ''catalog.json'') = Inr (cat_version c0, t)"
proof (cases "map_of src ''catalog.json''")
  case None
  then show ?thesis using assms by (auto simp: read_sql_snapshot_def load_catalog_def sql_disk_def catalog_from_tables_def)
next
  case (Some bytes)
  then show ?thesis using assms
    by (cases "pf_read_catalog pf bytes")
      (auto simp: read_sql_snapshot_def load_catalog_def sql_disk_def read_to_string_def context_fail_def split: if_splits error.splits)
qed

lemma read_kv_snapshot_base:
  "healthy ri \<Longrightarrow> kv_base kp file = Some k0 \<Longrightarrow> \<exists>t. read_kv_snapshot kp ri file = Inr (k0, t)"
  by (auto simp: kv_base_def read_kv_snapshot_def read_to_string_def split: option.splits if_splits)

definition backup_of :: "recovery_platform \<Rightarrow> dir \<Rightarrow> backup_manifest \<Rightarrow> dir" where
  "backup_of rp src m = base_dir src @ [(''manifest.json'', rp_manifest_json rp m)]"

lemma create_closed:
  assumes "healthy ri" "unlocked held source" "closed_dir pf kp src rs torn krs k0" "load_catalog pf (sql_disk src) = Inr c0"
  shows "\<exists>m. backup_create rp pf kp ri held source src destination [] = (Inr m, backup_of rp src m) \<and>
     make_manifest pf kp ri destination (base_dir src) = Inr m \<and> bm_format_version m = BACKUP_FORMAT_VERSION \<and> bm_base_point m = \<lparr>sql_commit_version = cat_version c0, kv_sequence = k0\<rparr> \<and>
     bm_files m = map (described pf (base_dir src))
       (filter (\<lambda>p. file_name p \<noteq> ''manifest.json'' \<and> file_name p \<noteq> ''manifest.json.tmp'') (list_files (base_dir src)))"
proof -
  have src: "subdir ''wal_archive'' src = []" "subdir ''tables'' src = []" "kv_base kp (map_of src ''rustydb.db'') = Some k0"
    using assms(3) by (simp_all add: closed_dir_def)
  obtain t1 where sql: "read_sql_snapshot pf ri (map_of src ''catalog.json'') = Inr (cat_version c0, t1)"
    using read_sql_snapshot_base [OF assms(1,4) src(2)] by blast
  obtain t2 where kv: "read_kv_snapshot kp ri (map_of src ''rustydb.db'') = Inr (k0, t2)"
    using read_kv_snapshot_base [OF assms(1) src(3)] by blast
  have update: "AList.update ''manifest.json'' x (base_dir src) = base_dir src @ [(''manifest.json'', x)]" for x
    using base_dir_lookup(5) [of src] by (intro update_new) (simp add: map_of_eq_None_iff)
  obtain m where m: "make_manifest pf kp ri destination (base_dir src) = Inr m"
    "bm_format_version m = BACKUP_FORMAT_VERSION" "bm_base_point m = \<lparr>sql_commit_version = cat_version c0, kv_sequence = k0\<rparr>"
    "bm_files m = map (described pf (base_dir src))
       (filter (\<lambda>p. file_name p \<noteq> ''manifest.json'' \<and> file_name p \<noteq> ''manifest.json.tmp'') (list_files (base_dir src)))"
    using assms(1) sql kv by (simp add: make_manifest_def base_dir_lookup describe_healthy res_map_Inr_map)
  have "publish_manifest rp ri m (base_dir src) = (Inr m, backup_of rp src m)"
    using assms(1) by (simp add: publish_manifest_def Let_def update backup_of_def)
  with m assms(1,2) src(1) show ?thesis
    by (simp add: backup_create_def pure_on_def ensure_destination_empty_def copy_files_healthy base_dir_copied copy_tree_nothing)
qed

section \<open>Restoring it\<close>

lemma backup_of_lookup:
  "map_of (backup_of rp src m) ''base/catalog.json'' = map_of src ''catalog.json''"
  "map_of (backup_of rp src m) ''base/sql_wal.log'' = map_of src ''sql_wal.log''"
  "map_of (backup_of rp src m) ''base/rustydb.db'' = map_of src ''rustydb.db''"
  "map_of (backup_of rp src m) ''base/rustydb.wal'' = map_of src ''rustydb.wal''"
  "map_of (backup_of rp src m) ''manifest.json'' = Some (rp_manifest_json rp m)"
  by (simp_all add: backup_of_def map_add_def base_dir_lookup split: option.splits)

lemma backup_of_no_archive: "subdir ''wal_archive'' (backup_of rp src m) = []"
  using base_dir_no_archive [of src] by (simp add: backup_of_def subdir_def starts_with_str_def)

lemma backup_valid:
  assumes "healthy ri" "rp_read_manifest rp (rp_manifest_json rp m) = Inr m" "bm_format_version m = BACKUP_FORMAT_VERSION"
    and "bm_files m = map (described pf (base_dir src))
       (filter (\<lambda>p. file_name p \<noteq> ''manifest.json'' \<and> file_name p \<noteq> ''manifest.json.tmp'') (list_files (base_dir src)))"
  shows "read_manifest rp pf ri (backup_of rp src m) = Inr m"
proof -
  have "map_of (backup_of rp src m) p = map_of (base_dir src) p \<and> map_of (base_dir src) p \<noteq> None"
    if "p \<in> set (list_files (base_dir src))" for p
    using that by (auto simp: list_files_def backup_of_def map_add_def map_of_eq_None_iff dom_map_of_conv_image_fst split: option.splits)
  then have "validate_manifest pf ri (backup_of rp src m) m = Inr ()"
    unfolding validate_manifest_def assms(4) using assms(1) by (intro validate_described) auto
  then show ?thesis using assms(2,3) by (simp add: read_manifest_def backup_of_lookup context_fail_def)
qed

text \<open>The snapshots in the destination, beside the lock files.\<close>

definition restored_base :: "dir \<Rightarrow> dir" where
  "restored_base src = foldl (\<lambda>d (s, p, c). AList.update p c d) (lock_files [])
     (List.map_filter (\<lambda>n. map_option (\<lambda>s. ([] :: string, n, s)) (map_of src n)) [''catalog.json'', ''rustydb.db''])"

lemma restored_base_copied:
  "foldl (\<lambda>d (s, p, c). AList.update p c d) (lock_files [])
     (named_files backup ''base/'' [] [''catalog.json'', ''rustydb.db''] (backup_of rp src m)) = restored_base src"
  by (cases "map_of src ''catalog.json''"; cases "map_of src ''rustydb.db''")
    (simp_all add: named_files_def restored_base_def map_filter_simps backup_of_lookup)

lemma restored_base_lookup:
  "map_of (restored_base src) ''catalog.json'' = map_of src ''catalog.json''"
  "map_of (restored_base src) ''rustydb.db'' = map_of src ''rustydb.db''"
  "subdir ''tables'' (restored_base src) = []"
  by (cases "map_of src ''catalog.json''"; cases "map_of src ''rustydb.db''";
      simp add: restored_base_def map_filter_simps lock_files_def subdir_def starts_with_str_def)+

definition restored_dir :: "dir \<Rightarrow> string \<Rightarrow> string \<Rightarrow> dir" where
  "restored_dir src sql kv = AList.update ''rustydb.wal'' kv (AList.update ''sql_wal.log'' sql (restored_base src))"

lemma restore_closed:
  assumes "healthy ri" "unlocked held destination" "closed_dir pf kp src rs torn krs k0"
    and "rp_read_manifest rp (rp_manifest_json rp m) = Inr m" "bm_format_version m = BACKUP_FORMAT_VERSION"
    and "bm_base_point m = \<lparr>sql_commit_version = cat_version c0, kv_sequence = k0\<rparr>"
    and "bm_files m = map (described pf (base_dir src))
       (filter (\<lambda>p. file_name p \<noteq> ''manifest.json'' \<and> file_name p \<noteq> ''manifest.json.tmp'') (list_files (base_dir src)))"
    and "res_fold (replay_record pf) c0 rs = Inr c"
  shows "backup_restore rp pf kp ri held backup (backup_of rp src m) None destination [] Latest =
     (Inr \<lparr>sql_commit_version = cat_version c, kv_sequence = k0 + length krs\<rparr>,
      restored_dir src
        ((if trim torn = [] then [] else torn @ [newline]) @ log_bytes pf (filter (\<lambda>r. cat_version c0 < wr_commit_version r) rs))
        (kv_log_bytes kp krs))"
proof -
  let ?bk = "backup_of rp src m"
  have closed: "map_of src ''sql_wal.log'' = Some (log_bytes pf rs @ torn)" "\<forall>r \<in> set rs. readable pf r"
    "sorted_wrt (<) (map wr_commit_version rs)" "torn = [] \<or> newline \<notin> set torn \<and> unreadable pf torn"
    "map_of src ''rustydb.wal'' = Some (kv_log_bytes kp krs)" "\<forall>r \<in> set krs. kv_readable kp r"
    "map kr_sequence krs = [Suc k0..<Suc k0 + length krs]" "k0 + length krs \<le> u64_max"
    using assms(3) by (simp_all add: closed_dir_def)
  have sorted_kv: "sorted_wrt (<) (map (lf_key (kv_log_format kp)) krs)"
    using closed(7) by (simp add: kv_log_format_def del: upt_Suc)
  note logs = base_logs [OF closed(1,5), of "[(''manifest.json'', rp_manifest_json rp m)]" "rp_manifest_json rp m" _ backup, folded backup_of_def]
  have sql: "collect_records (sql_log pf) ri [(backup, ?bk)] = Inr (map (\<lambda>r. (wr_commit_version r, r)) rs)"
    using collect_log [OF assms(1), of rs "sql_log pf" torn backup ?bk] closed logs(1) torn_end_sql
    by (auto simp: reads_back_sql log_text_sql) (simp_all add: sql_log_def)
  have kv: "collect_records (kv_log_format kp) ri [(backup, ?bk)] = Inr (map (\<lambda>r. (kr_sequence r, r)) krs)"
    using collect_log [OF assms(1), of krs "kv_log_format kp" "[]" backup ?bk] closed logs(2) sorted_kv
    by (auto simp: reads_back_kv log_text_kv) (simp_all add: kv_log_format_def)
  have collected: "collect_all pf kp ri [(backup, ?bk)] = Inr (rs, krs)"
    by (simp add: collect_all_def sql kv comp_def)
  have "chain (sql_log pf) (cat_version c0) (filter (\<lambda>r. cat_version c0 < lf_key (sql_log pf) r) rs) (cat_version c)"
    using sql_replay_chain [OF assms(8) closed(3), of "cat_version c0"] by (simp add: sql_log_def)
  then have sql_restored: "restore_log (sql_log pf) ri ''sql_wal.log'' (map_of ?bk ''base/sql_wal.log'') True (cat_version c0) None None rs d =
      (Inr (cat_version c), AList.update ''sql_wal.log''
        ((if trim torn = [] then [] else torn @ [newline]) @ log_bytes pf (filter (\<lambda>r. cat_version c0 < wr_commit_version r) rs)) d)" for d
    using restore_log_latest [OF assms(1), of rs "sql_log pf" torn] closed(1,2,4) torn_end_sql
    by (auto simp: backup_of_lookup reads_back_sql log_text_sql) (simp_all add: sql_log_def)
  have all_later: "filter (\<lambda>r. k0 < lf_key (kv_log_format kp) r) krs = krs"
    using closed_sequences [OF assms(3)] by (simp add: kv_log_format_def)
  have "trim [] = []" by code_simp
  then have kv_restored: "restore_log (kv_log_format kp) ri ''rustydb.wal'' (map_of ?bk ''base/rustydb.wal'') True k0 None None krs d =
      (Inr (k0 + length krs), AList.update ''rustydb.wal'' (kv_log_bytes kp krs) d)" for d
    using restore_log_latest [OF assms(1), of krs "kv_log_format kp" "[]" k0] kv_contiguous_chain [OF closed(7,8)] closed(5,6)
    by (simp add: backup_of_lookup reads_back_kv log_text_kv all_later)
  have "check_target m Latest = Inr None"
    by (simp add: check_target_def target_cutoff_def target_point_def Let_def)
  moreover note backup_valid [OF assms(1,4,5,7)]
  ultimately show ?thesis
    using assms(1,2,6)
    by (simp add: backup_restore_def pure_on_def ensure_destination_empty_def copy_files_healthy restored_base_copied
        copy_tree_nothing backup_of_no_archive collected target_point_def sql_restored kv_restored check_reached_def restored_dir_def)
qed

section \<open>What opens\<close>

lemma restored_dir_lookup:
  "map_of (restored_dir src sql kv) ''sql_wal.log'' = Some sql" "map_of (restored_dir src sql kv) ''rustydb.wal'' = Some kv"
  "map_of (restored_dir src sql kv) ''catalog.json'' = map_of src ''catalog.json''"
  "map_of (restored_dir src sql kv) ''rustydb.db'' = map_of src ''rustydb.db''"
  by (simp_all add: restored_dir_def update_conv' restored_base_lookup)

lemma subdir_update: "\<not> starts_with_str k (name @ ''/'') \<Longrightarrow> subdir name (AList.update k v d) = subdir name d"
  by (induction d) (auto simp: subdir_def)

lemma restored_dir_tables: "subdir ''tables'' (restored_dir src sql kv) = []"
  by (simp add: restored_dir_def subdir_update restored_base_lookup starts_with_str_def)

lemma load_catalog_restored:
  "subdir ''tables'' src = [] \<Longrightarrow> load_catalog pf (sql_disk (restored_dir src sql kv)) = load_catalog pf (sql_disk src)"
  by (cases "map_of src ''catalog.json''") (simp_all add: load_catalog_def sql_disk_def restored_dir_lookup restored_dir_tables)

lemma kv_recover_restored:
  "map_of src ''rustydb.wal'' = Some kv \<Longrightarrow> kv_recover kp (kv_disk_of (restored_dir src sql kv)) = kv_recover kp (kv_disk_of src)"
  by (simp add: kv_recover_def recover_snapshot_def kv_disk_of_def restored_dir_lookup)

lemma closed_replay:
  assumes "closed_dir pf kp src rs torn krs k0" "recover pf (sql_disk src) = Inr c"
  obtains c0 where "load_catalog pf (sql_disk src) = Inr c0" "res_fold (replay_record pf) c0 rs = Inr c"
proof -
  have closed: "map_of src ''sql_wal.log'' = Some (log_bytes pf rs @ torn)" "\<forall>r \<in> set rs. readable pf r"
    "torn = [] \<or> newline \<notin> set torn \<and> unreadable pf torn"
    using assms(1) by (simp_all add: closed_dir_def)
  from assms(2) closed(1) obtain c0 where c0: "load_catalog pf (sql_disk src) = Inr c0" "replay_wal pf (log_bytes pf rs @ torn) c0 = Inr c"
    by (auto simp: recover_def sql_disk_def rbind_Inr_iff)
  have "replay_wal pf (log_bytes pf rs @ torn) c0 = res_fold (replay_record pf) c0 rs"
    using closed(2,3) replay_torn [of rs pf torn c0] replay_written [of rs pf c0] by auto
  with c0 that show thesis by simp
qed

text \<open>The whole way: a backup is created, restored to the latest state, and its files are opened.\<close>

lemma backup_and_restore:
  assumes "healthy ri" "unlocked held source" "unlocked held destination" "closed_dir pf kp src rs torn krs k0"
    and "recover pf (sql_disk src) = Inr c" "\<And>m. make_manifest pf kp ri backup (base_dir src) = Inr m \<Longrightarrow> rp_read_manifest rp (rp_manifest_json rp m) = Inr m"
  obtains m bk c0 where "backup_create rp pf kp ri held source src backup [] = (Inr m, bk)"
    and "load_catalog pf (sql_disk src) = Inr c0" "res_fold (replay_record pf) c0 rs = Inr c"
    and "backup_restore rp pf kp ri held backup bk None destination [] Latest =
     (Inr \<lparr>sql_commit_version = cat_version c, kv_sequence = k0 + length krs\<rparr>,
      restored_dir src
        ((if trim torn = [] then [] else torn @ [newline]) @ log_bytes pf (filter (\<lambda>r. cat_version c0 < wr_commit_version r) rs))
        (kv_log_bytes kp krs))"
proof -
  obtain c0 where c0: "load_catalog pf (sql_disk src) = Inr c0" "res_fold (replay_record pf) c0 rs = Inr c"
    using closed_replay [OF assms(4,5)] .
  from create_closed [OF assms(1,2,4) c0(1)] obtain m where m: "backup_create rp pf kp ri held source src backup [] = (Inr m, backup_of rp src m)"
    "make_manifest pf kp ri backup (base_dir src) = Inr m"
    "bm_format_version m = BACKUP_FORMAT_VERSION" "bm_base_point m = \<lparr>sql_commit_version = cat_version c0, kv_sequence = k0\<rparr>"
    "bm_files m = map (described pf (base_dir src))
       (filter (\<lambda>p. file_name p \<noteq> ''manifest.json'' \<and> file_name p \<noteq> ''manifest.json.tmp'') (list_files (base_dir src)))"
    by blast
  from that [OF m(1) c0 restore_closed [OF assms(1,3,4) assms(6) [OF m(2)] m(3-5) c0(2)]] show thesis .
qed

lemma restored_database_opens:
  assumes "closed_dir pf kp src rs torn krs k0" "load_catalog pf (sql_disk src) = Inr c0" "res_fold (replay_record pf) c0 rs = Inr c"
  shows "recover pf (sql_disk (restored_dir src (log_bytes pf (filter (\<lambda>r. cat_version c0 < wr_commit_version r) rs)) kv)) = Inr c"
proof -
  have closed: "subdir ''tables'' src = []" "\<forall>r \<in> set rs. readable pf r" using assms(1) by (simp_all add: closed_dir_def)
  have "replay_wal pf (log_bytes pf (filter (\<lambda>r. cat_version c0 < wr_commit_version r) rs)) c0 = Inr c"
    using closed(2) replay_written [of "filter (\<lambda>r. cat_version c0 < wr_commit_version r) rs" pf c0]
      wal.replay_filter [of "cat_version c0" c0 pf rs] assms(3) by simp
  then show ?thesis
    using load_catalog_restored [OF closed(1), of pf] assms(2) by (simp add: recover_def) (simp add: sql_disk_def restored_dir_lookup)
qed

lemma torn_log_opens_to_base:
  assumes "closed_dir pf kp src rs torn krs k0" "load_catalog pf (sql_disk src) = Inr c0"
    and "newline \<notin> set torn" "unreadable pf torn" "trim torn \<noteq> []" "strip_cr torn = torn"
  shows "recover pf (sql_disk (restored_dir src ((torn @ [newline]) @ rest) kv)) = Inr c0"
proof -
  have closed: "subdir ''tables'' src = []" using assms(1) by (simp add: closed_dir_def)
  have "replay_line pf c0 torn = Inr (c0, False)"
    using assms(4,5) by (auto simp: unreadable_def replay_line_def replay_raw_def)
  then have "replay_wal pf ((torn @ [newline]) @ rest) c0 = Inr c0"
    using file_lines_Cons [OF assms(3), of rest] assms(6) by (simp add: replay_wal_def)
  then show ?thesis
    using load_catalog_restored [OF closed, of pf] assms(2) by (simp add: recover_def) (simp add: sql_disk_def restored_dir_lookup)
qed

section \<open>What a backup leaves out\<close>

text \<open>Tables kept in the files of the old format are not part of a backup.\<close>

lemma legacy_tables_left_out: "base_dir src = base_dir (filter (\<lambda>(p, s). \<not> starts_with_str p ''tables/'') src)"
proof -
  let ?rest = "filter (\<lambda>(p, s). \<not> starts_with_str p ''tables/'') src"
  have cong: "(\<And>n. n \<in> set ns \<Longrightarrow> f n = g n) \<Longrightarrow> List.map_filter f ns = List.map_filter g ns"
    for f g :: "string \<Rightarrow> (string \<times> string) option" and ns by (induction ns) (auto simp: map_filter_simps split: option.splits)
  have "map_of src n = map_of ?rest n" if "\<not> starts_with_str n ''tables/''" for n
    using that by (induction src) auto
  moreover have "\<not> starts_with_str n ''tables/''" if "n \<in> set base_names" for n
    using that by (auto simp: base_names_def starts_with_str_def)
  ultimately have "map_of src n = map_of ?rest n" if "n \<in> set base_names" for n using that by blast
  then show ?thesis unfolding base_dir_def by (intro cong) simp
qed

end
