(* ===== verification/SqlAst.thy ===== *)
theory SqlAst
  imports Rdb_Prelude
begin

text \<open>
  The syntax trees of the \<open>sqlparser\<close> package (version 0.53) as
  \<^verbatim>\<open>src/src/sql/parser.rs\<close> reads them: one constructor for every variant that the
  conversion names, with the fields it names, and one constructor \<open>...Other\<close> for the variants
  it does not. A field that the conversion only tests for presence (\<open>is_some\<close>, \<open>is_empty\<close>)
  is a \<open>bool\<close>, an identifier is its \<open>value\<close>, an object name the list of its identifiers, and
  a data type its printed text, which is all the conversion looks at. A \<open>DELETE\<close> also has its
  \<open>ORDER BY\<close> and its \<open>LIMIT\<close>, which the conversion does not read. How a tree is printed in
  error messages is the package's: a record of printers.
\<close>

section \<open>Expressions and queries\<close>

datatype sql_value =
    SvNumber string bool
  | SvSingleQuotedString string
  | SvDoubleQuotedString string
  | SvNationalStringLiteral string
  | SvEscapedStringLiteral string
  | SvBoolean bool
  | SvNull
  | SvPlaceholder string
  | SvOther string

datatype sql_binary_op =
    SbPlus | SbMinus | SbMultiply | SbDivide | SbEq | SbNotEq | SbLt | SbLtEq | SbGt | SbGtEq
  | SbAnd | SbOr | SbOther string

datatype sql_unary_op = SuNot | SuMinus | SuPlus | SuOther string

datatype duplicate_treatment = TreatDistinct | TreatAll

datatype table_alias = TableAlias (alias_name: string) (alias_columns: "string list")

text \<open>
  Functions, table sources, joins and clauses have the expressions and queries below them as
  parameters, so that only expressions, queries and query bodies are mutually recursive.
\<close>

datatype 'e sql_function_arg =
    SaUnnamedExpr 'e
  | SaUnnamedWildcard
  | SaOther string

datatype 'e sql_function_args =
    SfNone
  | SfSubquery
  | SfList "duplicate_treatment option" "'e sql_function_arg list"

datatype 'e sql_function = SqlFunction
    (fn_name: "string list")
    (fn_args: "'e sql_function_args")
    (fn_over: bool)
    (fn_filter: bool)
    (fn_within_group: bool)

datatype 'e sql_group_by =
    SgExpressions "'e list" (group_modifiers: bool)
  | SgAll

datatype 'e sql_select_item =
    SiWildcard bool
  | SiQualifiedWildcard "string list" bool
  | SiUnnamedExpr 'e
  | SiExprWithAlias 'e string

datatype 'e sql_order_by = SqlOrderBy (ob_expr: 'e) (ob_asc: "bool option")

datatype 'q sql_cte = SqlCte (sql_cte_alias: table_alias) (sql_cte_query: 'q)

datatype 'q sql_with = SqlWith (with_recursive: bool) (with_ctes: "'q sql_cte list")

datatype 'q sql_table_factor =
    StTable "string list" "table_alias option" bool
  | StDerived bool 'q "table_alias option"
  | StOther string

datatype 'e sql_join_constraint =
    ScOn 'e
  | ScUsing "string list"
  | ScNatural
  | ScNone

datatype 'e sql_join_operator =
    SjInner "'e sql_join_constraint"
  | SjLeftOuter "'e sql_join_constraint"
  | SjRightOuter "'e sql_join_constraint"
  | SjFullOuter "'e sql_join_constraint"
  | SjCrossJoin
  | SjOther string

datatype ('e, 'q) sql_join = SqlJoin (sj_relation: "'q sql_table_factor") (sj_operator: "'e sql_join_operator")

datatype ('e, 'q) sql_table_with_joins = SqlTableWithJoins
    (twj_relation: "'q sql_table_factor")
    (twj_joins: "('e, 'q) sql_join list")

datatype ('e, 'q) sql_select = SqlSelect
    (sel_distinct: bool)
    (sel_projection: "'e sql_select_item list")
    (sel_from: "('e, 'q) sql_table_with_joins list")
    (sel_selection: "'e option")
    (sel_group_by: "'e sql_group_by")
    (sel_having: "'e option")

datatype sql_expr =
    SeIdentifier string
  | SeCompoundIdentifier "string list"
  | SeValue sql_value
  | SeNested sql_expr
  | SeBinaryOp sql_expr sql_binary_op sql_expr
  | SeUnaryOp sql_unary_op sql_expr
  | SeIsNull sql_expr
  | SeIsNotNull sql_expr
  | SeLike bool bool sql_expr sql_expr "string option"
  | SeInList sql_expr "sql_expr list" bool
  | SeInSubquery sql_expr sql_query bool
  | SeExists sql_query bool
  | SeSubquery sql_query
  | SeFunction "sql_expr sql_function"
  | SeOther string
and sql_query = SqlQuery
    (sq_with: "sql_query sql_with option")
    (sq_body: sql_set_expr)
    (sq_order_by: "sql_expr sql_order_by list option")
    (sq_limit: "sql_expr option")
    (sq_limit_by: bool)
    (sq_offset: bool)
    (sq_fetch: bool)
and sql_set_expr =
    SxSelect "(sql_expr, sql_query) sql_select"
  | SxQuery sql_query
  | SxValues "sql_expr list list"
  | SxOther string

section \<open>Statements\<close>

datatype referential_action = RaRestrict | RaCascade | RaSetNull | RaNoAction | RaSetDefault

record sql_foreign_key =
  sfk_table :: "string list"
  sfk_referred :: "string list"
  sfk_on_delete :: "referential_action option"
  sfk_on_update :: "referential_action option"

datatype sql_column_option =
    CoNull
  | CoNotNull
  | CoDefault sql_expr
  | CoUnique bool
  | CoCheck sql_expr
  | CoForeignKey sql_foreign_key
  | CoOther string

record sql_column_def =
  scd_name :: string
  scd_data_type :: string
  scd_options :: "(string option \<times> sql_column_option) list"

datatype sql_table_constraint =
    TcPrimaryKey "string option" "string list"
  | TcUnique "string option" "string list"
  | TcCheck "string option" sql_expr
  | TcForeignKey "string option" "string list" sql_foreign_key
  | TcIndex
  | TcOther string

datatype sql_alter_column =
    AcSetNotNull
  | AcDropNotNull
  | AcSetDefault sql_expr
  | AcDropDefault
  | AcSetDataType string (ac_using: "sql_expr option")
  | AcOther string

datatype sql_alter_operation =
    AoAddColumn sql_column_def (ao_if_not_exists: bool) (ao_position: bool)
  | AoDropColumn string (ao_if_exists: bool) (ao_cascade: bool)
  | AoRenameColumn string string
  | AoChangeColumn string string string "sql_column_option list" (ao_position: bool)
  | AoModifyColumn string string "sql_column_option list" (ao_position: bool)
  | AoAlterColumn string sql_alter_column
  | AoAddConstraint sql_table_constraint
  | AoDropConstraint (ao_if_exists: bool) string (ao_cascade: bool)
  | AoDropPrimaryKey
  | AoOther string

datatype sql_assignment_target = AtColumnName "string list" | AtTuple

type_synonym sql_assignment = "sql_assignment_target \<times> sql_expr"

datatype sql_on_insert = OiDuplicateKeyUpdate "sql_assignment list" | OiOther string

record sql_create_table =
  sct_name :: "string list"
  sct_columns :: "sql_column_def list"
  sct_constraints :: "sql_table_constraint list"
  sct_if_not_exists :: bool
  sct_query :: bool
  sct_like :: bool
  sct_clone :: bool

record sql_create_index =
  sci_name :: "string list option"
  sci_table :: "string list"
  sci_using :: bool
  sci_predicate :: bool
  sci_include :: bool
  sci_columns :: "sql_expr sql_order_by list"
  sci_unique :: bool
  sci_if_not_exists :: bool

record sql_insert =
  sin_ignore :: bool
  sin_replace_into :: bool
  sin_table :: "string list"
  sin_columns :: "string list"
  sin_source :: "sql_query option"
  sin_on :: "sql_on_insert option"

record sql_delete =
  sde_from :: "(sql_expr, sql_query) sql_table_with_joins list"
  sde_selection :: "sql_expr option"
  sde_order_by :: "sql_expr sql_order_by list"
  sde_limit :: "sql_expr option"

datatype sql_statement =
    SsCreateTable sql_create_table
  | SsCreateIndex sql_create_index
  | SsAlterTable "string list" (sat_if_exists: bool) (sat_only: bool) "sql_alter_operation list"
      (sat_location: bool) (sat_on_cluster: bool)
  | SsDrop (drop_table: bool) (drop_if_exists: bool) "string list list"
  | SsInsert sql_insert
  | SsQuery sql_query
  | SsUpdate "(sql_expr, sql_query) sql_table_with_joins" "sql_assignment list" "sql_expr option"
  | SsDelete sql_delete
  | SsShowTables
  | SsExplainTable "string list"
  | SsExplain sql_statement
  | SsStartTransaction
  | SsCommit
  | SsRollback (savepoint: "string option")
  | SsOther string

record sql_display =
  sd_expr :: "sql_expr \<Rightarrow> string"
  sd_value :: "sql_value \<Rightarrow> string"
  sd_binary_op :: "sql_binary_op \<Rightarrow> string"
  sd_unary_op :: "sql_unary_op \<Rightarrow> string"
  sd_column_option :: "sql_column_option \<Rightarrow> string"
  sd_table_constraint :: "sql_table_constraint \<Rightarrow> string"
  sd_alter_operation :: "sql_alter_operation \<Rightarrow> string"
  sd_on_insert :: "sql_on_insert \<Rightarrow> string"
  sd_statement :: "sql_statement \<Rightarrow> string"

end
