(* ===== verification/Convert.thy ===== *)
theory Convert
  imports SqlText SqlAst Planner
begin

text \<open>
  The conversion of \<open>sqlparser\<close>'s syntax trees into RustyDB's statements,
  \<^verbatim>\<open>src/src/sql/parser.rs\<close> (lines 285 to 438 and 684 to 1383), in the order of the code and
  with its errors. The printers of the package are the argument \<open>d\<close>.
\<close>

section \<open>Names, values, operators and data types\<close>

definition unsupported :: "string \<Rightarrow> 'a res" where
  "unsupported msg = Inl (Fail msg)"

definition object_name :: "string list \<Rightarrow> string" where
  "object_name ids = (if ids = [] then [] else to_ascii_lowercase (last ids))"

definition is_float_text :: "string \<Rightarrow> bool" where
  "is_float_text s \<longleftrightarrow> list_ex (\<lambda>c. c \<in> {CHR ''.'', CHR ''e'', CHR ''E''}) s"

fun convert_value :: "sql_display \<Rightarrow> sql_value \<Rightarrow> val res" where
  "convert_value d (SvNumber number long) =
     (if is_float_text number
      then ok_or (map_option VFloat (parse_f64 number)) (''Invalid number: '' @ number)
      else ok_or (map_option VInteger (parse_i64 number)) (''Invalid integer: '' @ number))"
| "convert_value d (SvSingleQuotedString s) = Inr (VText s)"
| "convert_value d (SvDoubleQuotedString s) = Inr (VText s)"
| "convert_value d (SvNationalStringLiteral s) = Inr (VText s)"
| "convert_value d (SvEscapedStringLiteral s) = Inr (VText s)"
| "convert_value d (SvBoolean b) = Inr (VBoolean b)"
| "convert_value d SvNull = Inr VNull"
| "convert_value d other = unsupported (''Unsupported literal: '' @ sd_value d other)"

fun convert_binary_op :: "sql_display \<Rightarrow> sql_binary_op \<Rightarrow> binary_op res" where
  "convert_binary_op d SbPlus = Inr BAdd"
| "convert_binary_op d SbMinus = Inr BSubtract"
| "convert_binary_op d SbMultiply = Inr BMultiply"
| "convert_binary_op d SbDivide = Inr BDivide"
| "convert_binary_op d SbEq = Inr (BCompare OpEqual)"
| "convert_binary_op d SbNotEq = Inr (BCompare OpNotEqual)"
| "convert_binary_op d SbLt = Inr (BCompare OpLessThan)"
| "convert_binary_op d SbLtEq = Inr (BCompare OpLessThanOrEqual)"
| "convert_binary_op d SbGt = Inr (BCompare OpGreaterThan)"
| "convert_binary_op d SbGtEq = Inr (BCompare OpGreaterThanOrEqual)"
| "convert_binary_op d SbAnd = Inr BAnd"
| "convert_binary_op d SbOr = Inr BOr"
| "convert_binary_op d other = unsupported (''Unsupported binary operator: '' @ sd_binary_op d other)"

fun convert_unary_op :: "sql_display \<Rightarrow> sql_unary_op \<Rightarrow> unary_op res" where
  "convert_unary_op d SuNot = Inr UNot"
| "convert_unary_op d SuMinus = Inr UNegate"
| "convert_unary_op d SuPlus = Inr UPlus"
| "convert_unary_op d other = unsupported (''Unsupported unary operator: '' @ sd_unary_op d other)"

definition aggregate_named :: "string \<Rightarrow> aggregate_function option" where
  "aggregate_named name = map_of [(''count'', AggCount), (''sum'', AggSum), (''avg'', AggAvg),
     (''max'', AggMax), (''min'', AggMin)] name"

definition convert_data_type :: "string \<Rightarrow> data_type res" where
  "convert_data_type printed = (let shown = to_ascii_uppercase printed;
       starts = (\<lambda>ps. list_ex (\<lambda>p. take (length p) shown = p) ps)
     in if starts [''INT'', ''INTEGER'', ''BIGINT'', ''SMALLINT''] then Inr DInteger
        else if starts [''FLOAT'', ''DOUBLE'', ''REAL'', ''DECIMAL'', ''NUMERIC''] then Inr DFloat
        else if starts [''TEXT'', ''VARCHAR'', ''CHAR'', ''STRING''] then Inr DText
        else if starts [''BOOL''] then Inr DBoolean
        else unsupported (''Unsupported data type: '' @ printed))"

text \<open>What \<open>literal_value\<close> and \<open>literal_usize\<close> accept of a converted expression.\<close>

definition default_literal :: "expr \<Rightarrow> val res" where
  "default_literal e = (case e of Literal v \<Rightarrow> Inr v | _ \<Rightarrow> unsupported ''DEFAULT must be a literal'')"

definition limit_literal :: "expr \<Rightarrow> nat res" where
  "limit_literal e = (case e of
     Literal (VInteger v) \<Rightarrow>
       if 0 \<le> sint v then Inr (nat (sint v)) else unsupported ''LIMIT must be a non-negative integer''
   | _ \<Rightarrow> unsupported ''LIMIT must be a non-negative integer'')"

text \<open>The kind of a join and its constraint.\<close>

fun join_operator :: "'e sql_join_operator \<Rightarrow> (join_type \<times> 'e sql_join_constraint) res" where
  "join_operator (SjInner c) = Inr (InnerJoin, c)"
| "join_operator (SjLeftOuter c) = Inr (LeftJoin, c)"
| "join_operator (SjRightOuter c) = Inr (RightJoin, c)"
| "join_operator SjCrossJoin = Inr (CrossJoin, ScNone)"
| "join_operator (SjFullOuter c) = unsupported ''FULL JOIN is unsupported''"
| "join_operator (SjOther s) = unsupported ''Unsupported JOIN type''"

lemma join_operator_size [termination_simp]:
  "join_operator j = Inr (kind, ScOn e) \<Longrightarrow> f e < size_sql_join_operator f j"
  by (cases j) (simp_all add: unsupported_def)

section \<open>Expressions and queries\<close>

text \<open>
  The recursion of the conversion does not depend on what earlier calls return, so its
  congruence rule for \<open>rbind\<close> need not say it.
\<close>

lemma rbind_cong_plain: "m = m' \<Longrightarrow> (\<And>x. f x = f' x) \<Longrightarrow> rbind m f = rbind m' f'"
  by (cases m') simp_all

declare rbind_cong [fundef_cong del]
declare rbind_cong_plain [fundef_cong]

text \<open>The measures of the clauses count the expressions and queries in them.\<close>

lemma clause_measures [measure_function]:
  "is_measure (size_sql_function size :: sql_expr sql_function \<Rightarrow> nat)"
  "is_measure (size_sql_select_item size :: sql_expr sql_select_item \<Rightarrow> nat)"
  "is_measure (size_sql_order_by size :: sql_expr sql_order_by \<Rightarrow> nat)"
  "is_measure (size_sql_cte size :: sql_query sql_cte \<Rightarrow> nat)"
  "is_measure (size_sql_table_factor size :: sql_query sql_table_factor \<Rightarrow> nat)"
  "is_measure (size_sql_join size size :: (sql_expr, sql_query) sql_join \<Rightarrow> nat)"
  by (rule is_measure_trivial)+

fun convert_expr :: "sql_display \<Rightarrow> sql_expr \<Rightarrow> expr res"
and convert_function :: "sql_display \<Rightarrow> sql_expr sql_function \<Rightarrow> expr res"
and convert_select_item :: "sql_display \<Rightarrow> sql_expr sql_select_item \<Rightarrow> select_item res"
and convert_order_by :: "sql_display \<Rightarrow> sql_expr sql_order_by \<Rightarrow> order_by res"
and convert_cte :: "sql_display \<Rightarrow> sql_query sql_cte \<Rightarrow> cte res"
and convert_table_source :: "sql_display \<Rightarrow> sql_query sql_table_factor \<Rightarrow> table_source res"
and convert_join :: "sql_display \<Rightarrow> (sql_expr, sql_query) sql_join \<Rightarrow> join res"
and convert_query :: "sql_display \<Rightarrow> sql_query \<Rightarrow> query res" where
  "convert_expr d (SeIdentifier name) = Inr (Column None (to_ascii_lowercase name))"
| "convert_expr d (SeCompoundIdentifier ids) =
     (if length ids = 2
      then Inr (Column (Some (to_ascii_lowercase (ids ! 0))) (to_ascii_lowercase (ids ! 1)))
      else unsupported (''Unsupported expression: '' @ sd_expr d (SeCompoundIdentifier ids)))"
| "convert_expr d (SeValue v) = (case v of
     SvPlaceholder p \<Rightarrow> Inr (Parameter u64_max)
   | _ \<Rightarrow> rbind (convert_value d v) (\<lambda>w. Inr (Literal w)))"
| "convert_expr d (SeNested e) = convert_expr d e"
| "convert_expr d (SeBinaryOp left op right) =
     rbind (convert_expr d left) (\<lambda>l. rbind (convert_binary_op d op) (\<lambda>b.
     rbind (convert_expr d right) (\<lambda>r. Inr (Binary l b r))))"
| "convert_expr d (SeUnaryOp op e) =
     rbind (convert_unary_op d op) (\<lambda>u. rbind (convert_expr d e) (\<lambda>x. Inr (Unary u x)))"
| "convert_expr d (SeIsNull e) = rbind (convert_expr d e) (\<lambda>x. Inr (IsNull x False))"
| "convert_expr d (SeIsNotNull e) = rbind (convert_expr d e) (\<lambda>x. Inr (IsNull x True))"
| "convert_expr d (SeLike negated any e pattern escape) =
     (if \<not> any \<and> escape = None
      then rbind (convert_expr d e) (\<lambda>x. rbind (convert_expr d pattern) (\<lambda>p. Inr (Like x p negated)))
      else unsupported (''Unsupported expression: '' @ sd_expr d (SeLike negated any e pattern escape)))"
| "convert_expr d (SeInList e items negated) =
     rbind (convert_expr d e) (\<lambda>x. rbind (res_map (convert_expr d) items) (\<lambda>xs. Inr (InList x xs negated)))"
| "convert_expr d (SeInSubquery e q negated) =
     rbind (convert_expr d e) (\<lambda>x. rbind (convert_query d q) (\<lambda>y. Inr (InSubquery x y negated)))"
| "convert_expr d (SeExists q negated) = rbind (convert_query d q) (\<lambda>y. Inr (Exists y negated))"
| "convert_expr d (SeSubquery q) = rbind (convert_query d q) (\<lambda>y. Inr (ScalarSubquery y))"
| "convert_expr d (SeFunction f) = convert_function d f"
| "convert_expr d (SeOther e) = unsupported (''Unsupported expression: '' @ sd_expr d (SeOther e))"
| "convert_function d (SqlFunction name args over filtered within) =
     (if over \<or> filtered \<or> within then unsupported ''Window/FILTER/WITHIN GROUP functions are unsupported''
      else let function_name = object_name name in
      if function_name = ''values''
      then (case args of
          SfList dup [SaUnnamedExpr (SeIdentifier column)] \<Rightarrow> Inr (Incoming (to_ascii_lowercase column))
        | _ \<Rightarrow> unsupported ''VALUES() requires one column argument'')
      else case aggregate_named function_name of
          None \<Rightarrow> unsupported (''Unsupported function: '' @ function_name)
        | Some aggregate \<Rightarrow>
           (case args of
              SfList dup arguments \<Rightarrow>
                (case arguments of
                   [arg] \<Rightarrow>
                     (case arg of
                        SaUnnamedWildcard \<Rightarrow>
                          if aggregate \<noteq> AggCount then unsupported (''Only COUNT supports '' @ quoted ''*'')
                          else Inr (Aggregate aggregate None (dup = Some TreatDistinct))
                      | SaUnnamedExpr e \<Rightarrow>
                          rbind (convert_expr d e) (\<lambda>x. Inr (Aggregate aggregate (Some x) (dup = Some TreatDistinct)))
                      | SaOther other \<Rightarrow> unsupported ''Unsupported aggregate argument'')
                 | _ \<Rightarrow> unsupported ''Aggregate functions require exactly one argument'')
            | _ \<Rightarrow> unsupported ''Aggregate functions require a normal argument list''))"
| "convert_select_item d (SiWildcard plain) =
     (if plain then Inr (Wildcard None) else unsupported ''Wildcard modifiers are unsupported'')"
| "convert_select_item d (SiQualifiedWildcard name plain) =
     (if plain then Inr (Wildcard (Some (object_name name))) else unsupported ''Wildcard modifiers are unsupported'')"
| "convert_select_item d (SiUnnamedExpr e) = rbind (convert_expr d e) (\<lambda>x. Inr (SelectExpr x None))"
| "convert_select_item d (SiExprWithAlias e name) =
     rbind (convert_expr d e) (\<lambda>x. Inr (SelectExpr x (Some (to_ascii_lowercase name))))"
| "convert_order_by d (SqlOrderBy e asc) = rbind (convert_expr d e) (\<lambda>x. Inr (OrderBy x (asc = Some False)))"
| "convert_cte d (SqlCte as q) =
     rbind (convert_query d q) (\<lambda>y.
       Inr (Cte (to_ascii_lowercase (alias_name as)) (map to_ascii_lowercase (alias_columns as)) y))"
| "convert_table_source d (StTable name as args) =
     (if args then unsupported ''Unsupported table source''
      else Inr (TableRef (object_name name) (map_option (\<lambda>a. to_ascii_lowercase (alias_name a)) as)))"
| "convert_table_source d (StDerived lateral q as) =
     (if lateral then unsupported ''LATERAL subqueries are unsupported''
      else case as of
        None \<Rightarrow> unsupported ''Derived tables require an alias''
      | Some a \<Rightarrow> rbind (convert_query d q) (\<lambda>y. Inr (Derived y (to_ascii_lowercase (alias_name a)))))"
| "convert_table_source d (StOther s) = unsupported ''Unsupported table source''"
| "convert_join d (SqlJoin relation operator) =
     (case join_operator operator of
        Inl e \<Rightarrow> Inl e
      | Inr (kind, c) \<Rightarrow>
          rbind (case c of
              ScNone \<Rightarrow> Inr None
            | ScOn e \<Rightarrow> rbind (convert_expr d e) (\<lambda>x. Inr (Some x))
            | _ \<Rightarrow> unsupported ''NATURAL/USING joins are unsupported; use ON'') (\<lambda>on.
          rbind (convert_table_source d relation) (\<lambda>s. Inr (Join kind s on))))"
| "convert_query d (SqlQuery w body order limit limit_by offset fetch) =
     (if offset \<or> fetch \<or> limit_by then unsupported ''OFFSET/FETCH/LIMIT BY are unsupported''
      else rbind (case w of
           None \<Rightarrow> Inr []
         | Some (SqlWith recursive ctes) \<Rightarrow>
             if recursive then unsupported ''Recursive CTEs are unsupported''
             else res_map (convert_cte d) ctes) (\<lambda>ctes'.
        case body of
          SxQuery q \<Rightarrow> convert_query d q
        | SxSelect (SqlSelect dist items from selection group_by having) \<Rightarrow>
           (if 1 < length from then unsupported ''Comma joins are unsupported; use explicit JOIN syntax''
            else rbind (case from of
                 [] \<Rightarrow> Inr (None, [])
               | SqlTableWithJoins relation joins # _ \<Rightarrow>
                   rbind (convert_table_source d relation) (\<lambda>s.
                   rbind (res_map (convert_join d) joins) (\<lambda>js. Inr (Some s, js)))) (\<lambda>(from', joins').
            rbind (case group_by of
                 SgExpressions es modifiers \<Rightarrow>
                   if modifiers then unsupported ''GROUP BY modifiers/ALL are unsupported''
                   else res_map (convert_expr d) es
               | SgAll \<Rightarrow> unsupported ''GROUP BY modifiers/ALL are unsupported'') (\<lambda>groups.
            rbind (case order of None \<Rightarrow> Inr [] | Some os \<Rightarrow> res_map (convert_order_by d) os) (\<lambda>orders.
            rbind (res_option (\<lambda>e. rbind (convert_expr d e) limit_literal) limit) (\<lambda>limit'.
            rbind (res_map (convert_select_item d) items) (\<lambda>items'.
            rbind (res_option (convert_expr d) selection) (\<lambda>selection'.
            rbind (res_option (convert_expr d) having) (\<lambda>having'.
              Inr (Query ctes' dist items' from' joins' selection' groups having' orders limit')))))))))
        | _ \<Rightarrow> unsupported ''Set operations are unsupported''))"

declare rbind_cong_plain [fundef_cong del]
declare rbind_cong [fundef_cong]

section \<open>Columns and constraints\<close>

definition literal_value :: "sql_display \<Rightarrow> sql_expr \<Rightarrow> val res" where
  "literal_value d e = rbind (convert_expr d e) default_literal"

definition allowed_action :: "referential_action option \<Rightarrow> bool" where
  "allowed_action a \<longleftrightarrow> a \<in> {None, Some RaRestrict, Some RaNoAction}"

definition validate_referential_actions ::
  "referential_action option \<Rightarrow> referential_action option \<Rightarrow> unit res" where
  "validate_referential_actions on_delete on_update =
     (if allowed_action on_delete \<and> allowed_action on_update then Inr ()
      else unsupported ''Only RESTRICT/NO ACTION foreign keys are supported'')"

definition convert_foreign_key ::
  "string option \<Rightarrow> string list \<Rightarrow> sql_foreign_key \<Rightarrow> table_constraint res" where
  "convert_foreign_key name columns fk =
     rbind (validate_referential_actions (sfk_on_delete fk) (sfk_on_update fk)) (\<lambda>_.
       Inr (ForeignKey \<lparr>fk_name = name, fk_columns = columns, fk_foreign_table = object_name (sfk_table fk),
              fk_referred_columns = map to_ascii_lowercase (sfk_referred fk)\<rparr>))"

fun convert_table_constraint :: "sql_display \<Rightarrow> sql_table_constraint \<Rightarrow> table_constraint res" where
  "convert_table_constraint d (TcPrimaryKey name columns) =
     Inr (PrimaryKey (map_option to_ascii_lowercase name) (map to_ascii_lowercase columns))"
| "convert_table_constraint d (TcUnique name columns) =
     Inr (Unique (map_option to_ascii_lowercase name) (map to_ascii_lowercase columns))"
| "convert_table_constraint d (TcCheck name e) =
     rbind (convert_expr d e) (\<lambda>x. Inr (Check (map_option to_ascii_lowercase name) x))"
| "convert_table_constraint d (TcForeignKey name columns fk) =
     convert_foreign_key (map_option to_ascii_lowercase name) (map to_ascii_lowercase columns) fk"
| "convert_table_constraint d TcIndex =
     unsupported ''Inline INDEX declarations are unsupported; use CREATE INDEX after CREATE TABLE''"
| "convert_table_constraint d (TcOther c) =
     unsupported (''Unsupported table constraint: '' @ sd_table_constraint d (TcOther c))"

text \<open>One column option: the column so far and the constraints it adds.\<close>

fun convert_option ::
  "sql_display \<Rightarrow> column_def \<times> table_constraint list \<Rightarrow> string option \<times> sql_column_option
     \<Rightarrow> (column_def \<times> table_constraint list) res" where
  "convert_option d (c, cs) (name, CoNull) = Inr (c\<lparr>col_nullable := True\<rparr>, cs)"
| "convert_option d (c, cs) (name, CoNotNull) = Inr (c\<lparr>col_nullable := False\<rparr>, cs)"
| "convert_option d (c, cs) (name, CoDefault e) =
     rbind (literal_value d e) (\<lambda>v. Inr (c\<lparr>col_default := Some v\<rparr>, cs))"
| "convert_option d (c, cs) (name, CoUnique is_primary) =
     Inr (if is_primary then column_primary_key c else column_unique c, cs)"
| "convert_option d (c, cs) (name, CoCheck e) =
     rbind (convert_expr d e) (\<lambda>x.
       Inr (c\<lparr>col_checks := col_checks c @ [x]\<rparr>, cs @ [Check (map_option to_ascii_lowercase name) x]))"
| "convert_option d (c, cs) (name, CoForeignKey fk) =
     rbind (convert_foreign_key (map_option to_ascii_lowercase name) [col_name c] fk) (\<lambda>k. Inr (c, cs @ [k]))"
| "convert_option d (c, cs) (name, CoOther opt) =
     unsupported (''Unsupported column option: '' @ sd_column_option d (CoOther opt))"

definition convert_column_def :: "sql_display \<Rightarrow> sql_column_def \<Rightarrow> (column_def \<times> table_constraint list) res" where
  "convert_column_def d col =
     rbind (convert_data_type (scd_data_type col)) (\<lambda>dt.
     rbind (res_fold (convert_option d) (column_def_new (to_ascii_lowercase (scd_name col)) dt, [])
              (scd_options col)) (\<lambda>(c, cs).
       Inr (c, if col_primary_key c then cs @ [PrimaryKey None [col_name c]]
               else if col_unique c then cs @ [Unique None [col_name c]] else cs)))"

section \<open>Statements\<close>

definition change_column ::
  "sql_display \<Rightarrow> string \<Rightarrow> string \<Rightarrow> string \<Rightarrow> sql_column_option list \<Rightarrow> bool \<Rightarrow> alter_operation res" where
  "change_column d old_name new_name dt options positioned =
     (if positioned then unsupported ''ALTER TABLE column positioning is unsupported''
      else rbind (convert_column_def d \<lparr>scd_name = new_name, scd_data_type = dt, scd_options = map (Pair None) options\<rparr>)
        (\<lambda>(c, cs). Inr (ModifyColumn (to_ascii_lowercase old_name) c cs)))"

fun convert_alter_column :: "sql_display \<Rightarrow> string \<Rightarrow> sql_alter_column \<Rightarrow> alter_operation res" where
  "convert_alter_column d column AcSetNotNull = Inr (SetNullable (clean_identifier column) False)"
| "convert_alter_column d column AcDropNotNull = Inr (SetNullable (clean_identifier column) True)"
| "convert_alter_column d column (AcSetDefault e) =
     rbind (literal_value d e) (\<lambda>v. Inr (SetDefault (clean_identifier column) (Some v)))"
| "convert_alter_column d column AcDropDefault = Inr (SetDefault (clean_identifier column) None)"
| "convert_alter_column d column (AcSetDataType dt None) =
     rbind (convert_data_type dt) (\<lambda>t. Inr (SetDataType (clean_identifier column) t))"
| "convert_alter_column d column other = unsupported ''Unsupported ALTER COLUMN operation''"

fun convert_alter_operation :: "sql_display \<Rightarrow> sql_alter_operation \<Rightarrow> alter_operation res" where
  "convert_alter_operation d (AoAddColumn col if_not_exists positioned) =
     (if positioned then unsupported ''ALTER TABLE column positioning is unsupported''
      else rbind (convert_column_def d col) (\<lambda>(c, cs). Inr (AddColumn c cs if_not_exists)))"
| "convert_alter_operation d (AoDropColumn column if_exists cascade) =
     (if cascade then unsupported ''ALTER TABLE DROP COLUMN CASCADE is unsupported''
      else Inr (DropColumn (to_ascii_lowercase column) if_exists))"
| "convert_alter_operation d (AoRenameColumn old_name new_name) =
     Inr (RenameColumn (to_ascii_lowercase old_name) (to_ascii_lowercase new_name))"
| "convert_alter_operation d (AoChangeColumn old_name new_name dt options positioned) =
     change_column d old_name new_name dt options positioned"
| "convert_alter_operation d (AoModifyColumn column dt options positioned) =
     change_column d column column dt options positioned"
| "convert_alter_operation d (AoAlterColumn column operation) = convert_alter_column d column operation"
| "convert_alter_operation d (AoAddConstraint c) =
     rbind (convert_table_constraint d c) (\<lambda>k. Inr (AddConstraint k))"
| "convert_alter_operation d (AoDropConstraint if_exists name cascade) =
     (if cascade then unsupported ''ALTER TABLE DROP CONSTRAINT CASCADE is unsupported''
      else Inr (DropConstraint (to_ascii_lowercase name) if_exists))"
| "convert_alter_operation d AoDropPrimaryKey = Inr DropPrimaryKey"
| "convert_alter_operation d (AoOther other) =
     unsupported (''Unsupported ALTER TABLE operation: '' @ sd_alter_operation d (AoOther other))"

fun convert_assignment :: "sql_display \<Rightarrow> sql_assignment \<Rightarrow> (string \<times> expr) res" where
  "convert_assignment d (AtColumnName name, e) = rbind (convert_expr d e) (\<lambda>x. Inr (object_name name, x))"
| "convert_assignment d (AtTuple, e) = unsupported ''Tuple assignment is unsupported''"

fun table_factor_name :: "'q sql_table_factor \<Rightarrow> string res" where
  "table_factor_name (StTable name as False) = Inr (object_name name)"
| "table_factor_name other = unsupported ''Expected a table name''"

definition convert_insert :: "sql_display \<Rightarrow> sql_insert \<Rightarrow> statement res" where
  "convert_insert d ins =
     (if sin_ignore ins \<or> sin_replace_into ins then unsupported ''INSERT IGNORE/REPLACE clauses are unsupported''
      else rbind (ok_or (sin_source ins) ''INSERT requires VALUES'') (\<lambda>source.
      rbind (case sq_body source of
          SxValues rows \<Rightarrow> rbind (res_map (res_map (convert_expr d)) rows) (\<lambda>rs. Inr (InsertValues rs))
        | _ \<Rightarrow> rbind (convert_query d source) (\<lambda>q. Inr (InsertQuery q))) (\<lambda>source'.
      rbind (case sin_on ins of
          None \<Rightarrow> Inr []
        | Some (OiDuplicateKeyUpdate assignments) \<Rightarrow> res_map (convert_assignment d) assignments
        | Some other \<Rightarrow> unsupported (''Unsupported INSERT conflict clause: '' @ sd_on_insert d other)) (\<lambda>on_duplicate.
        Inr (Insert (object_name (sin_table ins))
          (if sin_columns ins = [] then None else Some (map to_ascii_lowercase (sin_columns ins)))
          source' on_duplicate)))))"

definition convert_create_table :: "sql_display \<Rightarrow> sql_create_table \<Rightarrow> statement res" where
  "convert_create_table d c =
     (if sct_query c \<or> sct_like c \<or> sct_clone c then unsupported ''CREATE TABLE AS/LIKE/CLONE is unsupported''
      else rbind (res_map (convert_column_def d) (sct_columns c)) (\<lambda>columns.
      rbind (res_map (convert_table_constraint d) (sct_constraints c)) (\<lambda>constraints.
        Inr (CreateTable (object_name (sct_name c)) (map fst columns)
          (concat (map snd columns) @ constraints) (sct_if_not_exists c)))))"

definition convert_index_column :: "sql_expr sql_order_by \<Rightarrow> string res" where
  "convert_index_column c = (case ob_expr c of
     SeIdentifier name \<Rightarrow> Inr (to_ascii_lowercase name)
   | _ \<Rightarrow> unsupported ''Index expressions are unsupported'')"

definition convert_create_index :: "sql_create_index \<Rightarrow> statement res" where
  "convert_create_index c =
     (if sci_using c \<or> sci_predicate c \<or> sci_include c
      then unsupported ''Partial, covering, and non-B-tree indexes are unsupported''
      else rbind (ok_or (map_option object_name (sci_name c)) ''CREATE INDEX requires an index name'') (\<lambda>name.
      rbind (res_map convert_index_column (sci_columns c)) (\<lambda>columns.
        Inr (CreateIndex name (object_name (sci_table c)) columns (sci_unique c) (sci_if_not_exists c)))))"

fun convert_statement :: "sql_display \<Rightarrow> sql_statement \<Rightarrow> statement res" where
  "convert_statement d (SsCreateTable c) = convert_create_table d c"
| "convert_statement d (SsCreateIndex c) = convert_create_index c"
| "convert_statement d (SsAlterTable name if_exists only operations location on_cluster) =
     (if if_exists \<or> only \<or> location \<or> on_cluster
      then unsupported ''ALTER TABLE IF EXISTS/ONLY/location/cluster is unsupported''
      else rbind (res_map (convert_alter_operation d) operations) (\<lambda>ops. Inr (AlterTable (object_name name) ops)))"
| "convert_statement d (SsDrop is_table if_exists names) =
     (if \<not> is_table \<or> length names \<noteq> 1 then unsupported ''Only DROP TABLE is supported by this form''
      else Inr (DropTable (object_name (names ! 0)) if_exists))"
| "convert_statement d (SsInsert ins) = convert_insert d ins"
| "convert_statement d (SsQuery q) = rbind (convert_query d q) (\<lambda>y. Inr (QueryStatement y))"
| "convert_statement d (SsUpdate t assignments selection) =
     (if twj_joins t \<noteq> [] then unsupported ''UPDATE with JOIN is unsupported''
      else rbind (table_factor_name (twj_relation t)) (\<lambda>name.
      rbind (res_map (convert_assignment d) assignments) (\<lambda>as.
      rbind (res_option (convert_expr d) selection) (\<lambda>sel. Inr (Update name as sel)))))"
| "convert_statement d (SsDelete del) =
     (if length (sde_from del) \<noteq> 1 \<or> twj_joins (sde_from del ! 0) \<noteq> []
      then unsupported ''Only single-table DELETE is supported''
      else rbind (table_factor_name (twj_relation (sde_from del ! 0))) (\<lambda>name.
      rbind (res_option (convert_expr d) (sde_selection del)) (\<lambda>sel. Inr (Delete name sel))))"
| "convert_statement d SsShowTables = Inr ShowTables"
| "convert_statement d (SsExplainTable name) = Inr (DescribeTable (object_name name))"
| "convert_statement d (SsExplain st) = rbind (convert_statement d st) (\<lambda>x. Inr (Explain x))"
| "convert_statement d SsStartTransaction = Inr Begin"
| "convert_statement d SsCommit = Inr Commit"
| "convert_statement d (SsRollback sp) =
     (if sp = None then Inr Rollback
      else unsupported (''Unsupported SQL statement: '' @ sd_statement d (SsRollback sp)))"
| "convert_statement d (SsOther other) =
     unsupported (''Unsupported SQL statement: '' @ sd_statement d (SsOther other))"

text \<open>
  What \<open>parse_sql\<close> does with the text that is no statement of RustyDB's own: the package's
  parser, exactly one statement, and its conversion.
\<close>

definition sql_front :: "sql_display \<Rightarrow> (string \<Rightarrow> string + sql_statement list) \<Rightarrow> string \<Rightarrow> statement res" where
  "sql_front d parser sql = (case parser sql of
     Inl e \<Rightarrow> Inl (Fail e)
   | Inr sts \<Rightarrow> if length sts \<noteq> 1 then Inl (Fail ''Expected exactly one SQL statement'')
       else convert_statement d (sts ! 0))"

end
