(* ===== verification/SqlForm.thy ===== *)
theory SqlForm
  imports Convert Executor
begin

text \<open>
  Which queries the conversion of \<^verbatim>\<open>src/src/sql/parser.rs\<close> produces: exactly those with
  lower-case names, numbered parameters still to come, a star only under \<open>COUNT\<close>, no \<open>ON\<close>
  for a cross join and a limit that is an \<open>i64\<close>. \<open>sql_of_query\<close> writes such a query as a
  syntax tree, and the conversion gives the query back.
\<close>

section \<open>The form of converted queries\<close>

definition lower_case :: "string \<Rightarrow> bool" where
  "lower_case s \<longleftrightarrow> to_ascii_lowercase s = s"

abbreviation lower_option :: "string option \<Rightarrow> bool" where
  "lower_option q \<equiv> (case q of None \<Rightarrow> True | Some n \<Rightarrow> lower_case n)"

definition literal_form :: "(f64 \<Rightarrow> bool) \<Rightarrow> val \<Rightarrow> bool" where
  "literal_form P v \<longleftrightarrow> (case v of VFloat f \<Rightarrow> P f | _ \<Rightarrow> True)"

fun expr_form :: "(f64 \<Rightarrow> bool) \<Rightarrow> expr \<Rightarrow> bool"
and item_form :: "(f64 \<Rightarrow> bool) \<Rightarrow> select_item \<Rightarrow> bool"
and source_form :: "(f64 \<Rightarrow> bool) \<Rightarrow> table_source \<Rightarrow> bool"
and join_form :: "(f64 \<Rightarrow> bool) \<Rightarrow> join \<Rightarrow> bool"
and order_form :: "(f64 \<Rightarrow> bool) \<Rightarrow> order_by \<Rightarrow> bool"
and cte_form :: "(f64 \<Rightarrow> bool) \<Rightarrow> cte \<Rightarrow> bool"
and query_form :: "(f64 \<Rightarrow> bool) \<Rightarrow> query \<Rightarrow> bool" where
  "expr_form P (Column q n) \<longleftrightarrow> lower_option q \<and> lower_case n"
| "expr_form P (Literal v) \<longleftrightarrow> literal_form P v"
| "expr_form P (Parameter i) \<longleftrightarrow> i = u64_max"
| "expr_form P (Incoming c) \<longleftrightarrow> lower_case c"
| "expr_form P (Binary l op r) \<longleftrightarrow> expr_form P l \<and> op \<noteq> BCompare OpLike \<and> expr_form P r"
| "expr_form P (Unary op e) \<longleftrightarrow> expr_form P e"
| "expr_form P (IsNull e negated) \<longleftrightarrow> expr_form P e"
| "expr_form P (Like e p negated) \<longleftrightarrow> expr_form P e \<and> expr_form P p"
| "expr_form P (InList e items negated) \<longleftrightarrow> expr_form P e \<and> (\<forall>x \<in> set items. expr_form P x)"
| "expr_form P (InSubquery e q negated) \<longleftrightarrow> expr_form P e \<and> query_form P q"
| "expr_form P (Exists q negated) \<longleftrightarrow> query_form P q"
| "expr_form P (ScalarSubquery q) \<longleftrightarrow> query_form P q"
| "expr_form P (Aggregate f e dedup) \<longleftrightarrow> (case e of None \<Rightarrow> f = AggCount | Some x \<Rightarrow> expr_form P x)"
| "item_form P (Wildcard q) \<longleftrightarrow> lower_option q"
| "item_form P (SelectExpr e name) \<longleftrightarrow> expr_form P e \<and> lower_option name"
| "source_form P (TableRef n shown) \<longleftrightarrow> lower_case n \<and> lower_option shown"
| "source_form P (Derived q n) \<longleftrightarrow> query_form P q \<and> lower_case n"
| "join_form P (Join kind source on) \<longleftrightarrow> source_form P source \<and>
     (case on of None \<Rightarrow> True | Some e \<Rightarrow> kind \<noteq> CrossJoin \<and> expr_form P e)"
| "order_form P (OrderBy e desc) \<longleftrightarrow> expr_form P e"
| "cte_form P (Cte n cols q) \<longleftrightarrow> lower_case n \<and> (\<forall>c \<in> set cols. lower_case c) \<and> query_form P q"
| "query_form P (Query ctes dist items src joins sel groups having obs lim) \<longleftrightarrow>
     (\<forall>x \<in> set ctes. cte_form P x) \<and> (\<forall>x \<in> set items. item_form P x) \<and>
     (case src of None \<Rightarrow> joins = [] | Some s \<Rightarrow> source_form P s) \<and> (\<forall>x \<in> set joins. join_form P x) \<and>
     (case sel of None \<Rightarrow> True | Some e \<Rightarrow> expr_form P e) \<and> (\<forall>x \<in> set groups. expr_form P x) \<and>
     (case having of None \<Rightarrow> True | Some e \<Rightarrow> expr_form P e) \<and> (\<forall>x \<in> set obs. order_form P x) \<and>
     (case lim of None \<Rightarrow> True | Some n \<Rightarrow> n < 2 ^ 63)"

section \<open>Every converted query has the form\<close>

text \<open>The values that a decimal with a point or an exponent reads as.\<close>

definition readable_float :: "f64 \<Rightarrow> bool" where
  "readable_float v \<longleftrightarrow> (\<exists>s. is_float_text s \<and> parse_f64 s = Some v)"

lemma lower_case_lowered [simp]: "lower_case (to_ascii_lowercase s)"
  by (simp add: lower_case_def)

lemma lower_case_object_name [simp]: "lower_case (object_name ids)"
  by (simp add: object_name_def lower_case_def to_ascii_lowercase_def)

lemma unsupported_not_Inr [simp]: "unsupported msg \<noteq> Inr x" "Inr x \<noteq> unsupported msg"
  by (simp_all add: unsupported_def)

lemma res_option_Inr_iff:
  "res_option f x = Inr y \<longleftrightarrow> (case x of None \<Rightarrow> y = None | Some z \<Rightarrow> \<exists>w. f z = Inr w \<and> y = Some w)"
  by (cases x) (auto simp: res_option_def rbind_Inr_iff)

lemma res_map_source: "y \<in> set ys \<Longrightarrow> res_map f xs = Inr ys \<Longrightarrow> \<exists>x \<in> set xs. f x = Inr y"
  by (fastforce simp: res_map_Inr_iff list_all2_conv_all_nth in_set_conv_nth)

lemma convert_value_form: "convert_value d v = Inr w \<Longrightarrow> literal_form readable_float w"
  by (cases "(d, v)" rule: convert_value.cases)
    (auto simp: literal_form_def readable_float_def ok_or_def split: if_splits option.splits)

lemma convert_binary_op_form: "convert_binary_op d op = Inr b \<Longrightarrow> b \<noteq> BCompare OpLike"
  by (cases op) auto

lemma limit_literal_bound: "limit_literal e = Inr n \<Longrightarrow> n < 2 ^ 63"
proof -
  assume n: "limit_literal e = Inr n"
  then obtain w where "e = Literal w" by (cases e) (simp_all add: limit_literal_def)
  with n obtain v :: i64 where "n = nat (sint v)" by (cases w) (auto simp: limit_literal_def split: if_splits)
  then show ?thesis using sint_lt [of v] by simp
qed

text \<open>The parts of a converted \<open>SELECT\<close>.\<close>

lemma convert_selectE:
  assumes "convert_query d (SqlQuery w (SxSelect (SqlSelect dist items tables selection group_by having)) order limit lb off fe) = Inr y"
  obtains ctes' src joins' groups orders limit' items' selection' having' where
    "\<not> (off \<or> fe \<or> lb)" "\<not> 1 < length tables"
    "(case w of None \<Rightarrow> Inr [] | Some (SqlWith recursive ctes) \<Rightarrow>
       if recursive then unsupported ''Recursive CTEs are unsupported'' else res_map (convert_cte d) ctes) = Inr ctes'"
    "(case tables of [] \<Rightarrow> Inr (None, []) | SqlTableWithJoins relation joins # _ \<Rightarrow>
       rbind (convert_table_source d relation) (\<lambda>s.
       rbind (res_map (convert_join d) joins) (\<lambda>js. Inr (Some s, js)))) = Inr (src, joins')"
    "(case group_by of SgExpressions es modifiers \<Rightarrow>
         if modifiers then unsupported ''GROUP BY modifiers/ALL are unsupported'' else res_map (convert_expr d) es
       | SgAll \<Rightarrow> unsupported ''GROUP BY modifiers/ALL are unsupported'') = Inr groups"
    "(case order of None \<Rightarrow> Inr [] | Some os \<Rightarrow> res_map (convert_order_by d) os) = Inr orders"
    "res_option (\<lambda>e. rbind (convert_expr d e) limit_literal) limit = Inr limit'"
    "res_map (convert_select_item d) items = Inr items'"
    "res_option (convert_expr d) selection = Inr selection'" "res_option (convert_expr d) having = Inr having'"
    "y = Query ctes' dist items' src joins' selection' groups having' orders limit'"
  using assms by (auto simp: rbind_Inr_iff split: if_splits)

lemma convert_forms:
  "convert_expr d e = Inr x \<Longrightarrow> expr_form readable_float x"
  "convert_function d f = Inr x \<Longrightarrow> expr_form readable_float x"
  "convert_select_item d i = Inr it \<Longrightarrow> item_form readable_float it"
  "convert_order_by d b = Inr ob \<Longrightarrow> order_form readable_float ob"
  "convert_cte d c = Inr ct \<Longrightarrow> cte_form readable_float ct"
  "convert_table_source d t = Inr s \<Longrightarrow> source_form readable_float s"
  "convert_join d j = Inr jn \<Longrightarrow> join_form readable_float jn"
  "convert_query d q = Inr y \<Longrightarrow> query_form readable_float y"
proof (induction d e and d f and d i and d b and d c and d t and d j and d q
    arbitrary: x and x and it and ob and ct and s and jn and y
    rule: convert_expr_convert_function_convert_select_item_convert_order_by_convert_cte_convert_table_source_convert_join_convert_query.induct)
  case (3 d v)
  then show ?case
    by (auto simp: rbind_Inr_iff simp del: convert_value.simps split: sql_value.splits dest: convert_value_form)
next
  case (5 d left op right)
  then show ?case by (auto simp: rbind_Inr_iff dest: convert_binary_op_form)
next
  case (10 d e items negated)
  from 10(3) obtain y ys where "convert_expr d e = Inr y" "res_map (convert_expr d) items = Inr ys"
    and x: "x = InList y ys negated" by (auto simp: rbind_Inr_iff)
  with 10(1,2) show ?case by (auto simp: x dest: res_map_source)
next
  case (16 d name args over filtered within)
  then show ?case
    by (auto simp: rbind_Inr_iff Let_def
        split: if_splits option.splits sql_function_args.splits list.splits sql_function_arg.splits sql_expr.splits)
next
  case (26 d relation operator)
  from 26(3) obtain kind c s on where j: "join_operator operator = Inr (kind, c)"
    "convert_table_source d relation = Inr s" "jn = Join kind s on"
    and on: "(case c of ScNone \<Rightarrow> Inr None | ScOn e \<Rightarrow> rbind (convert_expr d e) (\<lambda>x. Inr (Some x))
       | _ \<Rightarrow> unsupported ''NATURAL/USING joins are unsupported; use ON'') = Inr on"
    by (auto simp: rbind_Inr_iff split: sum.splits)
  have cross: "kind = CrossJoin \<Longrightarrow> c = ScNone" using j(1) by (cases operator) auto
  from on 26(1,2) j cross show ?case
    by (auto simp: rbind_Inr_iff split: sql_join_constraint.splits)
next
  case (27 d w body order limit limit_by offset fetch)
  note ih = 27(1-10) and prem = 27(11)
  have go: "\<not> (offset \<or> fetch \<or> limit_by)" using prem by (auto split: if_splits)
  show ?case
  proof (cases body)
    case (SxQuery q)
    with prem ih(10) go show ?thesis by (auto simp: rbind_Inr_iff)
  next
    case (SxSelect sel)
    obtain dist items tables selection group_by having
      where sel: "sel = SqlSelect dist items tables selection group_by having" by (cases sel)
    note body = SxSelect [unfolded sel]
    from prem [unfolded body] obtain ctes' src joins' groups orders limit' items' selection' having' where
      parts: "\<not> 1 < length tables"
        "(case w of None \<Rightarrow> Inr [] | Some (SqlWith recursive ctes) \<Rightarrow>
           if recursive then unsupported ''Recursive CTEs are unsupported'' else res_map (convert_cte d) ctes) = Inr ctes'"
        "(case tables of [] \<Rightarrow> Inr (None, []) | SqlTableWithJoins relation joins # _ \<Rightarrow>
           rbind (convert_table_source d relation) (\<lambda>s.
           rbind (res_map (convert_join d) joins) (\<lambda>js. Inr (Some s, js)))) = Inr (src, joins')"
        "(case group_by of SgExpressions es modifiers \<Rightarrow>
             if modifiers then unsupported ''GROUP BY modifiers/ALL are unsupported'' else res_map (convert_expr d) es
           | SgAll \<Rightarrow> unsupported ''GROUP BY modifiers/ALL are unsupported'') = Inr groups"
        "(case order of None \<Rightarrow> Inr [] | Some os \<Rightarrow> res_map (convert_order_by d) os) = Inr orders"
        "res_option (\<lambda>e. rbind (convert_expr d e) limit_literal) limit = Inr limit'"
        "res_map (convert_select_item d) items = Inr items'"
        "res_option (convert_expr d) selection = Inr selection'" "res_option (convert_expr d) having = Inr having'"
        "y = Query ctes' dist items' src joins' selection' groups having' orders limit'"
      by (rule convert_selectE)
    have "\<forall>x \<in> set ctes'. cte_form readable_float x"
      using parts(2) ih(1) [OF go] by (auto split: option.splits sql_with.splits if_splits dest: res_map_source)
    moreover have "(case src of None \<Rightarrow> joins' = [] | Some s \<Rightarrow> source_form readable_float s) \<and>
        (\<forall>x \<in> set joins'. join_form readable_float x)"
      using parts(3) ih(2,3) [OF go body refl parts(1)]
      by (auto simp: rbind_Inr_iff split: list.splits sql_table_with_joins.splits dest: res_map_source)
    moreover have "\<forall>x \<in> set groups. expr_form readable_float x"
      using parts(4) ih(4) [OF go body refl parts(1) refl] by (auto split: sql_group_by.splits if_splits dest: res_map_source)
    moreover have "\<forall>x \<in> set orders. order_form readable_float x"
      using parts(5) ih(5) [OF go body refl parts(1) refl] by (auto split: option.splits dest: res_map_source)
    moreover have "\<forall>x \<in> set items'. item_form readable_float x"
      using parts(7) ih(7) [OF go body refl parts(1) refl] by (auto dest: res_map_source)
    moreover have "(case limit' of None \<Rightarrow> True | Some n \<Rightarrow> n < 2 ^ 63)"
      using parts(6) limit_literal_bound by (auto simp: res_option_Inr_iff rbind_Inr_iff split: option.splits)
    ultimately show ?thesis
      using parts(8-10) ih(8,9) [OF go body refl parts(1) refl] by (auto simp: res_option_Inr_iff split: option.splits)
  qed (use prem go in \<open>auto simp: rbind_Inr_iff\<close>)
qed (auto simp: rbind_Inr_iff split: if_splits option.splits)

section \<open>Every query of the form is converted from a tree\<close>

text \<open>Writing a query as a syntax tree, with \<open>sf\<close> to print its floating-point literals.\<close>

fun sql_of_value :: "(f64 \<Rightarrow> string) \<Rightarrow> val \<Rightarrow> sql_value" where
  "sql_of_value sf VNull = SvNull"
| "sql_of_value sf (VInteger i) = SvNumber (show_int (sint i)) False"
| "sql_of_value sf (VFloat v) = SvNumber (sf v) False"
| "sql_of_value sf (VText s) = SvSingleQuotedString s"
| "sql_of_value sf (VBoolean b) = SvBoolean b"

fun sql_of_binary :: "binary_op \<Rightarrow> sql_binary_op" where
  "sql_of_binary BAdd = SbPlus"
| "sql_of_binary BSubtract = SbMinus"
| "sql_of_binary BMultiply = SbMultiply"
| "sql_of_binary BDivide = SbDivide"
| "sql_of_binary BAnd = SbAnd"
| "sql_of_binary BOr = SbOr"
| "sql_of_binary (BCompare OpEqual) = SbEq"
| "sql_of_binary (BCompare OpNotEqual) = SbNotEq"
| "sql_of_binary (BCompare OpLessThan) = SbLt"
| "sql_of_binary (BCompare OpLessThanOrEqual) = SbLtEq"
| "sql_of_binary (BCompare OpGreaterThan) = SbGt"
| "sql_of_binary (BCompare OpGreaterThanOrEqual) = SbGtEq"
| "sql_of_binary (BCompare OpLike) = SbOther ''LIKE''"

fun sql_of_unary :: "unary_op \<Rightarrow> sql_unary_op" where
  "sql_of_unary UNot = SuNot"
| "sql_of_unary UNegate = SuMinus"
| "sql_of_unary UPlus = SuPlus"

fun function_name_of :: "aggregate_function \<Rightarrow> string" where
  "function_name_of AggCount = ''count''"
| "function_name_of AggSum = ''sum''"
| "function_name_of AggAvg = ''avg''"
| "function_name_of AggMax = ''max''"
| "function_name_of AggMin = ''min''"

definition sql_call :: "string \<Rightarrow> bool \<Rightarrow> sql_expr sql_function_arg \<Rightarrow> sql_expr" where
  "sql_call name dedup arg =
     SeFunction (SqlFunction [name] (SfList (if dedup then Some TreatDistinct else None) [arg]) False False False)"

definition sql_join_kind :: "join_type \<Rightarrow> 'e sql_join_constraint \<Rightarrow> 'e sql_join_operator" where
  "sql_join_kind kind c = (case kind of InnerJoin \<Rightarrow> SjInner c | LeftJoin \<Rightarrow> SjLeftOuter c
     | RightJoin \<Rightarrow> SjRightOuter c | CrossJoin \<Rightarrow> SjCrossJoin)"

fun sql_of_expr :: "(f64 \<Rightarrow> string) \<Rightarrow> expr \<Rightarrow> sql_expr"
and sql_of_item :: "(f64 \<Rightarrow> string) \<Rightarrow> select_item \<Rightarrow> sql_expr sql_select_item"
and sql_of_source :: "(f64 \<Rightarrow> string) \<Rightarrow> table_source \<Rightarrow> sql_query sql_table_factor"
and sql_of_join :: "(f64 \<Rightarrow> string) \<Rightarrow> join \<Rightarrow> (sql_expr, sql_query) sql_join"
and sql_of_order :: "(f64 \<Rightarrow> string) \<Rightarrow> order_by \<Rightarrow> sql_expr sql_order_by"
and sql_of_cte :: "(f64 \<Rightarrow> string) \<Rightarrow> cte \<Rightarrow> sql_query sql_cte"
and sql_of_query :: "(f64 \<Rightarrow> string) \<Rightarrow> query \<Rightarrow> sql_query" where
  "sql_of_expr sf (Column None n) = SeIdentifier n"
| "sql_of_expr sf (Column (Some q) n) = SeCompoundIdentifier [q, n]"
| "sql_of_expr sf (Literal v) = SeValue (sql_of_value sf v)"
| "sql_of_expr sf (Parameter i) = SeValue (SvPlaceholder ''?'')"
| "sql_of_expr sf (Incoming c) = sql_call ''values'' False (SaUnnamedExpr (SeIdentifier c))"
| "sql_of_expr sf (Binary l op r) = SeBinaryOp (sql_of_expr sf l) (sql_of_binary op) (sql_of_expr sf r)"
| "sql_of_expr sf (Unary op e) = SeUnaryOp (sql_of_unary op) (sql_of_expr sf e)"
| "sql_of_expr sf (IsNull e negated) =
     (if negated then SeIsNotNull (sql_of_expr sf e) else SeIsNull (sql_of_expr sf e))"
| "sql_of_expr sf (Like e p negated) = SeLike negated False (sql_of_expr sf e) (sql_of_expr sf p) None"
| "sql_of_expr sf (InList e items negated) = SeInList (sql_of_expr sf e) (map (sql_of_expr sf) items) negated"
| "sql_of_expr sf (InSubquery e q negated) = SeInSubquery (sql_of_expr sf e) (sql_of_query sf q) negated"
| "sql_of_expr sf (Exists q negated) = SeExists (sql_of_query sf q) negated"
| "sql_of_expr sf (ScalarSubquery q) = SeSubquery (sql_of_query sf q)"
| "sql_of_expr sf (Aggregate f e dedup) = sql_call (function_name_of f) dedup
     (case e of None \<Rightarrow> SaUnnamedWildcard | Some x \<Rightarrow> SaUnnamedExpr (sql_of_expr sf x))"
| "sql_of_item sf (Wildcard q) = (case q of None \<Rightarrow> SiWildcard True | Some n \<Rightarrow> SiQualifiedWildcard [n] True)"
| "sql_of_item sf (SelectExpr e name) = (case name of
     None \<Rightarrow> SiUnnamedExpr (sql_of_expr sf e) | Some n \<Rightarrow> SiExprWithAlias (sql_of_expr sf e) n)"
| "sql_of_source sf (TableRef n shown) = StTable [n] (map_option (\<lambda>a. TableAlias a []) shown) False"
| "sql_of_source sf (Derived q n) = StDerived False (sql_of_query sf q) (Some (TableAlias n []))"
| "sql_of_join sf (Join kind source on) = SqlJoin (sql_of_source sf source)
     (sql_join_kind kind (case on of None \<Rightarrow> ScNone | Some e \<Rightarrow> ScOn (sql_of_expr sf e)))"
| "sql_of_order sf (OrderBy e desc) = SqlOrderBy (sql_of_expr sf e) (if desc then Some False else None)"
| "sql_of_cte sf (Cte n cols q) = SqlCte (TableAlias n cols) (sql_of_query sf q)"
| "sql_of_query sf (Query ctes dist items src joins sel groups having obs lim) =
     SqlQuery (Some (SqlWith False (map (sql_of_cte sf) ctes)))
       (SxSelect (SqlSelect dist (map (sql_of_item sf) items)
         (case src of None \<Rightarrow> [] | Some s \<Rightarrow> [SqlTableWithJoins (sql_of_source sf s) (map (sql_of_join sf) joins)])
         (case sel of None \<Rightarrow> None | Some e \<Rightarrow> Some (sql_of_expr sf e))
         (SgExpressions (map (sql_of_expr sf) groups) False)
         (case having of None \<Rightarrow> None | Some e \<Rightarrow> Some (sql_of_expr sf e))))
       (Some (map (sql_of_order sf) obs))
       (map_option (\<lambda>n. SeValue (SvNumber (show_nat n) False)) lim) False False False"

definition prints :: "(f64 \<Rightarrow> string) \<Rightarrow> f64 \<Rightarrow> bool" where
  "prints sf v \<longleftrightarrow> is_float_text (sf v) \<and> parse_f64 (sf v) = Some v"

lemma show_int_not_float: "\<not> is_float_text (show_int i)"
  using show_int_chars by (fastforce simp: is_float_text_def list_ex_iff is_digit_def)

lemma convert_value_of: "literal_form (prints sf) v \<Longrightarrow> convert_value d (sql_of_value sf v) = Inr v"
  by (cases v) (auto simp: literal_form_def prints_def show_int_not_float parse_i64_roundtrip)

lemma convert_literal_of:
  "literal_form (prints sf) v \<Longrightarrow> convert_expr d (SeValue (sql_of_value sf v)) = Inr (Literal v)"
  using convert_value_of [of sf v d] by (cases v) auto

lemma lower_values: "to_ascii_lowercase ''values'' = ''values''"
  by (simp add: to_ascii_lowercase_def char_lower_def Let_def)

lemma lower_cases: "\<forall>x \<in> set xs. to_ascii_lowercase x = x \<Longrightarrow> map to_ascii_lowercase xs = xs"
  by (simp add: map_idI)

lemma convert_binary_of: "op \<noteq> BCompare OpLike \<Longrightarrow> convert_binary_op d (sql_of_binary op) = Inr op"
  by (cases op rule: sql_of_binary.cases) simp_all

lemma convert_unary_of: "convert_unary_op d (sql_of_unary op) = Inr op"
  by (cases op) simp_all

lemma aggregate_named_of: "aggregate_named (to_ascii_lowercase (function_name_of f)) = Some f"
  "to_ascii_lowercase (function_name_of f) \<noteq> ''values''"
  by (cases f; simp add: aggregate_named_def to_ascii_lowercase_def char_lower_def Let_def)+

lemma limit_of:
  assumes "n < 2 ^ 63"
  shows "rbind (convert_expr d (SeValue (SvNumber (show_nat n) False))) limit_literal = Inr n"
proof -
  define i :: i64 where "i = of_nat n"
  have i: "sint i = int n" using assms by (simp add: i_def signed_of_nat signed_take_bit_int_eq_self)
  then have "parse_i64 (show_nat n) = Some i" "\<not> is_float_text (show_nat n)"
    using parse_i64_roundtrip [of i] show_int_not_float [of "int n"] by (simp_all add: show_int_def)
  with i show ?thesis by (simp add: limit_literal_def)
qed

lemma res_map_of: "(\<And>x. x \<in> set xs \<Longrightarrow> f (g x) = Inr x) \<Longrightarrow> res_map f (map g xs) = Inr xs"
  by (induction xs) simp_all

lemma convert_of:
  "expr_form (prints sf) e \<Longrightarrow> convert_expr d (sql_of_expr sf e) = Inr e"
  "item_form (prints sf) i \<Longrightarrow> convert_select_item d (sql_of_item sf i) = Inr i"
  "source_form (prints sf) s \<Longrightarrow> convert_table_source d (sql_of_source sf s) = Inr s"
  "join_form (prints sf) j \<Longrightarrow> convert_join d (sql_of_join sf j) = Inr j"
  "order_form (prints sf) b \<Longrightarrow> convert_order_by d (sql_of_order sf b) = Inr b"
  "cte_form (prints sf) c \<Longrightarrow> convert_cte d (sql_of_cte sf c) = Inr c"
  "query_form (prints sf) q \<Longrightarrow> convert_query d (sql_of_query sf q) = Inr q"
proof (induction sf e and sf i and sf s and sf j and sf b and sf c and sf q
    rule: sql_of_expr_sql_of_item_sql_of_source_sql_of_join_sql_of_order_sql_of_cte_sql_of_query.induct)
  case (3 sf v)
  then show ?case using convert_literal_of by simp
next
  case (22 sf ctes dist items src joins sel groups having obs lim)
  then show ?case
    by (auto simp: res_map_of limit_of res_option_def simp del: convert_expr.simps split: option.splits)
qed (auto simp: lower_case_def lower_values lower_cases object_name_def convert_binary_of convert_unary_of
    sql_call_def sql_join_kind_def aggregate_named_of Let_def res_map_of
    split: option.splits join_type.splits)

text \<open>The conversion gives exactly the queries of the form.\<close>

lemma literal_form_mono: "literal_form P v \<Longrightarrow> (\<And>f. P f \<Longrightarrow> Q f) \<Longrightarrow> literal_form Q v"
  by (cases v) (simp_all add: literal_form_def)

lemma form_mono:
  "expr_form P e \<Longrightarrow> (\<And>v. P v \<Longrightarrow> Q v) \<Longrightarrow> expr_form Q e"
  "item_form P i \<Longrightarrow> (\<And>v. P v \<Longrightarrow> Q v) \<Longrightarrow> item_form Q i"
  "source_form P s \<Longrightarrow> (\<And>v. P v \<Longrightarrow> Q v) \<Longrightarrow> source_form Q s"
  "join_form P j \<Longrightarrow> (\<And>v. P v \<Longrightarrow> Q v) \<Longrightarrow> join_form Q j"
  "order_form P b \<Longrightarrow> (\<And>v. P v \<Longrightarrow> Q v) \<Longrightarrow> order_form Q b"
  "cte_form P c \<Longrightarrow> (\<And>v. P v \<Longrightarrow> Q v) \<Longrightarrow> cte_form Q c"
  "query_form P q \<Longrightarrow> (\<And>v. P v \<Longrightarrow> Q v) \<Longrightarrow> query_form Q q"
  by (induction P e and P i and P s and P j and P b and P c and P q
      rule: expr_form_item_form_source_form_join_form_order_form_cte_form_query_form.induct)
    (auto intro: literal_form_mono split: option.splits)

lemma convert_query_range: "(\<exists>s. convert_query d s = Inr q) \<longleftrightarrow> query_form readable_float q"
proof
  assume form: "query_form readable_float q"
  define sf where "sf v = (SOME s. is_float_text s \<and> parse_f64 s = Some v)" for v
  have "prints sf v" if "readable_float v" for v
    using that someI_ex [of "\<lambda>s. is_float_text s \<and> parse_f64 s = Some v"]
    unfolding readable_float_def prints_def sf_def by blast
  from convert_of(7) [OF form_mono(7) [OF form this]] show "\<exists>s. convert_query d s = Inr q" by blast
qed (auto dest: convert_forms)

section \<open>Clauses that are dropped\<close>

text \<open>
  A query in parentheses is converted without the \<open>WITH\<close>, \<open>ORDER BY\<close> and \<open>LIMIT\<close> outside them
  (once the common table expressions themselves convert), and a \<open>DELETE\<close> without its
  \<open>ORDER BY\<close> and \<open>LIMIT\<close>.
\<close>

lemma parenthesised_query:
  "convert_query d (SqlQuery None (SxQuery q) order limit False False False) = convert_query d q"
  by simp

lemma delete_everything:
  "res_fold (delete_step cat t cols None) (rows, ids, k) xs = Inr (rows, ids, k + length xs)"
  by (induction xs arbitrary: k)
    (auto simp: delete_step_def not_candidate_def candidate_row_ids_def selected_def)

lemma execute_delete_everything:
  assumes "execute_delete ln cat n None = Inr (r, cat')"
  shows "\<exists>t. map_of (cat_tables cat') (to_ascii_lowercase n) = Some t \<and> tb_rows t = []"
  using assms by (auto simp: execute_delete_def Let_def rbind_Inr_iff delete_everything put_table_def dest!: validatedD)

lemma delete_limit_dropped:
  assumes "parse_rustydb_extension (normalize_sql sql) = Inr None" "parser (normalize_sql sql) = Inr [SsDelete del]"
    and "sde_from del = [SqlTableWithJoins (StTable [n] a False) []]" "sde_selection del = None"
    and "parse_sql (sql_front d parser) sql = Inr st" "execute_catalog ln debug cat st = Inr (r, cat')"
  shows "\<exists>t. map_of (cat_tables cat') (to_ascii_lowercase n) = Some t \<and> tb_rows t = []"
proof -
  have "st = Delete (to_ascii_lowercase n) None"
    using assms(1-5)
    by (auto simp: parse_sql_def Let_def sql_front_def object_name_def res_option_def assign_parameters_def split: if_splits)
  then have "execute_delete ln cat (to_ascii_lowercase n) None = Inr (r, cat')"
    using assms(6) by (auto simp: execute_catalog_def execute_statement_def rbind_Inr_iff)
  from execute_delete_everything [OF this] show ?thesis by simp
qed

end
