(* ===== verification/Flusher.thy ===== *)
theory Flusher
  imports KvStore "HOL-Library.Multiset"
begin

text \<open>
  The background thread of \<^verbatim>\<open>src/src/persistence.rs\<close> (\<open>start_background_flush\<close>, lines 165 to 199)
  beside the operations of the key-value store. A turn of the thread is two steps: it takes
  the queue under one lock, and writes what it took under another. Between them the other
  operations run. The lemmas show that along every interleaving each operation is in the log
  exactly once or still queued or taken, when the files then stand for the memory, and how
  flushing and the order of writes go wrong between the two steps.
\<close>

section \<open>The thread and the store\<close>

record running =
  rn_store :: kv_store
  rn_taken :: "operation list"

definition thread_take :: "running \<Rightarrow> running" where
  "thread_take x = (case ks_manager (rn_store x) of
     None \<Rightarrow> x
   | Some m \<Rightarrow> \<lparr>rn_store = (rn_store x)\<lparr>ks_manager := Some (m\<lparr>km_pending := []\<rparr>)\<rparr>, rn_taken = km_pending m\<rparr>)"

definition thread_write :: "kv_platform \<Rightarrow> (nat \<Rightarrow> io) \<Rightarrow> running \<Rightarrow> running" where
  "thread_write kp os x = (case ks_manager (rn_store x) of
     None \<Rightarrow> x
   | Some m \<Rightarrow>
       \<lparr>rn_store = (rn_store x)\<lparr>ks_manager := Some (if km_wal_open m then write_all_ignoring kp os m (rn_taken x) else m)\<rparr>,
        rn_taken = []\<rparr>)"

text \<open>Both steps at once are one undisturbed turn of the thread.\<close>

lemma undisturbed_turn:
  "ks_manager s = Some m \<Longrightarrow>
   thread_write kp os (thread_take \<lparr>rn_store = s, rn_taken = []\<rparr>) =
     \<lparr>rn_store = s\<lparr>ks_manager := Some (background_flush kp os m)\<rparr>, rn_taken = []\<rparr>"
  by (simp add: thread_take_def thread_write_def background_flush_def Let_def)

text \<open>Dropping the store flushes the queue and ignores the result; the thread is not waited for.\<close>

definition kv_drop :: "kv_platform \<Rightarrow> (nat \<Rightarrow> io) \<Rightarrow> kv_manager \<Rightarrow> kv_manager" where
  "kv_drop kp os m = snd (kv_flush kp os m)"

section \<open>Interleavings\<close>

fun good_turn :: "kv_platform \<Rightarrow> (nat \<Rightarrow> io) \<Rightarrow> kv_manager \<Rightarrow> operation list \<Rightarrow> bool" where
  "good_turn kp os m [] \<longleftrightarrow> True"
| "good_turn kp os m (op # ops) \<longleftrightarrow>
     good_log kp (os 0) m op \<and> good_turn kp (\<lambda>i. os (Suc i)) (write_ignoring kp (os 0) m op) ops"

text \<open>
  The operations issued since a start, in their order, and the state after any interleaving
  of the store's operations with the two steps of the thread, all writes to the log
  succeeding.
\<close>

inductive beside_thread :: "kv_platform \<Rightarrow> kv_store \<Rightarrow> operation list \<Rightarrow> running \<Rightarrow> bool" for kp s where
  start: "beside_thread kp s [] \<lparr>rn_store = s, rn_taken = []\<rparr>"
| sync: "beside_thread kp s ops x \<Longrightarrow> good_write kp os (rn_store x) op \<Longrightarrow> kv_write kp os (rn_store x) op = (r, s') \<Longrightarrow>
     beside_thread kp s (ops @ [op]) (x\<lparr>rn_store := s'\<rparr>)"
| async: "beside_thread kp s ops x \<Longrightarrow> kv_set_async (rn_store x) key v = (r, s') \<Longrightarrow>
     beside_thread kp s (ops @ [OpSet key v]) (x\<lparr>rn_store := s'\<rparr>)"
| flush: "beside_thread kp s ops x \<Longrightarrow> good_flush kp os (rn_store x) \<Longrightarrow> kv_store_flush kp os (rn_store x) = (r, s') \<Longrightarrow>
     beside_thread kp s ops (x\<lparr>rn_store := s'\<rparr>)"
| takes: "beside_thread kp s ops x \<Longrightarrow> rn_taken x = [] \<Longrightarrow> beside_thread kp s ops (thread_take x)"
| writes: "beside_thread kp s ops x \<Longrightarrow>
     (\<forall>m. ks_manager (rn_store x) = Some m \<longrightarrow> good_turn kp os m (rn_taken x)) \<Longrightarrow>
     beside_thread kp s ops (thread_write kp os x)"

text \<open>The log holds readable records of these operations, behind a snapshot that stands for \<open>base\<close>.\<close>

definition logged :: "kv_platform \<Rightarrow> operation list \<Rightarrow> kv_manager \<Rightarrow> operation list \<Rightarrow> bool" where
  "logged kp base m ops \<longleftrightarrow> km_wal_open m \<and> recover_snapshot kp (km_disk m) = Inr base \<and>
     (\<exists>rs. kd_wal (km_disk m) = Some (kv_log_bytes kp rs) \<and> (\<forall>r \<in> set rs. kv_readable kp r) \<and> map kr_operation rs = ops)"

lemma logged_on_disk: "logged kp base m ops \<Longrightarrow> on_disk kp m (foldl apply_operation Map.empty (base @ ops))"
  by (auto simp: logged_def on_disk_def)

lemma on_disk_logged:
  assumes "on_disk kp m f"
  obtains base ops where "logged kp base m ops" "foldl apply_operation Map.empty (base @ ops) = f"
  using assms by (auto simp: logged_def on_disk_def)

lemma logged_pending [simp]: "logged kp base (m\<lparr>km_pending := p\<rparr>) ops = logged kp base m ops"
  by (simp add: logged_def)

lemma append_record_logged:
  assumes "logged kp base m ops" "kv_readable kp r"
  shows "logged kp base (append_wal (m\<lparr>km_next_sequence := n\<rparr>) (kp_record_json kp r @ [newline])) (ops @ [kr_operation r])"
proof -
  obtain rs where d: "km_wal_open m" "recover_snapshot kp (km_disk m) = Inr base" "kd_wal (km_disk m) = Some (kv_log_bytes kp rs)"
    "\<forall>r \<in> set rs. kv_readable kp r" "map kr_operation rs = ops" using assms(1) by (auto simp: logged_def)
  then show ?thesis
    using assms(2) unfolding logged_def
    by (intro conjI exI [of _ "rs @ [r]"]) (auto simp: append_wal_def kv_wal_bytes_def kv_log_bytes_snoc)
qed

lemma sync_logged:
  assumes "logged kp base m ops" "good_log kp os m op" "log_operation_sync kp os m op = (r, m1)"
  shows "r = Inr () \<and> logged kp base m1 (ops @ [op]) \<and> km_pending m1 = km_pending m"
proof -
  let ?r = "kv_record_new kp (io_now os) (km_next_sequence m) op"
  have m1: "r = Inr ()" "m1 = append_wal (m\<lparr>km_next_sequence := next_sequence (km_next_sequence m)\<rparr>) (kp_record_json kp ?r @ [newline])"
    using assms by (auto simp: log_operation_sync_def good_log_def Let_def logged_def)
  from append_record_logged [OF assms(1), of ?r] assms(2) have "logged kp base m1 (ops @ [op])"
    by (simp add: m1 good_log_def kv_record_new_def)
  with m1 show ?thesis by (simp add: append_wal_def)
qed

lemma flush_logged:
  assumes "logged kp base m ops" "good_logs kp os m queue" "log_operations kp os m queue = (r, m1)"
  shows "r = Inr () \<and> logged kp base m1 (ops @ queue) \<and> km_pending m1 = km_pending m"
  using assms
proof (induction queue arbitrary: os m ops)
  case (Cons op queue)
  obtain x m2 where log: "log_operation_sync kp (os 0) m op = (x, m2)" by (cases "log_operation_sync kp (os 0) m op")
  from sync_logged [OF Cons.prems(1) _ log] Cons.prems(2) have "x = Inr ()" "logged kp base m2 (ops @ [op])" "km_pending m2 = km_pending m"
    by auto
  with Cons.IH [of m2 "ops @ [op]" "\<lambda>i. os (Suc i)"] Cons.prems(2,3) log show ?case by simp
qed simp

lemma turn_logged:
  assumes "logged kp base m ops" "good_turn kp os m queue"
  shows "logged kp base (write_all_ignoring kp os m queue) (ops @ queue) \<and>
    km_pending (write_all_ignoring kp os m queue) = km_pending m"
  using assms
proof (induction queue arbitrary: os m ops)
  case (Cons op queue)
  let ?m = "write_ignoring kp (os 0) m op" and ?r = "kv_record_new kp (io_now (os 0)) (km_next_sequence m) op"
  have m: "?m = append_wal (m\<lparr>km_next_sequence := next_sequence (km_next_sequence m)\<rparr>) (kp_record_json kp ?r @ [newline])"
    using Cons.prems(2) by (simp add: write_ignoring_def good_log_def Let_def)
  from append_record_logged [OF Cons.prems(1), of ?r] Cons.prems(2) have "logged kp base ?m (ops @ [op])"
    by (simp add: m good_log_def kv_record_new_def)
  moreover have "km_pending ?m = km_pending m" by (simp add: m append_wal_def)
  ultimately show ?case using Cons.IH [of ?m "ops @ [op]" "\<lambda>i. os (Suc i)"] Cons.prems(2) by simp
qed simp

section \<open>Every operation is accounted for\<close>

definition accounted :: "kv_platform \<Rightarrow> operation list \<Rightarrow> operation list \<Rightarrow> operation list \<Rightarrow> running \<Rightarrow> bool" where
  "accounted kp base old ops x \<longleftrightarrow> (\<exists>m past. ks_manager (rn_store x) = Some m \<and> logged kp base m (old @ past) \<and>
     mset ops = mset past + mset (rn_taken x) + mset (km_pending m))"

lemma beside_thread_accounted:
  assumes "beside_thread kp s ops x" "ks_manager s = Some m" "logged kp base m old" "km_pending m = []"
  shows "accounted kp base old ops x \<and> map_of (ks_data (rn_store x)) = foldl apply_operation (map_of (ks_data s)) ops"
  using assms
proof (induction rule: beside_thread.induct)
  case start
  then show ?case by (auto simp: accounted_def intro: exI [of _ "[]"])
next
  case (sync ops x os op r s')
  then obtain m1 past where x: "ks_manager (rn_store x) = Some m1" "logged kp base m1 (old @ past)"
    "mset ops = mset past + mset (rn_taken x) + mset (km_pending m1)" by (auto simp: accounted_def)
  obtain lr m2 where log: "log_operation_sync kp os m1 op = (lr, m2)" by (cases "log_operation_sync kp os m1 op")
  have "good_log kp os m1 op" using sync.hyps(2) x(1) by (simp add: good_write_def)
  from sync_logged [OF x(2) this log] have "lr = Inr ()" "logged kp base m2 (old @ past @ [op])" "km_pending m2 = km_pending m1" by auto
  moreover from this have "s' = (rn_store x)\<lparr>ks_manager := Some m2, ks_data := kv_apply (ks_data (rn_store x)) op\<rparr>"
    using sync.hyps(3) x(1) log by (auto simp: kv_write_def kv_log_def)
  ultimately show ?case using sync x(3) unfolding accounted_def
    by (auto simp: kv_apply_map intro!: exI [of _ "past @ [op]"])
next
  case (async ops x key v r s')
  then obtain m1 past where x: "ks_manager (rn_store x) = Some m1" "logged kp base m1 (old @ past)"
    "mset ops = mset past + mset (rn_taken x) + mset (km_pending m1)" by (auto simp: accounted_def)
  with async show ?case unfolding accounted_def
    by (auto simp: kv_set_async_def log_operation_async_def update_conv' intro!: exI [of _ past])
next
  case (flush ops x os r s')
  then obtain m1 past where x: "ks_manager (rn_store x) = Some m1" "logged kp base m1 (old @ past)"
    "mset ops = mset past + mset (rn_taken x) + mset (km_pending m1)" by (auto simp: accounted_def)
  let ?m1 = "m1\<lparr>km_pending := []\<rparr>"
  obtain lr m2 where log: "log_operations kp os ?m1 (km_pending m1) = (lr, m2)" by (cases "log_operations kp os ?m1 (km_pending m1)")
  have "good_logs kp os ?m1 (km_pending m1)" using flush.hyps(2) x(1) by (simp add: good_flush_def)
  from flush_logged [OF _ this log, of base "old @ past"] x(2)
  have "lr = Inr ()" "logged kp base m2 (old @ past @ km_pending m1)" "km_pending m2 = []" by auto
  moreover from this have "s' = (rn_store x)\<lparr>ks_manager := Some m2\<rparr>"
    using flush.hyps(3) x(1) log by (auto simp: kv_store_flush_def kv_flush_def)
  ultimately show ?case using flush x(3) unfolding accounted_def
    by (auto simp: add_ac intro!: exI [of _ "past @ km_pending m1"])
next
  case (takes ops x)
  then show ?case by (auto simp: accounted_def thread_take_def)
next
  case (writes ops x os)
  then obtain m1 past where x: "ks_manager (rn_store x) = Some m1" "logged kp base m1 (old @ past)"
    "mset ops = mset past + mset (rn_taken x) + mset (km_pending m1)" by (auto simp: accounted_def)
  have "good_turn kp os m1 (rn_taken x)" using writes.hyps(2) x(1) by simp
  from turn_logged [OF x(2) this] x writes show ?case unfolding accounted_def
    by (auto simp: thread_write_def logged_def intro!: exI [of _ "past @ rn_taken x"])
qed

section \<open>Idle after writes to different keys\<close>

definition set_op :: "string \<times> string \<Rightarrow> operation" where
  "set_op p = OpSet (fst p) (snd p)"

lemma set_op_inj: "inj set_op"
  by (rule injI) (simp add: set_op_def prod_eq_iff)

lemma apply_set_op [simp]: "apply_operation f (set_op p) = f(fst p \<mapsto> snd p)"
  by (simp add: set_op_def)

lemma foldl_set_ops: "distinct (map fst ps) \<Longrightarrow> foldl apply_operation f (map set_op ps) = f ++ map_of ps"
proof (induction ps arbitrary: f)
  case (Cons p ps)
  then have "map_of ps (fst p) = None" by (simp add: map_of_eq_None_iff)
  then have "f(fst p \<mapsto> snd p) ++ map_of ps = f ++ map_of (p # ps)"
    by (intro ext) (simp add: map_add_def split: option.splits)
  moreover have "foldl apply_operation f (map set_op (p # ps)) = f(fst p \<mapsto> snd p) ++ map_of ps" using Cons by simp
  ultimately show ?case by (rule trans [rotated])
qed simp

lemma permuted_set_ops:
  assumes "mset past = mset (map set_op ps)" "distinct (map fst ps)"
  shows "foldl apply_operation f past = foldl apply_operation f (map set_op ps)"
proof -
  define qs where "qs = map (inv set_op) past"
  have "set past = set_op ` set ps" using mset_eq_setD [OF assms(1)] by simp
  then have qs: "past = map set_op qs" by (auto simp: qs_def comp_def f_inv_into_f intro!: map_idI [symmetric])
  have "mset qs = image_mset (inv set_op) (mset (map set_op ps))" using assms(1) by (simp add: qs_def)
  then have qs': "mset qs = mset ps" by (simp add: multiset.map_comp comp_def inv_f_f [OF set_op_inj])
  have "distinct (map fst qs)" using qs' assms(2) by (metis mset_eq_imp_distinct_iff mset_map)
  moreover have "map_of qs = map_of ps"
    using calculation assms(2) mset_eq_setD [OF qs'] by (simp add: map_of_inject_set)
  ultimately show ?thesis using qs assms(2) by (simp add: foldl_set_ops)
qed

lemma beside_thread_wf: "beside_thread kp s ops x \<Longrightarrow> wf_map (ks_data s) \<Longrightarrow> wf_map (ks_data (rn_store x))"
proof (induction rule: beside_thread.induct)
  case (sync ops x os op r s')
  then show ?case by (auto simp: kv_write_def kv_log_def kv_apply_wf split: option.splits prod.splits sum.splits)
qed (auto simp: kv_set_async_def kv_store_flush_def thread_take_def thread_write_def split: option.splits prod.splits)

lemma idle_store_ok:
  assumes "store_ok kp s" "ks_manager s = Some m" "beside_thread kp s (map set_op ps) x" "distinct (map fst ps)"
    and "rn_taken x = []" "ks_manager (rn_store x) = Some m'" "km_pending m' = []"
  shows "store_ok kp (rn_store x)"
proof -
  have m: "on_disk kp m (map_of (ks_data s))" "km_pending m = []" "wf_map (ks_data s)"
    using assms(1,2) by (auto simp: store_ok_def)
  from on_disk_logged [OF m(1)] obtain base old where log: "logged kp base m old"
    "foldl apply_operation Map.empty (base @ old) = map_of (ks_data s)" .
  from beside_thread_accounted [OF assms(3,2) log(1) m(2)] assms(5-7) obtain past
    where past: "logged kp base m' (old @ past)" "mset past = mset (map set_op ps)"
      "map_of (ks_data (rn_store x)) = foldl apply_operation (map_of (ks_data s)) (map set_op ps)"
    by (auto simp: accounted_def)
  from logged_on_disk [OF past(1)] have "on_disk kp m' (foldl apply_operation (map_of (ks_data s)) past)"
    using log(2) by simp
  with past permuted_set_ops [OF past(2) assms(4)] beside_thread_wf [OF assms(3) m(3)] assms(6,7)
  show ?thesis by (simp add: store_ok_def)
qed

section \<open>Between the two steps\<close>

text \<open>
  A flush between the two steps finds an empty queue and reports success, with the operation
  still in the hands of the thread and not in the files.
\<close>

lemma flush_during_turn:
  assumes "store_ok kp s" "ks_manager s = Some m" "kv_set_async s key v = (r1, s1)"
    and "kv_store_flush kp os (rn_store (thread_take \<lparr>rn_store = s1, rn_taken = []\<rparr>)) = (r2, s2)"
  shows "r2 = Inr () \<and> map_of (ks_data s2) key = Some v \<and>
    (\<exists>m2. ks_manager s2 = Some m2 \<and> km_pending m2 = [] \<and> on_disk kp m2 (map_of (ks_data s)))"
proof -
  have m: "on_disk kp m (map_of (ks_data s))" using assms(1,2) by (auto simp: store_ok_def)
  have s1: "s1 = s\<lparr>ks_manager := Some (log_operation_async m (OpSet key v)), ks_data := AList.update key v (ks_data s)\<rparr>"
    using assms(2,3) by (auto simp: kv_set_async_def)
  with assms(4) m show ?thesis
    by (auto simp: thread_take_def kv_store_flush_def kv_flush_def log_operation_async_def update_conv')
qed

text \<open>
  A value queued and flushed between the two steps is logged before the older one that the
  thread holds: when everything is written, memory has the newer value and the files the older.
\<close>

lemma older_value_wins:
  assumes "store_ok kp s" "ks_manager s = Some m" "kv_set_async s key old = (r1, s1)"
    and "kv_set_async (rn_store (thread_take \<lparr>rn_store = s1, rn_taken = []\<rparr>)) key new = (r2, s2)"
    and "good_flush kp os s2" "kv_store_flush kp os s2 = (r3, s3)"
    and "\<And>m3. ks_manager s3 = Some m3 \<Longrightarrow> good_turn kp os' m3 [OpSet key old]"
    and "thread_write kp os' \<lparr>rn_store = s3, rn_taken = [OpSet key old]\<rparr> = y"
  shows "r3 = Inr () \<and> rn_taken y = [] \<and> map_of (ks_data (rn_store y)) key = Some new \<and>
    (\<exists>m4 f. ks_manager (rn_store y) = Some m4 \<and> km_pending m4 = [] \<and> on_disk kp m4 f \<and> f key = Some old)"
proof -
  have m: "on_disk kp m (map_of (ks_data s))" "km_pending m = []" using assms(1,2) by (auto simp: store_ok_def)
  from on_disk_logged [OF m(1)] obtain base past where log: "logged kp base m past" .
  let ?m2 = "m\<lparr>km_pending := [OpSet key new]\<rparr>"
  have s1: "s1 = s\<lparr>ks_manager := Some (m\<lparr>km_pending := [OpSet key old]\<rparr>), ks_data := AList.update key old (ks_data s)\<rparr>"
    using assms(2,3) m(2) by (auto simp: kv_set_async_def log_operation_async_def)
  with assms(4) m(2) have s2: "ks_manager s2 = Some ?m2" "ks_data s2 = AList.update key new (ks_data s1)"
    by (auto simp: kv_set_async_def log_operation_async_def thread_take_def)
  let ?m0 = "?m2\<lparr>km_pending := []\<rparr>"
  obtain lr m3 where flush: "log_operations kp os ?m0 (km_pending ?m2) = (lr, m3)"
    by (cases "log_operations kp os ?m0 (km_pending ?m2)")
  have "good_logs kp os ?m0 (km_pending ?m2)" using assms(5) s2(1) by (simp add: good_flush_def)
  from flush_logged [OF _ this flush, of base past] log
  have m3: "lr = Inr ()" "logged kp base m3 (past @ [OpSet key new])" "km_pending m3 = []" by auto
  have s3: "r3 = Inr ()" "ks_manager s3 = Some m3" "ks_data s3 = ks_data s2"
    using assms(6) s2(1) flush m3(1) by (auto simp: kv_store_flush_def kv_flush_def)
  from turn_logged [OF m3(2) assms(7) [OF s3(2)]] m3(2)
  have m4: "logged kp base (write_all_ignoring kp os' m3 [OpSet key old]) (past @ [OpSet key new, OpSet key old])"
    "km_pending (write_all_ignoring kp os' m3 [OpSet key old]) = []" "km_wal_open m3"
    using m3(3) by (auto simp: logged_def)
  have y: "rn_taken y = []" "ks_data (rn_store y) = ks_data s3"
    "ks_manager (rn_store y) = Some (write_all_ignoring kp os' m3 [OpSet key old])"
    using assms(8) s3(2) m4(3) by (auto simp: thread_write_def)
  with s3 s2 m4(2) logged_on_disk [OF m4(1)] show ?thesis by (auto simp: update_conv')
qed

end
