(* ===== verification/SystemSamples.thy ===== *)
theory SystemSamples
  imports Samples Service Restore SqlForm Flusher
begin

text \<open>
  A key-value store, a server configuration and a data directory to evaluate the theorems on.
  The platforms write each of their records as one fixed line and read it back.
\<close>

section \<open>A key-value store\<close>

definition sample_kv_record :: kv_wal_record where
  "sample_kv_record = \<lparr>kr_format_version = 2, kr_sequence = 1, kr_timestamp_millis = 5, kr_operation = OpSet ''k'' ''v'', kr_checksum = 0\<rparr>"

definition sample_kv_line :: string where
  "sample_kv_line = [CHR 0x7B, CHR ''1'', CHR 0x7D]"

definition sample_kv_platform :: kv_platform where
  "sample_kv_platform = \<lparr>kp_crc = (\<lambda>_. 0), kp_operation_json = (\<lambda>_. []), kp_record_json = (\<lambda>_. sample_kv_line),
     kp_snapshot_json = (\<lambda>_. []), kp_read_record = (\<lambda>s. if s = sample_kv_line then Some sample_kv_record else None),
     kp_read_operation = (\<lambda>_. Inl (Fail [])), kp_read_snapshot = (\<lambda>_. None)\<rparr>"

definition sample_manager :: kv_manager where
  "sample_manager = \<lparr>km_config = kv_config_default, km_wal_open = True, km_pending = [], km_next_sequence = 1,
     km_disk = \<lparr>kd_wal = Some [], kd_snapshot = None, kd_snapshot_tmp = None, kd_archive = []\<rparr>\<rparr>"

definition sample_store :: kv_store where
  "sample_store = \<lparr>ks_data = [], ks_manager = Some sample_manager\<rparr>"

definition sample_written :: kv_store where
  "sample_written = snd (kv_write sample_kv_platform sample_io sample_store (OpSet ''k'' ''v''))"

definition sample_written_manager :: kv_manager where
  "sample_written_manager = sample_manager\<lparr>km_next_sequence := 2,
     km_disk := (km_disk sample_manager)\<lparr>kd_wal := Some (sample_kv_line @ [newline])\<rparr>\<rparr>"

lemma sample_kv_readable: "kv_readable sample_kv_platform sample_kv_record"
proof -
  have "json_line sample_kv_line" by code_simp
  then show ?thesis
    by (simp add: kv_readable_def sample_kv_platform_def sample_kv_record_def kv_record_valid_def kv_format_version_def kv_checksum_def)
qed

lemma sample_kv_record_new: "kv_record_new sample_kv_platform 5 1 (OpSet ''k'' ''v'') = sample_kv_record"
  by (simp add: kv_record_new_def sample_kv_record_def kv_format_version_def kv_checksum_def sample_kv_platform_def)

lemma sample_store_ok: "store_ok sample_kv_platform sample_store"
proof -
  have "on_disk sample_kv_platform sample_manager Map.empty"
    unfolding on_disk_def by (intro conjI exI [of _ "[]"]) (simp_all add: sample_manager_def kv_log_bytes_def recover_snapshot_def)
  then show ?thesis by (simp add: store_ok_def sample_store_def sample_manager_def wf_map_def)
qed

lemma sample_good_log: "good_log sample_kv_platform sample_io sample_manager (OpSet ''k'' ''v'')"
  using sample_kv_readable sample_kv_record_new by (simp add: good_log_def sample_io_def sample_manager_def)

lemma sample_good_write: "good_write sample_kv_platform sample_io sample_store (OpSet ''k'' ''v'')"
  using sample_good_log by (simp add: good_write_def sample_store_def)

lemma sample_kv_runs: "kv_runs sample_kv_platform sample_store [OpSet ''k'' ''v''] sample_written"
  using kv_runs.operation [OF kv_runs.nothing sample_good_write]
  by (cases "kv_write sample_kv_platform sample_io sample_store (OpSet ''k'' ''v'')") (simp add: sample_written_def)

lemma sample_written_managed: "ks_manager sample_written = Some sample_written_manager"
  by (simp add: sample_written_def sample_written_manager_def kv_write_def kv_log_def log_operation_sync_def sample_store_def
      sample_manager_def sample_io_def append_wal_def kv_wal_bytes_def Let_def next_sequence_def sample_kv_platform_def)

lemma sample_kv_torn: "kv_torn sample_kv_platform sample_torn"
proof -
  have "newline \<notin> set sample_torn" "utf8_valid sample_torn" by code_simp+
  then show ?thesis by (simp add: kv_torn_def sample_kv_platform_def) (simp add: sample_torn_def sample_kv_line_def)
qed

section \<open>A data directory\<close>

definition sample_dir :: "string \<Rightarrow> dir" where
  "sample_dir torn = [(''sql_wal.log'', log_bytes sample_platform [sample_record] @ torn), (''rustydb.wal'', sample_kv_line @ [newline])]"

definition sample_recovery_io :: recovery_io where
  "sample_recovery_io = \<lparr>ri_fail = (\<lambda>_. None), ri_written = 0, ri_now = 7, ri_error = [], ri_sql_lock = LockOk, ri_kv_lock = LockOk\<rparr>"

lemma sample_healthy: "healthy sample_recovery_io"
  by (simp add: healthy_def sample_recovery_io_def)

lemma sample_unlocked: "unlocked {} root"
  by (simp add: unlocked_def)

lemma sample_closed_dir:
  assumes "torn = [] \<or> newline \<notin> set torn \<and> unreadable sample_platform torn"
  shows "closed_dir sample_platform sample_kv_platform (sample_dir torn) [sample_record] torn [sample_kv_record] 0"
proof -
  have "map kr_sequence [sample_kv_record] = [Suc 0..<Suc 0 + length [sample_kv_record]]" by (simp add: sample_kv_record_def)
  moreover have "kv_log_bytes sample_kv_platform [sample_kv_record] = sample_kv_line @ [newline]"
    by (simp add: kv_log_bytes_def sample_kv_platform_def)
  ultimately show ?thesis
    using assms sample_readable sample_kv_readable
    by (simp add: closed_dir_def sample_dir_def subdir_def starts_with_str_def kv_base_def u64_max_def)
qed

lemma sample_load: "load_catalog sample_platform (sql_disk (sample_dir torn)) = Inr catalog_default"
proof -
  have "subdir ''tables'' (sample_dir torn) = []" "map_of (sample_dir torn) ''catalog.json'' = None"
    by (simp_all add: sample_dir_def subdir_def starts_with_str_def)
  then show ?thesis by (simp add: load_catalog_def sql_disk_def catalog_from_tables_def catalog_default_def)
qed

definition sample_replayed :: catalog where
  "sample_replayed = (put_table catalog_default ''t'' (table_new sample_ln sample_schema))\<lparr>cat_schema_version := 1, cat_version := 1\<rparr>"

lemma sample_recovered:
  assumes "torn = [] \<or> newline \<notin> set torn \<and> unreadable sample_platform torn"
  shows "recover sample_platform (sql_disk (sample_dir torn)) = Inr sample_replayed"
proof -
  have "replay_wal sample_platform (log_bytes sample_platform [sample_record] @ torn) catalog_default =
      res_fold (replay_record sample_platform) catalog_default [sample_record]"
    using assms sample_readable replay_torn [of "[sample_record]" sample_platform torn] replay_written [of "[sample_record]" sample_platform]
    by auto
  also have "\<dots> = Inr sample_replayed" using sample_replay by (simp add: sample_replayed_def)
  finally show ?thesis using sample_load [of torn] by (simp add: recover_def) (simp add: sql_disk_def sample_dir_def)
qed

text \<open>A platform that knows the manifest of the backup of that directory.\<close>

definition sample_manifest :: "string \<Rightarrow> backup_manifest" where
  "sample_manifest torn = projr (make_manifest sample_platform sample_kv_platform sample_recovery_io ''backup'' (base_dir (sample_dir torn)))"

definition sample_manifest_platform :: "string \<Rightarrow> recovery_platform" where
  "sample_manifest_platform torn = \<lparr>rp_manifest_json = (\<lambda>_. ''{}''), rp_read_manifest = (\<lambda>_. Inr (sample_manifest torn))\<rparr>"

lemma sample_manifest_reads_back:
  "make_manifest sample_platform sample_kv_platform sample_recovery_io ''backup'' (base_dir (sample_dir torn)) = Inr m \<Longrightarrow>
   rp_read_manifest (sample_manifest_platform torn) (rp_manifest_json (sample_manifest_platform torn) m) = Inr m"
  by (simp add: sample_manifest_platform_def sample_manifest_def)

section \<open>A server\<close>

definition sample_config :: server_config where
  "sample_config = (from_env (\<lambda>_. None))\<lparr>sc_username := Some ''root'', sc_password := Some ''pw''\<rparr>"

definition sample_sha1 :: "string \<Rightarrow> string" where
  "sample_sha1 s = replicate 20 (CHR ''x'')"

definition sample_link :: client_link where
  "sample_link = \<lparr>cl_peer = ''peer'', cl_greeting_written = True,
     cl_response = Some (client_response 0 ''eve'' (replicate 20 (CHR ''y'')) [] []), cl_answer_written = True,
     cl_packets = [([byte 3] @ ''DROP TABLE t'', sample_io, True)]\<rparr>"

definition sample_app :: app_state where
  "sample_app = \<lparr>as_kv = sample_store, as_sql = sample_db, as_config = sample_config\<rparr>"

definition sample_http :: http_platform where
  "sample_http = \<lparr>hp_to_str = Some, hp_base64 = Some\<rparr>"

lemma sample_auth_required: "auth_required sample_config"
  by (simp add: auth_required_def sample_config_def)

definition sample_wire_statement :: wire_statement where
  "sample_wire_statement = \<lparr>ws_prepared = \<lparr>ps_sql = [], ps_statement = Begin, ps_parameter_count = 3, ps_schema_version = 0\<rparr>,
     ws_parameter_types = [], ws_long_data = []\<rparr>"

lemma sample_eve_plain: "plain_text ''eve''" "plain_text []" "byte 0 \<notin> set (replicate 20 (CHR ''y''))"
  by code_simp+

lemma sample_hi_utf8: "utf8_valid ''hi''"
  by code_simp

section \<open>A statement read by the package's parser\<close>

definition sample_limited_delete :: sql_delete where
  "sample_limited_delete = \<lparr>sde_from = [SqlTableWithJoins (StTable [''t''] None False) []], sde_selection = None,
     sde_order_by = [], sde_limit = Some (SeValue (SvNumber ''1'' False))\<rparr>"

lemma sample_limited_delete_parts:
  "sde_from sample_limited_delete = [SqlTableWithJoins (StTable [''t''] None False) []]"
  "sde_selection sample_limited_delete = None"
  by (simp_all add: sample_limited_delete_def)

definition sample_parser :: "string \<Rightarrow> string + sql_statement list" where
  "sample_parser sql = Inr [SsDelete sample_limited_delete]"

definition sample_display :: sql_display where
  "sample_display = \<lparr>sd_expr = (\<lambda>_. []), sd_value = (\<lambda>_. []), sd_binary_op = (\<lambda>_. []), sd_unary_op = (\<lambda>_. []),
     sd_column_option = (\<lambda>_. []), sd_table_constraint = (\<lambda>_. []), sd_alter_operation = (\<lambda>_. []),
     sd_on_insert = (\<lambda>_. []), sd_statement = (\<lambda>_. [])\<rparr>"

definition sample_emptied :: catalog where
  "sample_emptied = put_table sample_catalog ''t'' (rebuild_index sample_ln (sample_table\<lparr>tb_rows := [], tb_row_ids := []\<rparr>))"

lemma sample_delete_text: "parse_rustydb_extension (normalize_sql ''DELETE FROM t LIMIT 1'') = Inr None"
  "normalize_sql ''DELETE FROM t LIMIT 1'' \<noteq> []"
  by code_simp+

lemma sample_delete_parsed:
  "parse_sql (sql_front sample_display sample_parser) ''DELETE FROM t LIMIT 1'' = Inr (Delete ''t'' None)"
  by (simp add: parse_sql_def Let_def sample_delete_text sql_front_def sample_parser_def sample_limited_delete_def
      object_name_def res_option_def assign_parameters_def string_eval)

lemma sample_emptied_valid: "validate_catalog sample_emptied = Inr ()"
  by (simp add: sample_emptied_def sample_catalog_def put_table_def catalog_default_def validate_eval column_eval index_eval)

lemma sample_delete_all:
  "execute_catalog sample_ln sample_debug sample_catalog (Delete ''t'' None) = Inr (RowsAffected 2, sample_emptied)"
  by (simp add: execute_catalog_def execute_statement_def execute_delete_def sample_find string_eval delete_everything sample_rows_def
      Let_def validated_def sample_emptied_valid flip: sample_emptied_def)

section \<open>A value between the queue and the log\<close>

definition sample_running :: running where
  "sample_running = thread_take \<lparr>rn_store = snd (kv_set_async sample_store ''k'' ''v''), rn_taken = []\<rparr>"

lemma sample_beside: "beside_thread sample_kv_platform sample_store [OpSet ''k'' ''v''] sample_running"
proof -
  have "beside_thread sample_kv_platform sample_store ([] @ [OpSet ''k'' ''v''])
      (\<lparr>rn_store = sample_store, rn_taken = []\<rparr>\<lparr>rn_store := snd (kv_set_async sample_store ''k'' ''v'')\<rparr>)"
    by (rule beside_thread.async [OF beside_thread.start]) (simp add: kv_set_async_def)
  then show ?thesis unfolding sample_running_def by (auto intro: beside_thread.takes)
qed

section \<open>A change through the HTTP server\<close>

definition sample_service_platform :: service_platform where
  "sample_service_platform = \<lparr>sp_http = sample_http, sp_kv = sample_kv_platform, sp_sql = sample_platform,
     sp_sha1 = sample_sha1, sp_unicode = (\<lambda>_. False), sp_process_id = 0\<rparr>"

definition sample_service :: service where
  "sample_service = snd (accept_connection sample_service_platform 0 True (service_start sample_app))"

definition sample_set_event :: event where
  "sample_set_event = HttpRequest (Some ''Basic root:pw'') (CallKvSetAsync ''k'' ''v'') \<lparr>rq_one = sample_io, rq_many = (\<lambda>_. sample_io)\<rparr>"

definition sample_service_after :: service where
  "sample_service_after = sample_service\<lparr>sv_app := snd (http_kv_set_async sample_app ''k'' ''v'')\<rparr>"

lemma sample_service_sha1: "length (sp_sha1 sample_service_platform s) = 20"
  by (simp add: sample_service_platform_def sample_sha1_def)

lemma sample_password: "sc_password sample_config \<noteq> Some []"
  by (simp add: sample_config_def)

lemma sample_service_run: "service_run sample_service_platform (service_start sample_app) [Accepted 0 True] = Inr sample_service"
  by (simp add: service_run_def service_next_def sample_service_def case_prod_beta)

lemma sample_service_app: "sv_app sample_service = sample_app"
  by (simp add: sample_service_def accept_connection_def Let_def service_start_def)

lemma sample_auth_passes: "auth_middleware sample_http sample_config (Some ''Basic root:pw'') = None"
proof -
  have "utf8_valid ''root:pw''" by code_simp
  then have "grants sample_http sample_config ''Basic root:pw''" by (simp add: grants_def sample_http_def sample_config_def)
  then show ?thesis by (simp add: auth_middleware_iff [OF sample_auth_required])
qed

lemma sample_app_config: "as_config sample_app = sample_config"
  by (simp add: sample_app_def)

lemma sample_service_change: "service_next sample_service_platform sample_service sample_set_event = Inr sample_service_after"
  by (simp add: service_next_def sample_set_event_def serve_def sample_service_app sample_auth_passes needs_credentials_iff
      sample_app_config sample_service_after_def sample_service_platform_def case_prod_beta)

lemma sample_service_changed: "sv_app sample_service_after \<noteq> sv_app sample_service"
  by (simp add: sample_service_after_def sample_service_app http_kv_set_async_def kv_set_async_def sample_app_def sample_store_def)

end
