(* ===== verification/VersionCheck.thy ===== *)
theory VersionCheck
  imports SqlText
begin

text \<open>
  The update check of \<^verbatim>\<open>src/src/version_check.rs\<close>. Reading a semantic version is the
  \<open>semver\<close> package's: the argument \<open>parse\<close>, into a linearly ordered type. The tags the
  registry lists, or the error of asking it, are an argument. The lemmas show that the latest
  tag is a version that no other listed version exceeds, and that the warning names a version
  newer than the running one.
\<close>

record update_info =
  ui_current :: string
  ui_latest :: string

definition update_check_disabled :: "string option \<Rightarrow> bool" where
  "update_check_disabled env = (case env of None \<Rightarrow> False
     | Some v \<Rightarrow> to_ascii_lowercase (trim v) \<in> {''0'', ''false'', ''off'', ''no''})"

definition parse_tag_version :: "(string \<Rightarrow> 'v option) \<Rightarrow> string \<Rightarrow> 'v option" where
  "parse_tag_version parse tag = parse (case tag of c # rest \<Rightarrow> if c = CHR ''v'' then rest else tag | [] \<Rightarrow> tag)"

definition is_newer_version :: "(string \<Rightarrow> 'v :: linorder option) \<Rightarrow> string \<Rightarrow> string \<Rightarrow> bool" where
  "is_newer_version parse candidate current =
     (case (parse_tag_version parse candidate, parse_tag_version parse current) of
        (Some a, Some b) \<Rightarrow> b < a | _ \<Rightarrow> False)"

text \<open>\<open>max_by\<close> keeps the last of the greatest.\<close>

fun max_version_by :: "('v :: linorder \<times> string) option \<Rightarrow> ('v \<times> string) list \<Rightarrow> ('v \<times> string) option" where
  "max_version_by best [] = best"
| "max_version_by best (x # xs) =
     max_version_by (Some (case best of None \<Rightarrow> x | Some b \<Rightarrow> if fst b \<le> fst x then x else b)) xs"

definition latest_semver_tag :: "(string \<Rightarrow> 'v :: linorder option) \<Rightarrow> string list \<Rightarrow> string option" where
  "latest_semver_tag parse tags =
     map_option snd (max_version_by None
       (List.map_filter (\<lambda>tag. map_option (\<lambda>v. (v, tag)) (parse_tag_version parse tag)) tags))"

definition fetch_latest_package_version ::
  "(string \<Rightarrow> 'v :: linorder option) \<Rightarrow> string + string list option \<Rightarrow> string res" where
  "fetch_latest_package_version parse answer = (case answer of
     Inl e \<Rightarrow> Inl (Fail e)
   | Inr tags \<Rightarrow> ok_or (latest_semver_tag parse (case tags of Some ts \<Rightarrow> ts | None \<Rightarrow> []))
       ''no semantic version tags found for RustyDB package'')"

definition check_for_update ::
  "(string \<Rightarrow> 'v :: linorder option) \<Rightarrow> string \<Rightarrow> string + string list option \<Rightarrow> update_info option res" where
  "check_for_update parse current answer =
     rbind (fetch_latest_package_version parse answer) (\<lambda>latest.
       Inr (if is_newer_version parse latest current then Some \<lparr>ui_current = current, ui_latest = latest\<rparr> else None))"

definition outdated_version_warning ::
  "(string \<Rightarrow> 'v :: linorder option) \<Rightarrow> string option \<Rightarrow> string \<Rightarrow> string + string list option \<Rightarrow> string list" where
  "outdated_version_warning parse env current answer =
     (if update_check_disabled env then []
      else case check_for_update parse current answer of
        Inr (Some u) \<Rightarrow>
          [''WARNING: RustyDB '' @ ui_current u @ '' is outdated. Latest available package version is '' @ ui_latest u @ ''.'',
           ''         Update from: https://github.com/IPandral/RustyDB/pkgs/container/rustydb'', []]
      | _ \<Rightarrow> [])"

section \<open>The latest version\<close>

lemma max_version_by_spec:
  assumes "max_version_by best xs = Some m"
  shows "(best = Some m \<or> m \<in> set xs) \<and> (\<forall>x \<in> set xs. fst x \<le> fst m) \<and> (\<forall>b. best = Some b \<longrightarrow> fst b \<le> fst m)"
  using assms
proof (induction xs arbitrary: best)
  case (Cons x xs)
  let ?b = "case best of None \<Rightarrow> x | Some b \<Rightarrow> if fst b \<le> fst x then x else b"
  have "(Some ?b = Some m \<or> m \<in> set xs) \<and> (\<forall>x \<in> set xs. fst x \<le> fst m) \<and> fst ?b \<le> fst m"
    using Cons.IH [of "Some ?b"] Cons.prems by simp
  then show ?case by (auto split: option.splits if_splits)
qed simp

lemma latest_semver_tag_latest:
  assumes "latest_semver_tag parse tags = Some tag" "t \<in> set tags" "parse_tag_version parse t = Some v"
  shows "tag \<in> set tags \<and> (\<exists>w. parse_tag_version parse tag = Some w \<and> v \<le> w)"
proof -
  let ?xs = "List.map_filter (\<lambda>tag. map_option (\<lambda>v. (v, tag)) (parse_tag_version parse tag)) tags"
  have xs: "x \<in> set ?xs \<longleftrightarrow> snd x \<in> set tags \<and> parse_tag_version parse (snd x) = Some (fst x)" for x
    by (cases x) (force simp: List.map_filter_def image_iff)
  from assms(1) obtain m where m: "max_version_by None ?xs = Some m" "tag = snd m"
    by (auto simp: latest_semver_tag_def)
  from max_version_by_spec [OF m(1)] have "m \<in> set ?xs" "\<forall>x \<in> set ?xs. fst x \<le> fst m" by auto
  moreover have "(v, t) \<in> set ?xs" using assms(2,3) xs [of "(v, t)"] by simp
  ultimately show ?thesis using xs [of m] m(2) by fastforce
qed

lemma warning_names_a_newer_version:
  assumes "outdated_version_warning parse env current answer \<noteq> []"
  obtains u where "check_for_update parse current answer = Inr (Some u)" "ui_current u = current"
    "is_newer_version parse (ui_latest u) current"
  using assms
  by (auto simp: outdated_version_warning_def check_for_update_def rbind_Inr_iff
      split: if_splits sum.splits option.splits)

end
