(* ===== verification/Cli.thy ===== *)
theory Cli
  imports Service Recovery VersionCheck
begin

text \<open>
  The command line of \<^verbatim>\<open>src/src/main.rs\<close>: the choice of the mode, the recovery commands, and
  the two interactive loops as functions of one line of input each. What is printed is a list
  of lines, without the prompts. \<open>read_line\<close> gives an empty string at the end of the input
  and an empty line as a newline, so a line here is what \<open>read_line\<close> put into the buffer.
  \<open>to_lowercase\<close> and \<open>to_uppercase\<close>, which are those of Unicode, are arguments.
  The lemmas show that a statement typed over several lines is executed as one text, that the
  loops do not notice the end of the input, and what two spaces do in a \<open>SET\<close>.
\<close>

section \<open>Arguments and modes\<close>

definition flag_given :: "string \<Rightarrow> string list \<Rightarrow> bool" where
  "flag_given flag args \<longleftrightarrow> flag \<in> set args"

text \<open>\<open>trim_start_matches\<close> takes a prefix away as often as it is there.\<close>

fun trim_prefixes :: "nat \<Rightarrow> string \<Rightarrow> string \<Rightarrow> string" where
  "trim_prefixes 0 prefix s = s"
| "trim_prefixes (Suc n) prefix s =
     (if prefix \<noteq> [] \<and> starts_with_str s prefix then trim_prefixes n prefix (drop (length prefix) s) else s)"

definition default_data_dir :: string where
  "default_data_dir = ''./rustydb_data''"

definition data_dir_of :: "string list \<Rightarrow> string" where
  "data_dir_of args = (case find (\<lambda>a. starts_with_str a ''--data='') args of
     None \<Rightarrow> default_data_dir
   | Some a \<Rightarrow> trim_prefixes (length a) ''--data='' a)"

definition cli_option :: "string \<Rightarrow> string list \<Rightarrow> string option" where
  "cli_option name args = (let prefix = ''--'' @ name @ ''='' in
     map_option (drop (length prefix)) (find (\<lambda>a. starts_with_str a prefix) args))"

datatype cli_mode =
    RecoveryCommand
  | ServerMode bool string
  | ServerMissing
  | SqlMode string bool
  | KvMode string bool

definition is_recovery_command :: "string list \<Rightarrow> bool" where
  "is_recovery_command args \<longleftrightarrow> (case args of
     _ # command # _ \<Rightarrow> command \<in> {''backup'', ''restore'', ''wal-prune''} | _ \<Rightarrow> False)"

definition main_mode :: "bool \<Rightarrow> string list \<Rightarrow> cli_mode" where
  "main_mode server_feature args =
     (let memory = flag_given ''--memory'' args; data_dir = data_dir_of args in
      if is_recovery_command args then RecoveryCommand
      else if flag_given ''--server'' args
      then (if server_feature then ServerMode memory data_dir else ServerMissing)
      else if flag_given ''--sql'' args then SqlMode data_dir memory else KvMode data_dir memory)"

definition banner :: "(string \<Rightarrow> 'v :: linorder option) \<Rightarrow> string option \<Rightarrow> string + string list option \<Rightarrow> string list" where
  "banner parse env answer =
     [''RustyDB v'' @ RUSTYDB_VERSION, ''A high-performance database with KV and SQL support'',
      ''Type '' @ quoted ''help'' @ '' for available commands'', []] @
     outdated_version_warning parse env RUSTYDB_VERSION answer"

definition server_mode_config :: "bool \<Rightarrow> string \<Rightarrow> server_config \<Rightarrow> server_config" where
  "server_mode_config memory_only data_dir config =
     (let c = (if memory_only then config\<lparr>sc_memory_only := True\<rparr> else config)
      in if data_dir \<noteq> default_data_dir then c\<lparr>sc_data_dir := data_dir\<rparr> else c)"

text \<open>What server mode prints, and the server that runs then; an error of binding goes to the error stream.\<close>

definition run_server_mode ::
  "(server_config \<Rightarrow> (string list \<times> (string + service)) res) \<Rightarrow> (string \<Rightarrow> string option) \<Rightarrow> bool \<Rightarrow> string \<Rightarrow>
     (string list \<times> string list \<times> service option) res" where
  "run_server_mode start env memory_only data_dir =
     rbind (start (server_mode_config memory_only data_dir (from_env env))) (\<lambda>(lines, r).
       case r of
         Inl e \<Rightarrow> Inr (lines, [''Server error: '' @ e], None)
       | Inr sv \<Rightarrow> Inr (lines, [], Some sv))"

section \<open>Recovery commands\<close>

text \<open>The directories of the machine, by path, and what a command makes of them.\<close>

type_synonym dirs = "string \<Rightarrow> dir"

definition point_text :: "recovery_point \<Rightarrow> string" where
  "point_text p = ''sql:'' @ show_nat (sql_commit_version p) @ '',kv:'' @ show_nat (kv_sequence p)"

definition backup_command ::
  "recovery_platform \<Rightarrow> platform \<Rightarrow> kv_platform \<Rightarrow> recovery_io \<Rightarrow> string set \<Rightarrow> dirs \<Rightarrow> string list \<Rightarrow> string res \<times> dirs" where
  "backup_command rp pf kp ri held fs args =
     (let data = or_default default_data_dir (cli_option ''data'' args) in
      case cli_option ''output'' args of
        None \<Rightarrow> (Inl (Fail ''backup requires --output=DIR''), fs)
      | Some output \<Rightarrow>
          (case backup_create rp pf kp ri held data (fs data) output (fs output) of (r, d) \<Rightarrow>
             (rbind r (\<lambda>m. Inr (''Backup complete at recovery point '' @ point_text (bm_recovery_point m))), fs(output := d))))"

definition restore_target :: "string list \<Rightarrow> recovery_target res" where
  "restore_target args = (case (cli_option ''target-time'' args, cli_option ''target-point'' args) of
     (Some _, Some _) \<Rightarrow> Inl (Fail ''Choose only one of --target-time or --target-point'')
   | (Some timestamp, None) \<Rightarrow> rbind (parse_rfc3339 timestamp) (\<lambda>t. Inr (Timestamp (int t)))
   | (None, Some point) \<Rightarrow> rbind (recovery_point_from_str point) (\<lambda>p. Inr (Point p))
   | (None, None) \<Rightarrow> Inr Latest)"

definition restore_command ::
  "recovery_platform \<Rightarrow> platform \<Rightarrow> kv_platform \<Rightarrow> recovery_io \<Rightarrow> string set \<Rightarrow> dirs \<Rightarrow> string list \<Rightarrow> string res \<times> dirs" where
  "restore_command rp pf kp ri held fs args =
     (case cli_option ''backup'' args of
        None \<Rightarrow> (Inl (Fail ''restore requires --backup=DIR''), fs)
      | Some backup \<Rightarrow>
         (case cli_option ''output'' args of
            None \<Rightarrow> (Inl (Fail ''restore requires --output=DIR''), fs)
          | Some output \<Rightarrow>
             (case restore_target args of
                Inl e \<Rightarrow> (Inl e, fs)
              | Inr target \<Rightarrow>
                 (case backup_restore rp pf kp ri held backup (fs backup)
                         (map_option (\<lambda>a. (a, fs a)) (cli_option ''wal-archive'' args)) output (fs output) target of
                    (r, d) \<Rightarrow> (rbind r (\<lambda>p. Inr (''Restore complete at recovery point '' @ point_text p)), fs(output := d))))))"

definition prune_command ::
  "platform \<Rightarrow> kv_platform \<Rightarrow> recovery_io \<Rightarrow> string set \<Rightarrow> dirs \<Rightarrow> string list \<Rightarrow> string res \<times> dirs" where
  "prune_command pf kp ri held fs args =
     (let data = or_default default_data_dir (cli_option ''data'' args); apply_it = flag_given ''--yes'' args in
      case cli_option ''before'' args of
        None \<Rightarrow> (Inl (Fail ''wal-prune requires --before=RFC3339''), fs)
      | Some before \<Rightarrow>
         (case parse_rfc3339 before of
            Inl e \<Rightarrow> (Inl e, fs)
          | Inr t \<Rightarrow>
             (case backup_prune pf kp ri held data (fs data) (int t) apply_it of
                (r, d) \<Rightarrow>
                  (rbind r (\<lambda>report. Inr ((if apply_it then ''Pruned '' else ''Would prune '') @ show_nat (length (pr_files report)) @
                     '' WAL segment(s), '' @ show_nat (pr_bytes report) @ '' bytes'' @
                     (if apply_it then [] else '' (dry run; pass --yes to apply)''))), fs(data := d)))))"

text \<open>What goes to the standard output and to the error output, and the directories after it.\<close>

definition run_recovery_command ::
  "recovery_platform \<Rightarrow> platform \<Rightarrow> kv_platform \<Rightarrow> recovery_io \<Rightarrow> string set \<Rightarrow> dirs \<Rightarrow> string list
     \<Rightarrow> ((string list \<times> string list) \<times> dirs) res" where
  "run_recovery_command rp pf kp ri held fs args =
     (case (if args ! 1 = ''backup'' then backup_command rp pf kp ri held fs args
            else if args ! 1 = ''restore'' then restore_command rp pf kp ri held fs args
            else prune_command pf kp ri held fs args) of
        (Inr message, fs') \<Rightarrow> Inr (([message], []), fs')
      | (Inl (Fail e), fs') \<Rightarrow> Inr (([], [''Error: '' @ e]), fs')
      | (Inl (Panic why), fs') \<Rightarrow> Inl (Panic why))"

section \<open>Help\<close>

definition sql_help :: "string list" where
  "sql_help =
    [[],
     ''  RustyDB SQL Mode'',
     ''  ================='',
     [],
     ''  SQL Commands:'',
     ''    CREATE TABLE name (col1 TYPE, col2 TYPE, ...)'',
     ''    CREATE [UNIQUE] INDEX name ON table (col1, ...)'',
     ''    DROP INDEX name ON table'',
     ''    DROP TABLE name'',
     ''    INSERT INTO table VALUES (val1, val2, ...)'',
     ''    SELECT ... FROM ... [JOIN ...] [WHERE ...] [GROUP BY ...] [HAVING ...]'',
     ''    UPDATE table SET col = val [WHERE ...]'',
     ''    DELETE FROM table [WHERE ...]'',
     ''    SHOW TABLES'',
     ''    SHOW INDEXES FROM table'',
     ''    DESCRIBE table'',
     ''    EXPLAIN SELECT ...'',
     ''    BEGIN, COMMIT, ROLLBACK'',
     [],
     ''  Data Types:'',
     ''    INTEGER, INT        - Integer numbers'',
     ''    FLOAT, DOUBLE       - Floating point numbers'',
     ''    TEXT, VARCHAR(n)    - Text strings'',
     ''    BOOLEAN, BOOL       - TRUE or FALSE'',
     [],
     ''  Column Modifiers:'',
     ''    PRIMARY KEY         - Unique identifier'',
     ''    UNIQUE              - Unique column or column group'',
     ''    CHECK (expression)  - Row validation'',
     ''    FOREIGN KEY (...) REFERENCES table (...) - Referential integrity'',
     ''    NOT NULL            - Cannot be NULL'',
     [],
     ''  WHERE Operators:'',
     ''    =, !=, <, <=, >, >= - Comparison'',
     ''    LIKE                - Pattern matching (% and _)'',
     ''    AND, OR             - Logical operators'',
     [],
     ''  Special Commands:'',
     ''    tables, '' @ [CHR 0x5C] @ ''dt         - List all tables'',
     ''    save, checkpoint    - Save database to disk'',
     ''    help, '' @ [CHR 0x5C] @ ''h            - Show this help'',
     ''    exit, quit, '' @ [CHR 0x5C] @ ''q      - Exit RustyDB'',
     [],
     ''  Examples:'',
     ''    CREATE TABLE users (id INT PRIMARY KEY, name VARCHAR(100), age INT);'',
     ''    INSERT INTO users VALUES (1, '' @ [CHR 0x27] @ ''Alice'' @ [CHR 0x27] @ '', 30);'',
     ''    SELECT * FROM users WHERE age > 25 ORDER BY name;'',
     []]"

definition kv_help :: "string list" where
  "kv_help =
    [[],
     ''  RustyDB Key-Value Mode'',
     ''  ======================'',
     [],
     ''  Basic Operations:'',
     ''    SET <key> <value>      - Store a key-value pair (sync, crash-safe)'',
     ''    SETASYNC <key> <value> - Store a key-value pair (async, faster)'',
     ''    GET <key>              - Retrieve a value by key'',
     ''    DELETE <key>           - Delete a key'',
     ''    LEN                    - Get number of keys'',
     ''    ISEMPTY                - Check if store is empty'',
     ''    CLEAR                  - Delete all keys'',
     [],
     ''  Batch Operations:'',
     ''    MGET <key1> <key2> ... - Get multiple keys at once'',
     ''    MSET <k1> <v1> ...     - Set multiple key-value pairs'',
     [],
     ''  Persistence:'',
     ''    SNAPSHOT               - Compact WAL into snapshot'',
     ''    FLUSH                  - Flush pending writes to disk'',
     ''    WALSIZE                - Show current WAL file size'',
     [],
     ''  Other:'',
     ''    SQL                    - Info about SQL mode'',
     ''    HELP                   - Show this help message'',
     ''    EXIT                   - Quit RustyDB'',
     []]"

section \<open>The SQL loop\<close>

record sql_cli =
  sl_db :: database
  sl_session :: session
  sl_buffer :: string
  sl_multiline :: bool

definition sql_cli_new :: "database \<Rightarrow> sql_cli" where
  "sql_cli_new db = \<lparr>sl_db = db, sl_session = session_new, sl_buffer = [], sl_multiline = False\<rparr>"

definition open_sql_mode ::
  "platform \<Rightarrow> open_io \<Rightarrow> string \<Rightarrow> string set \<Rightarrow> disk \<Rightarrow> string \<Rightarrow> bool \<Rightarrow> (string list \<times> database) res" where
  "open_sql_mode pf os err held d data_dir memory_only =
     (let in_memory = database_with_options options_default; first = ''Running in SQL mode'' in
      if memory_only then Inr ([first, ''Using in-memory database (no persistence)'', []], in_memory)
      else let named = [first, ''Data directory: '' @ data_dir] in
        case open_with_options pf os err held data_dir d options_default of
          Inr (db, held') \<Rightarrow>
            Inr (named @ (let tables = list_tables db in
                   if tables = [] then [] else [''Loaded '' @ show_nat (length tables) @ '' table(s): '' @ join_with '', '' tables])
                 @ [[]], db)
        | Inl (Fail e) \<Rightarrow>
            Inr (named @ [''Failed to open database: '' @ e, ''Falling back to in-memory mode'', []], in_memory)
        | Inl (Panic why) \<Rightarrow> Inl (Panic why))"

text \<open>The commands that are no SQL, recognised at the start of a statement: \<open>None\<close> is none of them.\<close>

definition backslash :: "string \<Rightarrow> string" where
  "backslash s = CHR 0x5C # s"

definition sql_command :: "platform \<Rightarrow> io \<Rightarrow> sql_cli \<Rightarrow> string \<Rightarrow> (string list \<times> sql_cli \<times> bool) option" where
  "sql_command pf os st c =
     (if c \<in> {''exit'', ''quit'', backslash ''q''}
      then case save pf os (sl_db st) of (r, db) \<Rightarrow>
        Some ((case r of Inl e \<Rightarrow> [''Warning: Failed to save: '' @ error_text e] | Inr _ \<Rightarrow> []) @ [''Data saved. Goodbye!''],
              st\<lparr>sl_db := db\<rparr>, False)
      else if c \<in> {''help'', backslash ''h'', backslash ''?''} then Some (sql_help, st, True)
      else if c \<in> {''tables'', backslash ''dt''}
      then let tables = list_tables (sl_db st) in
        Some (if tables = [] then [''No tables''] else ''Tables:'' # map (\<lambda>t. ''  '' @ t) tables, st, True)
      else if c \<in> {''save'', ''checkpoint''}
      then case save pf os (sl_db st) of (r, db) \<Rightarrow>
        Some ([case r of Inl e \<Rightarrow> ''Error: '' @ error_text e | Inr _ \<Rightarrow> ''Database saved''], st\<lparr>sl_db := db\<rparr>, True)
      else if c \<in> {''kv'', ''kvmode''}
      then Some ([''Switching to KV mode not supported in this session.'',
                  ''Restart with --sql flag removed to use KV mode.''], st, True)
      else None)"

definition statement_complete :: "(string \<Rightarrow> string) \<Rightarrow> string \<Rightarrow> bool" where
  "statement_complete upper s \<longleftrightarrow> ends_with_str s '';'' \<or>
     list_ex (starts_with_str (upper s)) [''SHOW '', ''DESCRIBE '', ''DESC '']"

text \<open>One pass of the loop: what it prints, the state after it, and whether it goes on.\<close>

definition sql_line ::
  "platform \<Rightarrow> (string \<Rightarrow> string) \<Rightarrow> (string \<Rightarrow> string) \<Rightarrow> io \<Rightarrow> sql_cli \<Rightarrow> string \<Rightarrow> (string list \<times> sql_cli \<times> bool) res" where
  "sql_line pf lower upper os st line =
     (let input = trim line in
      if input = [] \<and> \<not> sl_multiline st then Inr ([], st, True)
      else case (if sl_multiline st then None else sql_command pf os st (lower input)) of
        Some done \<Rightarrow> Inr done
      | None \<Rightarrow>
         (let buffer = sl_buffer st @ input @ '' ''; sql = trim buffer in
          if \<not> statement_complete upper sql \<and> input \<noteq> []
          then Inr ([], st\<lparr>sl_buffer := buffer, sl_multiline := True\<rparr>, True)
          else let st1 = st\<lparr>sl_buffer := [], sl_multiline := False\<rparr> in
            if sql = [] then Inr ([], st1, True)
            else rbind (session_execute pf os (sl_db st) (sl_session st) sql) (\<lambda>(r, db, ss).
                 rbind (execution_result_to_string r) (\<lambda>shown.
                   Inr ([shown], st1\<lparr>sl_db := db, sl_session := ss\<rparr>, True)))))"

fun sql_loop ::
  "platform \<Rightarrow> (string \<Rightarrow> string) \<Rightarrow> (string \<Rightarrow> string) \<Rightarrow> (nat \<Rightarrow> io) \<Rightarrow> sql_cli \<Rightarrow> string list \<Rightarrow> (string list \<times> sql_cli \<times> bool) res" where
  "sql_loop pf lower upper os st [] = Inr ([], st, True)"
| "sql_loop pf lower upper os st (line # lines) =
     rbind (sql_line pf lower upper (os 0) st line) (\<lambda>(out, st1, go_on).
       if go_on
       then rbind (sql_loop pf lower upper (\<lambda>i. os (Suc i)) st1 lines) (\<lambda>(out', st2, g). Inr (out @ out', st2, g))
       else Inr (out, st1, False))"

section \<open>The key-value loop\<close>

definition open_kv_mode ::
  "kv_platform \<Rightarrow> open_io \<Rightarrow> string \<Rightarrow> string set \<Rightarrow> kv_disk \<Rightarrow> string \<Rightarrow> bool \<Rightarrow> string list \<times> kv_store" where
  "open_kv_mode kp os err held d data_dir memory_only =
     (let first = [''Running in Key-Value mode'', ''(Use --sql flag for SQL mode)'', []] in
      if memory_only then (first @ [''Running in memory-only mode (no persistence)'', []], kv_new)
      else let named = first @ [''Data directory: '' @ data_dir] in
        case kv_open kp os err held d data_dir of
          Inr (s, held') \<Rightarrow>
            (named @ (let count = res_or 0 (kv_len s) in
               if 0 < count then [''Recovered '' @ show_nat count @ '' keys from disk''] else []) @ [[]], s)
        | Inl e \<Rightarrow>
            (named @ [''Failed to open persistent store: '' @ error_text e, ''Falling back to memory-only mode'', []], kv_new))"

fun splitn_space :: "nat \<Rightarrow> string \<Rightarrow> string list" where
  "splitn_space 0 s = []"
| "splitn_space (Suc 0) s = [s]"
| "splitn_space (Suc (Suc n)) s = (case Config.split_once (CHR '' '') s of
     None \<Rightarrow> [s] | Some (a, b) \<Rightarrow> a # splitn_space (Suc n) b)"

text \<open>
  \<open>{:.2}\<close> of a quotient by a power of two, which a float holds exactly below \<open>2 ^ 53\<close>: the
  nearest hundredth, the even one of two.
\<close>

definition hundredths :: "nat \<Rightarrow> nat \<Rightarrow> nat" where
  "hundredths n d = (let q = n * 100 div d; r = n * 100 mod d in
     if d < 2 * r \<or> 2 * r = d \<and> odd q then q + 1 else q)"

definition two_decimals :: "nat \<Rightarrow> nat \<Rightarrow> string" where
  "two_decimals n d = (let h = hundredths n d in
     show_nat (h div 100) @ ''.'' @ show_nat (h mod 100 div 10) @ show_nat (h mod 10))"

definition size_text :: "nat \<Rightarrow> string" where
  "size_text n =
     (if n < 1024 then show_nat n @ '' bytes''
      else if n < 1024 * 1024 then two_decimals n 1024 @ '' KB''
      else two_decimals n (1024 * 1024) @ '' MB'')"

fun pair_up :: "'a list \<Rightarrow> ('a \<times> 'a) list" where
  "pair_up (k # v # rest) = (k, v) # pair_up rest"
| "pair_up _ = []"

definition said :: "('a \<Rightarrow> string) \<Rightarrow> 'a res \<times> kv_store \<Rightarrow> string list \<times> kv_store \<times> bool" where
  "said f x = (case x of (r, s) \<Rightarrow> ([case r of Inr y \<Rightarrow> f y | Inl e \<Rightarrow> ''Error: '' @ error_text e], s, True))"

definition told :: "kv_store \<Rightarrow> string list \<Rightarrow> string list \<times> kv_store \<times> bool" where
  "told s out = (out, s, True)"

definition kv_line ::
  "kv_platform \<Rightarrow> (string \<Rightarrow> string) \<Rightarrow> request_io \<Rightarrow> kv_store \<Rightarrow> string \<Rightarrow> string list \<times> kv_store \<times> bool" where
  "kv_line kp lower os s line =
     (let input = trim line in
      if input = [] then (([], s, True))
      else let parts = splitn_space 3 input; command = lower (parts ! 0); all_parts = split_words input in
      if command = ''set''
      then (if length parts < 3 then told s [''Error: SET requires a key and value'', ''Usage: SET <key> <value>'']
            else said (\<lambda>_. ''OK'') (kv_set kp (rq_one os) s (parts ! 1) (parts ! 2)))
      else if command = ''get''
      then (if length parts < 2 then told s [''Error: GET requires a key'', ''Usage: GET <key>'']
            else said (\<lambda>v. case v of Some w \<Rightarrow> w | None \<Rightarrow> ''(nil)'') (kv_get s (parts ! 1), s))
      else if command \<in> {''del'', ''delete''}
      then (if length parts < 2 then told s [''Error: DELETE requires a key'', ''Usage: DELETE <key>'']
            else said (\<lambda>found. if found then ''OK (deleted)'' else ''OK (key not found)'') (kv_delete kp (rq_one os) s (parts ! 1)))
      else if command \<in> {''len'', ''size''} then said show_nat (kv_len s, s)
      else if command = ''clear'' then said (\<lambda>_. ''OK (all keys deleted)'') (kv_clear kp (rq_one os) s)
      else if command = ''help'' then told s kv_help
      else if command \<in> {''setasync'', ''set_async''}
      then (if length parts < 3 then told s [''Error: SETASYNC requires a key and value'', ''Usage: SETASYNC <key> <value>'']
            else said (\<lambda>_. ''OK (queued for async write)'') (kv_set_async s (parts ! 1) (parts ! 2)))
      else if command \<in> {''mget'', ''getmany'', ''get_many''}
      then (if length parts < 2 then told s [''Error: MGET requires at least one key'', ''Usage: MGET <key1> <key2> ...'']
            else told s (case kv_get_many s (drop 1 all_parts) of
                Inr [] \<Rightarrow> [''(empty - no keys found)'']
              | Inr results \<Rightarrow> map (\<lambda>(k, v). k @ '': '' @ v) results
              | Inl e \<Rightarrow> [''Error: '' @ error_text e]))
      else if command \<in> {''mset'', ''setmany'', ''set_many''}
      then (if length all_parts < 3 \<or> odd (length all_parts - 1)
            then told s [''Error: MSET requires key-value pairs'', ''Usage: MSET <key1> <value1> <key2> <value2> ...'']
            else said (\<lambda>count. ''OK ('' @ show_nat count @ '' keys set)'') (kv_set_many kp (rq_many os) s (pair_up (drop 1 all_parts))))
      else if command \<in> {''isempty'', ''is_empty'', ''empty''}
      then said (\<lambda>none. if none then ''true (store is empty)''
                        else ''false (store has '' @ show_nat (res_or 0 (kv_len s)) @ '' keys)'') (kv_is_empty s, s)
      else if command = ''snapshot''
      then said (\<lambda>_. ''OK (snapshot created, WAL compacted)'') (kv_take_snapshot kp (rq_many os) (rq_one os) s)
      else if command = ''flush'' then said (\<lambda>_. ''OK (all pending writes flushed)'') (kv_store_flush kp (rq_many os) s)
      else if command = ''walsize'' then said size_text (kv_store_wal_size s, s)
      else if command \<in> {''sql'', ''sqlmode''}
      then told s [''Switching to SQL mode not supported in this session.'', ''Restart with --sql flag to use SQL mode.'']
      else if command \<in> {''exit'', ''quit''}
      then ([''Data saved. Goodbye!''], snd (kv_store_flush kp (rq_many os) s), False)
      else told s [''Unknown command: '' @ quoted command, ''Type '' @ quoted ''help'' @ '' for available commands''])"

fun kv_loop ::
  "kv_platform \<Rightarrow> (string \<Rightarrow> string) \<Rightarrow> (nat \<Rightarrow> request_io) \<Rightarrow> kv_store \<Rightarrow> string list \<Rightarrow> string list \<times> kv_store \<times> bool" where
  "kv_loop kp lower os s [] = ([], s, True)"
| "kv_loop kp lower os s (line # lines) = (case kv_line kp lower (os 0) s line of (out, s1, go_on) \<Rightarrow>
     if go_on then (case kv_loop kp lower (\<lambda>i. os (Suc i)) s1 lines of (out', s2, g) \<Rightarrow> (out @ out', s2, g))
     else (out, s1, False))"

section \<open>A statement over several lines\<close>

text \<open>What the buffer holds after the lines of a statement.\<close>

definition typed :: "string list \<Rightarrow> string" where
  "typed lines = concat (map (\<lambda>l. trim l @ '' '') lines)"

definition incomplete :: "(string \<Rightarrow> string) \<Rightarrow> string list \<Rightarrow> bool" where
  "incomplete upper lines \<longleftrightarrow> (\<forall>n \<in> {1..length lines}. \<not> statement_complete upper (trim (typed (take n lines))))
     \<and> (\<forall>l \<in> set lines. trim l \<noteq> [])"

lemma typed_append [simp]: "typed (ls @ [l]) = typed ls @ trim l @ '' ''"
  by (simp add: typed_def)

lemma incomplete_snoc:
  "incomplete upper (ls @ [l]) \<longleftrightarrow>
     incomplete upper ls \<and> \<not> statement_complete upper (trim (typed ls @ trim l @ '' '')) \<and> trim l \<noteq> []"
proof -
  have "{1..length (ls @ [l])} = insert (length (ls @ [l])) {1..length ls}" by auto
  then show ?thesis by (auto simp: incomplete_def)
qed

lemma sql_loop_snoc:
  "sql_loop pf lower upper os st (ls @ [l]) =
     rbind (sql_loop pf lower upper os st ls) (\<lambda>(out, st1, go_on).
       if go_on then rbind (sql_line pf lower upper (os (length ls)) st1 l) (\<lambda>(out', st2, g). Inr (out @ out', st2, g))
       else Inr (out, st1, False))"
proof (induction ls arbitrary: os st)
  case Nil
  show ?case by (cases "sql_line pf lower upper (os 0) st l") auto
next
  case (Cons x ls)
  show ?case
  proof (cases "sql_line pf lower upper (os 0) st x")
    case (Inr b)
    obtain out st1 g where b: "b = (out, st1, g)" by (cases b)
    show ?thesis
    proof (cases g)
      case True
      then show ?thesis
        by (cases "sql_loop pf lower upper (\<lambda>i. os (Suc i)) st1 ls";
            cases "sql_line pf lower upper (os (Suc (length ls))) (fst (snd (projr (sql_loop pf lower upper (\<lambda>i. os (Suc i)) st1 ls)))) l")
          (auto simp: Inr b Cons)
    qed (simp add: Inr b)
  qed simp
qed

lemma lines_are_kept:
  assumes "ls \<noteq> []" "incomplete upper ls" "\<not> sl_multiline st" "sl_buffer st = []"
    and "sql_command pf (os 0) st (lower (trim (hd ls))) = None"
  shows "sql_loop pf lower upper os st ls = Inr ([], st\<lparr>sl_buffer := typed ls, sl_multiline := True\<rparr>, True)"
  using assms
proof (induction ls rule: rev_induct)
  case (snoc l ls)
  show ?case
  proof (cases "ls = []")
    case True
    with snoc.prems incomplete_snoc [of upper "[]" l] show ?thesis
      by (simp add: sql_line_def Let_def typed_def)
  next
    case False
    with snoc have "sql_loop pf lower upper os st ls = Inr ([], st\<lparr>sl_buffer := typed ls, sl_multiline := True\<rparr>, True)"
      by (simp add: incomplete_snoc)
    with snoc.prems show ?thesis by (simp add: sql_loop_snoc incomplete_snoc sql_line_def Let_def)
  qed
qed simp

text \<open>
  The lines of a statement, typed until it is complete or an empty line follows, are executed
  as one text, and the loop is back where it was.
\<close>

lemma statement_over_lines:
  assumes "ls \<noteq> []" "incomplete upper ls" "\<not> sl_multiline st" "sl_buffer st = []"
    and "sql_command pf (os 0) st (lower (trim (hd ls))) = None"
    and "statement_complete upper (trim (typed (ls @ [l]))) \<or> trim l = []" "trim (typed (ls @ [l])) \<noteq> []"
    and "session_execute pf (os (length ls)) (sl_db st) (sl_session st) (trim (typed (ls @ [l]))) = Inr (r, db, ss)"
    and "execution_result_to_string r = Inr shown"
  shows "sql_loop pf lower upper os st (ls @ [l]) = Inr ([shown], st\<lparr>sl_db := db, sl_session := ss\<rparr>, True)"
proof -
  have st: "st\<lparr>sl_buffer := [], sl_multiline := False\<rparr> = st" using assms(3,4) by (cases st) simp
  have "sql_line pf lower upper (os (length ls)) (st\<lparr>sl_buffer := typed ls, sl_multiline := True\<rparr>) l =
      Inr ([shown], st\<lparr>sl_buffer := [], sl_multiline := False, sl_db := db, sl_session := ss\<rparr>, True)"
    using assms(6-9) by (auto simp: sql_line_def Let_def)
  with lines_are_kept [where os = os and lower = lower and pf = pf, OF assms(1-5)] show ?thesis
    by (simp add: sql_loop_snoc st)
qed

section \<open>The end of the input\<close>

text \<open>
  At the end of the input \<open>read_line\<close> gives nothing, again and again. The key-value loop never
  ends then, and the SQL loop does not either: it runs what is in its buffer and goes on.
\<close>

lemma kv_loop_at_end: "kv_loop kp lower os s (replicate n []) = ([], s, True)"
  by (induction n arbitrary: os) (simp_all add: kv_line_def trim_def trim_start_def trim_end_def)

lemma sql_line_at_end: "\<not> sl_multiline st \<Longrightarrow> sql_line pf lower upper os st [] = Inr ([], st, True)"
  by (simp add: sql_line_def trim_def trim_start_def trim_end_def)

lemma sql_loop_at_end:
  "\<not> sl_multiline st \<Longrightarrow> sql_loop pf lower upper os st (replicate n []) = Inr ([], st, True)"
  by (induction n arbitrary: os) (simp_all add: sql_line_at_end)

section \<open>Key and value on a line\<close>

lemma splitn_space_first: "CHR '' '' \<notin> set a \<Longrightarrow> splitn_space (Suc (Suc n)) (a @ CHR '' '' # b) = a # splitn_space (Suc n) b"
  using split_once_iff [of "CHR '' ''" "a @ CHR '' '' # b" a b] by simp

lemma trimmed_line: "core \<noteq> [] \<Longrightarrow> \<not> is_white (hd core) \<Longrightarrow> \<not> is_white (last core) \<Longrightarrow> trim (core @ [newline]) = core"
  using trim_core [of "[]" "[newline]" core] by (simp add: blank_def is_white_def newline_def)

text \<open>
  \<open>SET\<close> takes what stands between its first and its second space for the key. Behind two
  spaces that is the empty key.
\<close>

lemma set_line:
  assumes "lower ''SET'' = ''set''" "CHR '' '' \<notin> set k" "v \<noteq> []" "\<not> is_white (last v)"
  shows "kv_line kp lower os s (''SET '' @ k @ '' '' @ v @ [newline]) = said (\<lambda>_. ''OK'') (kv_set kp (rq_one os) s k v)"
proof -
  have "trim (''SET '' @ k @ '' '' @ v @ [newline]) = ''SET '' @ k @ '' '' @ v"
    using trimmed_line [of "''SET '' @ k @ '' '' @ v"] assms(3,4) by (simp add: is_white_def)
  moreover have "splitn_space 3 (''SET '' @ k @ '' '' @ v) = [''SET'', k, v]"
    using splitn_space_first [of "''SET''" 1 "k @ '' '' @ v"] splitn_space_first [OF assms(2), of 0 v]
    by (simp add: numeral_3_eq_3)
  ultimately show ?thesis using assms(1) by (simp add: kv_line_def Let_def)
qed

lemma set_line_two_spaces:
  assumes "lower ''SET'' = ''set''" "v \<noteq> []" "\<not> is_white (last v)"
  shows "kv_line kp lower os s (''SET  '' @ v @ [newline]) = said (\<lambda>_. ''OK'') (kv_set kp (rq_one os) s [] v)"
  using set_line [of lower "[]", OF assms(1) _ assms(2,3)] by simp

lemma get_line:
  assumes "lower ''GET'' = ''get''" "CHR '' '' \<notin> set k" "k \<noteq> []" "\<not> is_white (last k)"
  shows "kv_line kp lower os s (''GET '' @ k @ [newline]) =
     said (\<lambda>v. case v of Some w \<Rightarrow> w | None \<Rightarrow> ''(nil)'') (kv_get s k, s)"
proof -
  have "trim (''GET '' @ k @ [newline]) = ''GET '' @ k"
    using trimmed_line [of "''GET '' @ k"] assms(3,4) by (simp add: is_white_def)
  moreover have "splitn_space 3 (''GET '' @ k) = [''GET'', k]"
    using splitn_space_first [of "''GET''" 1 k] assms(2) by (simp add: numeral_3_eq_3 Config.split_once_def)
  ultimately show ?thesis using assms(1) by (simp add: kv_line_def Let_def)
qed

lemma set_then_get_lines:
  assumes "lower ''SET'' = ''set''" "lower ''GET'' = ''get''" "CHR '' '' \<notin> set k" "k \<noteq> []" "\<not> is_white (last k)"
    and "v \<noteq> []" "\<not> is_white (last v)" "kv_set kp (rq_one (os 0)) s k v = (Inr (), s')"
  shows "kv_loop kp lower os s [''SET '' @ k @ '' '' @ v @ [newline], ''GET '' @ k @ [newline]] = ([''OK'', v], s', True)"
proof -
  have "map_of (ks_data s') k = Some v"
    using assms(8) by (auto simp: kv_set_def kv_write_def kv_apply_def update_conv split: prod.splits sum.splits)
  then show ?thesis
    using set_line [of lower, OF assms(1,3,6,7)] get_line [of lower, OF assms(2-5)] assms(8) by (simp add: said_def kv_get_def)
qed

end
