(* ===== verification/F64_Exact.thy ===== *)
theory F64_Exact
  imports F64 Complex_Main
begin

text \<open>
  What the executable doubles of \<open>F64\<close> mean as real numbers. Rounding a fraction that is the
  value of a finite double gives that double, so no operation changes a result that a double
  holds exactly: every finite double is the rounding of its own value, integers below
  \<open>2 ^ 53\<close> are converted and read back unchanged, and their sums stay exact in that range.
\<close>

section \<open>Fractions and powers of two\<close>

definition frac_val :: "nat \<times> nat \<Rightarrow> real" where
  "frac_val q = real (fst q) / real (snd q)"

definition mag_val :: "nat \<Rightarrow> real" where
  "mag_val m = real (mag_mant m) * 2 powi mag_exp m"

lemma scale2_val:
  assumes "0 < snd q"
  shows "frac_val (scale2 e q) = frac_val q * 2 powi e" "0 < snd (scale2 e q)"
  using assms by (auto simp: frac_val_def scale2_def power_int_def field_simps)

lemma log2_floor_bounds: "0 < n \<Longrightarrow> 2 ^ log2_floor n \<le> n \<and> n < 2 ^ Suc (log2_floor n)"
proof (induction n rule: log2_floor.induct)
  case (1 n)
  show ?case
  proof (cases "n < 2")
    case True
    with 1(2) have "n = 1" by simp
    then show ?thesis by (simp add: log2_floor.simps)
  next
    case False
    then have "2 ^ log2_floor (n div 2) \<le> n div 2 \<and> n div 2 < 2 ^ Suc (log2_floor (n div 2))"
      using 1 by simp
    with False show ?thesis by (simp add: log2_floor.simps [of n]) linarith
  qed
qed

lemma log2_floor_real:
  assumes "0 < n" shows "2 ^ log2_floor n \<le> real n" "real n < 2 ^ Suc (log2_floor n)"
proof -
  have "real (2 ^ log2_floor n) \<le> real n" "real n < real (2 ^ Suc (log2_floor n))"
    using log2_floor_bounds [OF assms] by (simp_all only: of_nat_le_iff of_nat_less_iff)
  then show "2 ^ log2_floor n \<le> real n" "real n < 2 ^ Suc (log2_floor n)" by simp_all
qed

lemma frac_log2_bounds:
  assumes "0 < n" "0 < d"
  shows "2 powi frac_log2 n d \<le> real n / real d" "real n / real d < 2 powi (frac_log2 n d + 1)"
proof -
  define k where "k = int (log2_floor n) - int (log2_floor d)"
  note n = log2_floor_real [OF assms(1)] and d = log2_floor_real [OF assms(2)]
  have k: "(2 :: real) powi k = 2 ^ log2_floor n / 2 ^ log2_floor d"
    by (simp add: k_def power_int_diff)
  have upper: "real n / real d < 2 powi (k + 1)"
  proof -
    have "real n / real d < 2 ^ Suc (log2_floor n) / 2 ^ log2_floor d"
      using n d assms by (intro frac_less) auto
    then show ?thesis by (simp add: power_int_add k mult.commute)
  qed
  have lower: "2 powi (k - 1) \<le> real n / real d"
  proof -
    have "2 ^ log2_floor n / 2 ^ Suc (log2_floor d) \<le> real n / real d"
      using n d assms by (intro frac_le) auto
    then show ?thesis by (simp add: power_int_diff k)
  qed
  have test: "snd (scale2 (- k) (n, d)) \<le> fst (scale2 (- k) (n, d)) \<longleftrightarrow> 2 powi k \<le> real n / real d"
  proof -
    let ?q = "scale2 (- k) (n, d)"
    have "frac_val ?q = real n / real d * 2 powi (- k)" "0 < snd ?q"
      using scale2_val [of "(n, d)" "- k"] assms by (simp_all add: frac_val_def)
    moreover from this(2) have "snd ?q \<le> fst ?q \<longleftrightarrow> 1 \<le> frac_val ?q" by (simp add: frac_val_def)
    ultimately have "snd ?q \<le> fst ?q \<longleftrightarrow> 1 \<le> real n / real d * 2 powi (- k)" by simp
    also have "\<dots> \<longleftrightarrow> 2 powi k \<le> real n / real d"
      using assms(2) zero_less_power_int [of "2 :: real" k] by (simp add: power_int_minus field_simps)
    finally show ?thesis .
  qed
  show "2 powi frac_log2 n d \<le> real n / real d" "real n / real d < 2 powi (frac_log2 n d + 1)"
    using lower upper test by (auto simp: frac_log2_def Let_def simp flip: k_def)
qed

lemma powi_bounds_unique:
  fixes v :: real
  assumes "2 powi s \<le> v" "v < 2 powi (s + 1)" "2 powi t \<le> v" "v < 2 powi (t + 1)"
  shows "s = t"
proof -
  have "(2 :: real) powi s < 2 powi (t + 1)" "(2 :: real) powi t < 2 powi (s + 1)" using assms by linarith+
  then have "\<not> t + 1 \<le> s" "\<not> s + 1 \<le> t"
    using power_int_increasing [of "t + 1" s "2 :: real"] power_int_increasing [of "s + 1" t "2 :: real"] by auto
  then show ?thesis by simp
qed

section \<open>Rounding a value that a double has\<close>

lemma div_rne_exact: "0 < d \<Longrightarrow> div_rne (c * d) d = c"
  by (simp add: div_rne_def)

lemma div_rne_val:
  assumes "0 < snd q" "frac_val q = real c"
  shows "div_rne (fst q) (snd q) = c"
proof -
  have "real (fst q) = real (c * snd q)" using assms by (simp add: frac_val_def field_simps)
  then have "fst q = c * snd q" by (simp only: of_nat_eq_iff)
  then show ?thesis using div_rne_exact [OF assms(1), of c] by simp
qed

lemma mag_mant_normal: "2 ^ 52 \<le> m \<Longrightarrow> 2 ^ 52 \<le> mag_mant m \<and> mag_mant m < 2 ^ 53"
  using mod_less_divisor [of "2 ^ 52" m] by (simp add: mag_mant_def)

text \<open>The exponent that \<open>round_mag\<close> scales by is that of the double.\<close>

lemma rounding_exponent:
  assumes "0 < n" "0 < d" "real n / real d = mag_val m"
  shows "max (frac_log2 n d - 52) (- 1074) = mag_exp m"
proof (cases "m < 2 ^ 52")
  case True
  have "real (mag_mant m) < real (2 ^ 52)" unfolding of_nat_less_iff using True by (simp add: mag_mant_def)
  then have "mag_val m < 2 powi 52 * 2 powi (- 1074)" using True by (simp add: mag_val_def mag_exp_def)
  also have "\<dots> = 2 powi (- 1022)" by (simp flip: power_int_add)
  finally have "2 powi frac_log2 n d < (2 :: real) powi (- 1022)"
    using frac_log2_bounds(1) [OF assms(1,2)] assms(3) by linarith
  then have "\<not> - 1022 \<le> frac_log2 n d" using power_int_increasing [of "- 1022" "frac_log2 n d" "2 :: real"] by auto
  with True show ?thesis by (simp add: mag_exp_def)
next
  case False
  then have "real (2 ^ 52) \<le> real (mag_mant m)" "real (mag_mant m) < real (2 ^ 53)"
    unfolding of_nat_le_iff of_nat_less_iff using mag_mant_normal [of m] by simp_all
  then have "2 powi 52 * 2 powi mag_exp m \<le> mag_val m" "mag_val m < 2 powi 53 * 2 powi mag_exp m"
    by (simp_all add: mag_val_def)
  then have "2 powi (mag_exp m + 52) \<le> mag_val m" "mag_val m < 2 powi (mag_exp m + 52 + 1)"
    by (simp_all add: power_int_add mult.commute)
  then have "frac_log2 n d = mag_exp m + 52"
    using powi_bounds_unique frac_log2_bounds [OF assms(1,2)] assms(3) by metis
  moreover have "1 \<le> m div 2 ^ 52" using False by (simp add: div_greater_zero_iff Suc_le_eq)
  ultimately show ?thesis using False by (simp add: mag_exp_def)
qed

lemma round_mag_exact:
  assumes "m < f64_inf_mag" "0 < d" "real n / real d = mag_val m"
  shows "round_mag n d = m"
proof (cases "n = 0")
  case True
  then have "mag_mant m = 0" using assms(3) by (simp add: mag_val_def)
  then have "m = 0" by (simp add: mag_mant_def split: if_splits)
  with True show ?thesis by (simp add: round_mag_def)
next
  case False
  let ?q = "scale2 (- mag_exp m) (n, d)"
  have "frac_val ?q = real (mag_mant m)"
    using scale2_val(1) [of "(n, d)" "- mag_exp m"] assms(2,3)
    by (simp add: frac_val_def mag_val_def power_int_minus field_simps)
  then have mant: "div_rne (fst ?q) (snd ?q) = mag_mant m"
    using div_rne_val scale2_val(2) [of "(n, d)"] assms(2) by simp
  have whole: "nat (mag_exp m + 1074) * 2 ^ 52 + mag_mant m = m"
  proof (cases "m < 2 ^ 52")
    case False
    then obtain k where k: "m div 2 ^ 52 = Suc k" by (cases "m div 2 ^ 52") (simp_all add: div_eq_0_iff)
    have "m = Suc k * 2 ^ 52 + m mod 2 ^ 52" using div_mult_mod_eq [of m "2 ^ 52"] unfolding k by simp
    with k False show ?thesis by (simp add: mag_exp_def mag_mant_def)
  qed (simp add: mag_exp_def mag_mant_def)
  with assms(1) mant rounding_exponent [OF _ assms(2,3)] False show ?thesis
    by (simp add: round_mag_def Let_def)
qed

section \<open>The value of a double\<close>

definition f64_val :: "f64 \<Rightarrow> real" where
  "f64_val x = (if f64_sign x then - 1 else 1) * mag_val (f64_mag x)"

lemma mag_frac_val: "frac_val (mag_frac m) = mag_val m" "0 < snd (mag_frac m)"
  using scale2_val [of "(mag_mant m, 1)" "mag_exp m"] by (simp_all add: mag_frac_def mag_val_def frac_val_def)

lemma f64_den_pos: "0 < f64_den x"
  using mag_frac_val(2) [of "f64_mag x"] by (simp add: f64_den_def)

lemma f64_num_den: "real_of_int (f64_num x) / real_of_int (f64_den x) = f64_val x"
  using mag_frac_val(1) [of "f64_mag x"] by (simp add: f64_num_def f64_den_def f64_val_def frac_val_def)

lemma mag_val_zero_iff: "mag_val m = 0 \<longleftrightarrow> m = 0"
  by (auto simp: mag_val_def mag_mant_def)

lemma mag_val_nonneg: "0 \<le> mag_val m"
  by (simp add: mag_val_def)

text \<open>A fraction with the value of a finite double is rounded to it; zero takes the sign asked for.\<close>

lemma f64_of_frac_exact:
  assumes "f64_is_finite x" "0 < d" "real_of_int n / real_of_int d = f64_val x"
    and "f64_is_zero x \<Longrightarrow> s = f64_sign x"
  shows "f64_of_frac s n d = x"
proof (cases "n = 0")
  case True
  then have "f64_mag x = 0" using assms(3) by (auto simp: f64_val_def mag_val_zero_iff split: if_splits)
  then show ?thesis using True assms(4) f64_make_sign_mag [of x] by (simp add: f64_of_frac_def f64_is_zero_def)
next
  case False
  have abs: "real (nat \<bar>n\<bar>) / real (nat d) = mag_val (f64_mag x)"
  proof -
    have "real (nat \<bar>n\<bar>) / real (nat d) = \<bar>real_of_int n / real_of_int d\<bar>" using assms(2) by simp
    also have "\<dots> = mag_val (f64_mag x)" using mag_val_nonneg by (simp add: assms(3) f64_val_def)
    finally show ?thesis .
  qed
  have "0 < mag_val (f64_mag x)" using False assms(2) mag_val_nonneg [of "f64_mag x"] by (simp flip: abs)
  note pos = this
  have "n < 0 \<longleftrightarrow> real_of_int n / real_of_int d < 0" using assms(2) by (simp add: divide_less_0_iff)
  also have "\<dots> \<longleftrightarrow> f64_sign x"
    using pos by (simp add: assms(3) f64_val_def)
  finally show ?thesis
    using False round_mag_exact [OF _ _ abs] assms(1,2) by (simp add: f64_of_frac_def f64_round_def f64_is_finite_def)
qed

text \<open>Every finite double is the rounding of its own value.\<close>

lemma f64_round_trip: "f64_is_finite x \<Longrightarrow> f64_of_frac (f64_sign x) (f64_num x) (f64_den x) = x"
  by (rule f64_of_frac_exact) (simp_all add: f64_den_pos f64_num_den)

section \<open>Integers\<close>

text \<open>The double of a natural number below \<open>2 ^ 53\<close>.\<close>

lemma small_nat_mag:
  assumes "k < 2 ^ 53"
  obtains m where "m < f64_inf_mag" "mag_val m = real k"
proof (cases "k = 0")
  case True
  show ?thesis by (rule that [of 0]) (simp_all add: True f64_inf_mag_def mag_val_zero_iff)
next
  case False
  define l where "l = log2_floor k"
  have l: "2 ^ l \<le> k" "k < 2 ^ Suc l" using log2_floor_bounds [of k] False by (simp_all add: l_def)
  have l52: "l \<le> 52"
  proof (rule ccontr)
    assume "\<not> l \<le> 52"
    then have "(2 :: nat) ^ 53 \<le> 2 ^ l" by (intro power_increasing) simp_all
    with l assms show False by simp
  qed
  define c where "c = k * 2 ^ (52 - l)"
  have pw: "2 ^ l * 2 ^ (52 - l) = (2 :: nat) ^ 52" using l52 by (simp flip: power_add)
  have "2 ^ l * 2 ^ (52 - l) \<le> c" "c < 2 * 2 ^ l * 2 ^ (52 - l)" using l by (simp_all add: c_def)
  then have c: "2 ^ 52 \<le> c" "c < 2 ^ 53" unfolding mult.assoc pw by simp_all
  define m where "m = (l + 1022) * 2 ^ 52 + c"
  have split: "m = (l + 1023) * 2 ^ 52 + (c - 2 ^ 52)" using c by (simp add: m_def algebra_simps)
  have quotient: "(a * b + r) div b = a" "(a * b + r) mod b = r" if "r < b" for a b r :: nat using that by simp_all
  have div: "m div 2 ^ 52 = l + 1023" "m mod 2 ^ 52 = c - 2 ^ 52"
    unfolding split by (rule quotient; use c in simp)+
  have big: "\<not> m < 2 ^ 52" using c by (simp add: m_def)
  have "mag_mant m = c" "mag_exp m = int l - 52"
    unfolding mag_mant_def mag_exp_def using big div c by (simp_all del: power_numeral)
  moreover have "real c * 2 powi (int l - 52) = real k"
  proof -
    have "real c = real k * 2 powi (52 - int l)"
      using l52 by (simp add: c_def power_int_def nat_diff_distrib)
    then show ?thesis by (simp add: mult.assoc flip: power_int_add)
  qed
  moreover have "m < f64_inf_mag" using c l52 by (simp add: m_def f64_inf_mag_def)
  ultimately show ?thesis by (intro that [of m]) (simp_all add: mag_val_def)
qed

lemma small_int_f64:
  assumes "\<bar>i\<bar> < 2 ^ 53"
  shows "f64_is_finite (f64_of_int i)" "f64_val (f64_of_int i) = real_of_int i"
proof -
  have "nat \<bar>i\<bar> < 2 ^ 53" using assms by simp
  then obtain m where m: "m < f64_inf_mag" "mag_val m = real (nat \<bar>i\<bar>)" by (rule small_nat_mag)
  define x where "x = f64_make (i < 0) m"
  have x: "f64_sign x = (i < 0)" "f64_mag x = m" using m(1) by (simp_all add: x_def f64_inf_mag_def)
  have fin: "f64_is_finite x" and val: "f64_val x = real_of_int i" using m x by (simp_all add: f64_is_finite_def f64_val_def)
  have "f64_is_zero x \<Longrightarrow> i = 0" using m x mag_val_zero_iff [of 0] by (auto simp: f64_is_zero_def)
  then have "f64_of_int i = x"
    unfolding f64_of_int_def by (intro f64_of_frac_exact [OF fin]) (auto simp: val x)
  with fin val show "f64_is_finite (f64_of_int i)" "f64_val (f64_of_int i) = real_of_int i" by simp_all
qed

text \<open>The integer is what the double is truncated to.\<close>

lemma f64_trunc_val:
  assumes "f64_val x = real_of_int i" shows "f64_trunc_int x = i"
proof -
  have "real_of_int (f64_num x) = real_of_int (i * f64_den x)"
    using f64_num_den [of x] f64_den_pos [of x] assms by (simp add: field_simps)
  then have "f64_num x = i * f64_den x" by (simp only: of_int_eq_iff)
  then show ?thesis using f64_den_pos [of x] by (simp add: f64_trunc_int_def abs_mult sgn_mult sgn_mult_abs)
qed

lemma integer_survives:
  assumes "\<bar>sint i\<bar> < 2 ^ 53" shows "f64_to_i64 (f64_of_int (sint i)) = i"
proof -
  note small = small_int_f64 [OF assms]
  have "\<not> f64_is_nan (f64_of_int (sint i))" "\<not> f64_is_inf (f64_of_int (sint i))"
    using small(1) by (auto simp: f64_is_finite_def f64_is_nan_def f64_is_inf_def)
  moreover have "max (- (2 ^ 63)) (min (2 ^ 63 - 1) (sint i)) = sint i" using assms by simp
  ultimately show ?thesis using f64_trunc_val [OF small(2)] by (simp add: f64_to_i64_def)
qed

text \<open>Doubles of integers add exactly while the sum stays below \<open>2 ^ 53\<close>.\<close>

lemma f64_of_int_add:
  assumes "\<bar>i\<bar> < 2 ^ 53" "\<bar>j\<bar> < 2 ^ 53" "\<bar>i + j\<bar> < 2 ^ 53"
  shows "f64_add (f64_of_int i) (f64_of_int j) = f64_of_int (i + j)"
proof -
  let ?x = "f64_of_int i" and ?y = "f64_of_int j"
  note x = small_int_f64 [OF assms(1)] and y = small_int_f64 [OF assms(2)] and z = small_int_f64 [OF assms(3)]
  have plain: "\<not> f64_is_nan (f64_of_int k)" "\<not> f64_is_inf (f64_of_int k)" if "\<bar>k\<bar> < 2 ^ 53" for k
    using small_int_f64(1) [OF that] by (auto simp: f64_is_finite_def f64_is_nan_def f64_is_inf_def)
  have zero: "f64_sign (f64_of_int 0) = False" by (simp add: f64_of_int_def f64_of_frac_def)
  have "real_of_int (f64_num ?x * f64_den ?y + f64_num ?y * f64_den ?x) / real_of_int (f64_den ?x * f64_den ?y) =
      f64_val ?x + f64_val ?y"
    using f64_den_pos [of ?x] f64_den_pos [of ?y] by (simp add: field_simps flip: f64_num_den)
  also have "\<dots> = f64_val (f64_of_int (i + j))" by (simp add: x y z)
  finally have sum: "real_of_int (f64_num ?x * f64_den ?y + f64_num ?y * f64_den ?x) /
      real_of_int (f64_den ?x * f64_den ?y) = f64_val (f64_of_int (i + j))" .
  have no_sign: "\<not> (f64_is_zero ?x \<and> f64_sign ?x)"
  proof
    assume "f64_is_zero ?x \<and> f64_sign ?x"
    then have "f64_val ?x = 0" by (simp add: f64_val_def f64_is_zero_def mag_val_zero_iff)
    then have "i = 0" by (simp add: x)
    with \<open>f64_is_zero ?x \<and> f64_sign ?x\<close> zero show False by simp
  qed
  have "f64_is_zero (f64_of_int (i + j)) \<Longrightarrow> \<not> f64_sign (f64_of_int (i + j))"
  proof -
    assume "f64_is_zero (f64_of_int (i + j))"
    then have "f64_val (f64_of_int (i + j)) = 0" by (simp add: f64_val_def f64_is_zero_def mag_val_zero_iff)
    then have "i + j = 0" by (simp add: z)
    then show ?thesis using zero by simp
  qed
  with no_sign have "f64_of_frac (f64_is_zero ?x \<and> f64_sign ?x \<and> f64_is_zero ?y \<and> f64_sign ?y)
      (f64_num ?x * f64_den ?y + f64_num ?y * f64_den ?x) (f64_den ?x * f64_den ?y) = f64_of_int (i + j)"
    by (intro f64_of_frac_exact [OF z(1) _ sum]) (auto simp: f64_den_pos)
  with plain assms show ?thesis by (simp add: f64_add_def)
qed

end
