(* ===== verification/Aggregates.thy ===== *)
theory Aggregates
  imports ExprEval F64_Exact
begin

text \<open>
  What \<open>SUM\<close> and \<open>COUNT\<close> of \<^verbatim>\<open>src/src/sql/executor.rs\<close> return. \<open>SUM\<close> adds integers as doubles,
  which is exact as long as the absolute values together stay below \<open>2 ^ 53\<close>, and not beyond.
\<close>

lemma sum_steps:
  assumes "\<bar>a\<bar> + sum_list (map (\<lambda>i. \<bar>sint i\<bar>) is) < 2 ^ 53"
  shows "res_fold sum_step (f64_of_int a, True) (map VInteger is) =
     Inr (f64_of_int (a + sum_list (map sint is)), True)"
  using assms
proof (induction "is" arbitrary: a)
  case (Cons i rest)
  have rest: "0 \<le> sum_list (map (\<lambda>i. \<bar>sint i\<bar>) rest)" by (rule sum_list_nonneg) auto
  have "\<bar>a\<bar> < 2 ^ 53" "\<bar>sint i\<bar> < 2 ^ 53" "\<bar>a + sint i\<bar> < 2 ^ 53"
    and next_sum: "\<bar>a + sint i\<bar> + sum_list (map (\<lambda>i. \<bar>sint i\<bar>) rest) < 2 ^ 53"
    using Cons.prems rest by auto
  then have "sum_step (f64_of_int a, True) (VInteger i) = Inr (f64_of_int (a + sint i), True)"
    by (simp add: sum_step_def f64_of_i64_def f64_of_int_add)
  with Cons.IH [OF next_sum] show ?case by (simp add: add.assoc)
qed simp

lemma sum_of_integers_exact:
  assumes "filter (\<lambda>v. \<not> is_null v) vs = map VInteger is" "is \<noteq> []"
    and "sum_list (map (\<lambda>i. \<bar>sint i\<bar>) is) < 2 ^ 53"
  shows "aggregate_values AggSum False vs = Inr (VInteger (of_int (sum_list (map sint is))))"
proof -
  let ?sum = "sum_list (map sint is)"
  have zero: "f64_zero = f64_of_int 0" by (simp add: f64_zero_def f64_of_int_def f64_of_frac_def f64_make_def)
  have small: "\<bar>?sum\<bar> < 2 ^ 53" using sum_list_abs [of "map sint is"] assms(3) by (simp add: comp_def)
  then have "- (2 ^ 63) \<le> ?sum" "?sum < 2 ^ 63" by simp_all
  then have "sint (of_int ?sum :: i64) = ?sum" by (simp add: signed_of_int signed_take_bit_int_eq_self)
  with small have "f64_to_i64 (f64_of_int ?sum) = of_int ?sum" using integer_survives [of "of_int ?sum"] by simp
  then show ?thesis
    using sum_steps [of 0 "is"] assms by (simp add: aggregate_values_def Let_def zero)
qed

text \<open>\<open>2 ^ 53 + 1\<close> is no double: the one is lost.\<close>

lemma frac_log2_eq:
  assumes "0 < n" "0 < d" "2 powi t \<le> real n / real d" "real n / real d < 2 powi (t + 1)"
  shows "frac_log2 n d = t"
  using powi_bounds_unique [OF frac_log2_bounds [OF assms(1,2)] assms(3,4)] .

lemma big_doubles:
  "f64_of_int (2 ^ 53) = f64_make False (1076 * 2 ^ 52)" "f64_of_int 1 = f64_make False (1023 * 2 ^ 52)"
  "f64_of_frac False (2 ^ 52 * (2 ^ 53 + 1)) (2 ^ 52) = f64_make False (1076 * 2 ^ 52)"
proof -
  have logs: "frac_log2 (2 ^ 53) 1 = 53" "frac_log2 1 1 = 0" "frac_log2 (2 ^ 52 * (2 ^ 53 + 1)) (2 ^ 52) = 53"
    by (rule frac_log2_eq; simp)+
  show "f64_of_int (2 ^ 53) = f64_make False (1076 * 2 ^ 52)" "f64_of_int 1 = f64_make False (1023 * 2 ^ 52)"
    "f64_of_frac False (2 ^ 52 * (2 ^ 53 + 1)) (2 ^ 52) = f64_make False (1076 * 2 ^ 52)"
    using logs by (simp_all add: f64_of_int_def f64_of_frac_def f64_round_def round_mag_def Let_def scale2_def div_rne_def f64_inf_mag_def)
qed

lemma f64_add_zero:
  assumes "f64_is_finite x" "\<not> f64_is_zero x"
  shows "f64_add f64_zero x = x"
proof -
  have zero: "f64_mag f64_zero = 0" "\<not> f64_sign f64_zero" by (simp_all add: f64_zero_def f64_mag_def f64_sign_def)
  then have num: "f64_num f64_zero = 0" using f64_num_den [of f64_zero] f64_den_pos [of f64_zero]
    by (simp add: f64_val_def mag_val_def mag_mant_def)
  have "f64_of_frac False (f64_num x * f64_den f64_zero) (f64_den f64_zero * f64_den x) = x"
    using f64_den_pos [of x] f64_den_pos [of f64_zero] assms
    by (intro f64_of_frac_exact) (simp_all flip: f64_num_den)
  then show ?thesis
    using assms zero by (simp add: f64_add_def num f64_is_finite_def f64_is_nan_def f64_is_inf_def f64_inf_mag_def)
qed

lemma sum_of_integers_inexact:
  "aggregate_values AggSum False [VInteger (2 ^ 53), VInteger 1] = Inr (VInteger (2 ^ 53))"
proof -
  define big one where "big = f64_make False (1076 * 2 ^ 52)" and "one = f64_make False (1023 * 2 ^ 52)"
  have mags: "f64_mag big = 1076 * 2 ^ 52" "f64_mag one = 1023 * 2 ^ 52" "\<not> f64_sign big" "\<not> f64_sign one"
    by (simp_all add: big_def one_def)
  have parts: "f64_num big = 2 ^ 53" "f64_den big = 1" "f64_num one = 2 ^ 52" "f64_den one = 2 ^ 52"
    by (simp_all add: f64_num_def f64_den_def mags mag_frac_def mag_mant_def mag_exp_def scale2_def)
  have kinds: "f64_is_finite big" "\<not> f64_is_zero big" "\<not> f64_is_nan big" "\<not> f64_is_inf big" "\<not> f64_is_nan one" "\<not> f64_is_inf one"
    by (simp_all add: mags f64_is_finite_def f64_is_zero_def f64_is_nan_def f64_is_inf_def f64_inf_mag_def)
  have "f64_add big one = f64_of_frac False (2 ^ 52 * (2 ^ 53 + 1)) (2 ^ 52)"
    using kinds mags by (simp add: f64_add_def parts)
  then have add: "f64_add big one = big" by (simp only: big_doubles(3) big_def)
  have convert: "f64_of_i64 (2 ^ 53) = big" "f64_of_i64 1 = one"
    using big_doubles(1,2) by (simp_all add: f64_of_i64_def big_def one_def)
  have "f64_to_i64 big = 2 ^ 53" using kinds by (simp add: f64_to_i64_def f64_trunc_int_def parts)
  then show ?thesis
    by (simp add: aggregate_values_def sum_step_def convert add f64_add_zero [OF kinds(1,2)] del: power_numeral)
qed

end
