(* ===== verification/Embedded.thy ===== *)
theory Embedded
  imports Reach Display
begin

text \<open>
  The small operations of the library interface: configurations, constructors and accessors of
  \<^verbatim>\<open>src/src/sql/database.rs\<close> (lines 38 to 66, 245 to 267, 300 to 302, 632 to 671, 680 to 684, 703 to 712 and
  1047 to 1062), of the executor's handle in \<^verbatim>\<open>src/src/sql/executor.rs\<close> (lines 561 to 566 and 671 to 717) and of
  rows and results in \<^verbatim>\<open>src/src/sql/types.rs\<close> (lines 592 to 629). The lemmas relate them to the operations
  the development is about: what a session's state says, and that the version a program reads
  never goes back.
\<close>

section \<open>Configurations\<close>

record sql_config =
  cfg_data_dir :: string
  cfg_auto_save :: bool
  cfg_options :: sql_options

definition sql_config_new :: "string \<Rightarrow> sql_config" where
  "sql_config_new data_dir = \<lparr>cfg_data_dir = data_dir, cfg_auto_save = True, cfg_options = options_default\<rparr>"

definition sql_config_memory_only :: sql_config where
  "sql_config_memory_only = \<lparr>cfg_data_dir = [], cfg_auto_save = False, cfg_options = options_default\<rparr>"

definition sql_config_with_options :: "sql_config \<Rightarrow> sql_options \<Rightarrow> sql_config" where
  "sql_config_with_options config opts = config\<lparr>cfg_options := opts\<rparr>"

section \<open>Databases\<close>

definition database_new :: database where
  "database_new = database_with_options options_default"

definition database_open ::
  "platform \<Rightarrow> open_io \<Rightarrow> string \<Rightarrow> string set \<Rightarrow> string \<Rightarrow> disk \<Rightarrow> (database \<times> string set) res" where
  "database_open pf os err held data_dir d = open_with_options pf os err held data_dir d options_default"

definition checkpoint :: "platform \<Rightarrow> io \<Rightarrow> database \<Rightarrow> unit res \<times> database" where
  "checkpoint pf os db = save pf os db"

definition current_version :: "database \<Rightarrow> nat" where
  "current_version db = cat_version (db_catalog db)"

text \<open>The flags of a database are those of its configuration.\<close>

lemma memory_config:
  "db_auto_save (database_with_options opts) = cfg_auto_save (sql_config_with_options sql_config_memory_only opts)"
  "db_options (database_with_options opts) = cfg_options (sql_config_with_options sql_config_memory_only opts)"
  by (simp_all add: database_with_options_def sql_config_with_options_def sql_config_memory_only_def)

lemma opened_config:
  "open_files pf d opts = Inr db \<Longrightarrow>
   db_auto_save db = cfg_auto_save (sql_config_with_options (sql_config_new dir) opts) \<and>
   db_options db = cfg_options (sql_config_with_options (sql_config_new dir) opts)"
  by (auto simp: open_files_def rbind_Inr_iff sql_config_with_options_def sql_config_new_def)

section \<open>Handles of the executor\<close>

definition executor_new :: catalog where
  "executor_new = catalog_default"

definition with_tables :: "(f64 \<Rightarrow> f64) \<Rightarrow> (string, table) hmap \<Rightarrow> catalog" where
  "with_tables ln tables = catalog_from_tables ln tables"

definition owned_tables :: "catalog \<Rightarrow> (string, table) hmap" where
  "owned_tables cat = map (\<lambda>(name, t). (name, t)) (cat_tables cat)"

lemma owned_tables_all: "owned_tables cat = cat_tables cat"
  by (simp add: owned_tables_def)

section \<open>Sessions\<close>

datatype session_state = Autocommit | Active

definition session_state_of :: "session \<Rightarrow> session_state" where
  "session_state_of ss = (if ss_transaction ss \<noteq> None then Active else Autocommit)"

lemma state_after_begin:
  "session_begin db ss = (r, db', ss') \<Longrightarrow> session_state_of ss' = Active \<and> (r = TransactionStarted \<longleftrightarrow> session_state_of ss = Autocommit)"
  by (auto simp: session_begin_def session_state_of_def split: option.splits)

lemma state_after_rollback: "session_rollback db ss = (r, db', ss') \<Longrightarrow> session_state_of ss' = Autocommit"
  by (auto simp: session_rollback_def session_state_of_def)

text \<open>A commit leaves the transaction open only when its record could not be logged.\<close>

lemma state_after_commit:
  assumes "session_commit pf os db ss = (r, db', ss')"
  shows "session_state_of ss' = Active \<longleftrightarrow> (\<exists>tx e db1. ss_transaction ss = Some tx \<and>
     cat_version (db_catalog db) = tx_base_version tx \<and> tx_statements tx \<noteq> [] \<and>
     log_transaction pf os db (tx_base_version tx)
       (cat_version (published pf db (tx_catalog tx) (tx_schema_changed tx))) (tx_statements tx) = (Inl e, db1))"
proof (cases "ss_transaction ss")
  case None
  with assms show ?thesis by (auto simp: session_commit_def session_state_of_def)
next
  case (Some tx)
  let ?new = "published pf db (tx_catalog tx) (tx_schema_changed tx)"
  obtain lr db1 where log: "log_transaction pf os db (tx_base_version tx) (cat_version ?new) (tx_statements tx) = (lr, db1)"
    by (cases "log_transaction pf os db (tx_base_version tx) (cat_version ?new) (tx_statements tx)")
  with assms Some show ?thesis
    by (cases lr) (auto simp: session_commit_def session_state_of_def Let_def split: if_splits)
qed

section \<open>Versions\<close>

text \<open>The version of the catalog never goes back, whatever sessions do.\<close>

lemma call_version:
  "call_ok pf db ss db' ss' \<Longrightarrow> current_version db \<le> u64_max \<Longrightarrow>
   current_version db \<le> current_version db' \<and> current_version db' \<le> u64_max"
  by (auto simp: call_ok_def quiet_def commits_def current_version_def sat_add_def)

lemma step_version:
  assumes "sys_step pf s s'" "cache_ok (pf_front pf) (db_cache (sys_db s))" "current_version (sys_db s) \<le> u64_max"
  shows "current_version (sys_db s) \<le> current_version (sys_db s') \<and> current_version (sys_db s') \<le> u64_max"
  using assms(1)
proof cases
  case (statement os i sql r db' ss')
  from call_version [OF session_execute_ok [OF statement(3) assms(2) statement(2)] assms(3)] statement(1)
  show ?thesis by (simp add: sys_update_def)
next
  case (prepared os i p vs r db' ss')
  from call_version [OF execute_prepared_ok [OF prepared(3) assms(2)] assms(3)] prepared(1)
  show ?thesis by (simp add: sys_update_def)
next
  case (prepare sql p db')
  then show ?thesis using prepare_ok [OF prepare(2) assms(2)] assms(3) by (simp add: current_version_def)
next
  case (direct os sql r db')
  then show ?thesis using direct_ok [OF direct(3) assms(2)] assms(3) by (auto simp: current_version_def sat_add_def)
next
  case (checkpoint os r db')
  then show ?thesis using save_catalog [OF checkpoint(2)] assms(3) by (simp add: current_version_def)
qed

lemma reachable_version:
  assumes "sys_reachable pf db0 s" "cache_ok (pf_front pf) (db_cache db0)" "current_version db0 \<le> u64_max"
  shows "current_version db0 \<le> current_version (sys_db s) \<and> current_version (sys_db s) \<le> u64_max"
  using assms(1)
proof induction
  case start
  with assms(3) show ?case by (simp add: system_new_def)
next
  case (step s s')
  have "cache_ok (pf_front pf) (db_cache (sys_db s))"
    using sys_reachable_ok [OF step.hyps(1) assms(2)] by (simp add: sys_ok_def)
  from step_version [OF step.hyps(2) this] step.IH show ?case by simp
qed

section \<open>Prepared statements, rows and results\<close>

definition prepared_sql :: "prepared_statement \<Rightarrow> string" where
  "prepared_sql p = ps_sql p"

definition prepared_parameter_count :: "prepared_statement \<Rightarrow> nat" where
  "prepared_parameter_count p = ps_parameter_count p"

text \<open>The count is the one that executing the statement asks for.\<close>

lemma prepared_count:
  "session_prepare pf db sql = (Inr p, db') \<Longrightarrow> prepared_parameter_count p = parameter_count (ps_statement p)"
  by (auto simp: session_prepare_def prepared_parameter_count_def split: prod.splits sum.splits if_splits)

definition row_new :: "val list \<Rightarrow> row" where
  "row_new values = values"

definition row_get :: "row \<Rightarrow> nat \<Rightarrow> val option" where
  "row_get r i = get r i"

definition result_set_new :: "string list \<Rightarrow> result_set" where
  "result_set_new columns = \<lparr>rs_columns = columns, rs_rows = []\<rparr>"

definition add_row :: "result_set \<Rightarrow> row \<Rightarrow> result_set" where
  "add_row rs r = rs\<lparr>rs_rows := rs_rows rs @ [r]\<rparr>"

definition row_count :: "result_set \<Rightarrow> nat" where
  "row_count rs = length (rs_rows rs)"

lemma rows_added: "row_count (foldl add_row (result_set_new columns) rows) = length rows \<and>
    rs_rows (foldl add_row (result_set_new columns) rows) = rows"
proof -
  have "rs_rows (foldl add_row rs rows) = rs_rows rs @ rows" for rs
    by (induction rows arbitrary: rs) (simp_all add: add_row_def)
  then show ?thesis by (simp add: row_count_def result_set_new_def)
qed

end
