(* ===== verification/Spec2Isabelle.thy ===== *)
theory Spec2Isabelle
  imports SystemSamples Cli Aggregates Embedded
begin

text \<open>
  RustyDB is a database in Rust with two engines behind one process: a SQL engine with
  optimistic serialisable transactions and a key-value store, each with a write-ahead log and
  snapshots, reached through a library interface, a command line, an HTTP server and a server
  for the MySQL wire protocol. This development models all of them, operation by operation,
  and proves what makes each component correct. Paths below are relative to
  \<^verbatim>\<open>src/src\<close>.

  \<^bold>\<open>The SQL engine.\<close> A statement arrives as text. \<open>SqlText\<close> models \<open>parse_sql\<close> and the statements
  that \<^verbatim>\<open>sql/parser.rs\<close> recognises itself; every other text goes to the package \<open>sqlparser\<close>, an
  argument, whose syntax trees (\<open>SqlAst\<close>: the variants and fields the code names) \<open>Convert\<close>
  turns into the statements of \<open>Statements\<close> as the code does. \<open>SqlForm\<close> shows which queries that
  gives, exactly. \<open>Params\<close> numbers, counts and binds parameters through the one visitor of the
  code. \<open>PlanCache\<close> is the cache of parsed statements of \<^verbatim>\<open>sql/database.rs\<close>, \<open>Planner\<close> the constant
  folder, the logical plans and EXPLAIN of \<^verbatim>\<open>sql/planner.rs\<close>.
  Values, types, comparison and schemas are \<open>SqlTypes\<close> with \<open>F64\<close> for IEEE doubles and \<open>LikeMatch\<close>
  for LIKE (\<^verbatim>\<open>sql/types.rs\<close>); \<open>F64_Exact\<close> relates the doubles to the real numbers.
  \<^verbatim>\<open>sql/executor.rs\<close> is \<open>KeyIndex\<close> (ordered keys, Bloom filters, B-tree indexes), \<open>TableStore\<close>
  (rows with stable ids, maintenance of the indexes, candidate rows of a condition), \<open>ExprEval\<close>
  (expressions, three-valued logic, aggregates; \<open>Aggregates\<close> has where SUM is exact), \<open>QueryExec\<close>
  (scans, joins, grouping, ordering, subqueries) and \<open>Executor\<close> (every statement, with the
  validation of constraints). The state of this layer is the record \<open>catalog\<close>: tables by name,
  with the version counters of the code.
  \<open>WalLog\<close>, \<open>Lock\<close>, \<open>Database\<close> and \<open>Session\<close> model \<^verbatim>\<open>sql/database.rs\<close> and \<^verbatim>\<open>lock.rs\<close>: records, replay,
  opening and saving a data directory, autocommit, connections with transactions, variables and
  prepared statements. The state is the record \<open>database\<close>, with the bytes of its files in
  \<open>disk\<close>. \<open>Content\<close> is the abstraction that forgets row ids and index structures; \<open>Durability\<close> uses
  it to state what the files of a database stand for, and \<open>Reach\<close> to carry invariants of catalogs
  through every run of the sessions. \<open>Embedded\<close> has the small operations of the library interface.

  \<^bold>\<open>The key-value engine.\<close> \<open>Persistence\<close> (\<^verbatim>\<open>persistence.rs\<close>: log, queue, background flush,
  snapshots, recovery) under \<open>KvStore\<close> (\<^verbatim>\<open>kvstore.rs\<close>); \<open>Flusher\<close> runs the background thread beside
  the operations of the store, its turn in the two steps between which they come.

  \<^bold>\<open>Around them.\<close> \<open>Protocol\<close> and \<open>Wire\<close> (\<^verbatim>\<open>wire/protocol.rs\<close>, \<^verbatim>\<open>wire/mod.rs\<close>: packets, handshake, the
  commands of a connection), \<open>Config\<close>, \<open>Display\<close> and \<open>Server\<close> (\<^verbatim>\<open>server.rs\<close>: configuration, printing,
  authentication, every handler and the route table), \<open>Service\<close> (both servers over one state: the
  accept loop, connections that interleave packet by packet with each other and with HTTP
  requests, and the start), \<open>Calendar\<close>, \<open>Recovery\<close> and \<open>Restore\<close>
  (\<^verbatim>\<open>recovery.rs\<close>: timestamps, backup, restore to a time or point, pruning), \<open>Cli\<close> (\<^verbatim>\<open>main.rs\<close>) and
  \<open>VersionCheck\<close> (\<^verbatim>\<open>version_check.rs\<close>). \<open>Samples\<close> and \<open>SystemSamples\<close> hold the concrete inputs on which
  the theorems below are instantiated.

  \<^bold>\<open>Interfaces.\<close> Where a component relies on another, the reliance is a locale, interpreted on the
  model in the theory that provides it: \<open>membership_filter\<close> (Bloom filters) and \<open>id_index\<close>
  (B-tree indexes) in \<open>KeyIndex\<close>, \<open>leaf_visitor\<close> in \<open>Params\<close> with the three visitors of the code,
  \<open>memo\<close> (a cache that only remembers) in \<open>PlanCache\<close>, \<open>version_log\<close> (a log of numbered records
  replayed from any point) in \<open>WalLog\<close>, and \<open>message_codec\<close> (readers that undo writers, composed
  over sequences) in \<open>Protocol\<close>, interpreted again on frames in \<open>Wire\<close>, and \<open>catalog_invariant\<close> (what
  running and publishing keep of a catalog) in \<open>Reach\<close>, interpreted on the shape of the catalog and
  on its constraints. Sessions that interleave are the inductive relation \<open>sys_step\<close> of \<open>Session\<close>,
  runs of the key-value store are \<open>kv_runs\<close> of \<open>KvStore\<close> and \<open>beside_thread\<close> of \<open>Flusher\<close>, runs of the
  servers are sequences of the events of \<open>Service\<close>.

  \<^bold>\<open>What is shown.\<close> C1 to C3: a write leaves the constraints satisfied, a failure has no effect, and
  every catalog of every reachable state is well formed and satisfies its constraints, as long as
  no table exhausts its row ids. C4 to C8: transactions are serialisable in every reachable
  state, commits survive a crash in the middle of a later record, replay resumes behind a
  snapshot, and a statement depends on the content of the catalog only. C9 to C13 and C15 to C21:
  DELETE and UPDATE, index scans, hash joins, folding, recursion, LIKE, DISTINCT, indexes,
  conflicts, Bloom filters and float keys against reference definitions. C22 to C26: the plan
  cache, parameters and the text of statements. C28: SUM. C27 and C33 to C35: the key-value store,
  its queue beside the background thread, backup and restore. C14 and C37 to C40: who may do what
  over the network, and that packets arrive. C29 to C32 and C36 state where the code does not do
  what it means to, as do lemmas of the component theories (among them \<open>flush_during_turn\<close> and
  \<open>older_value_wins\<close> of \<open>Flusher\<close>).

  \<^bold>\<open>Conventions.\<close> An error the code returns is \<open>Inl (Fail msg)\<close>, a panic \<open>Inl (Panic why)\<close>. Strings are
  lists of bytes; letter case and white space are those of ASCII, as in the code wherever it
  calls the ASCII functions, and elsewhere for the ASCII range. \<open>i64\<close> and \<open>f64\<close> are 64-bit words,
  the latter with exact IEEE operations; integer arithmetic wraps as in a release build, and the
  quotient of the least integer by minus one panics. Counters are \<open>nat\<close>, saturating where the code
  saturates and taken modulo where it wraps; \<open>Calendar\<close> writes its wrap-around out. Hash maps are
  association lists in one order; a sorted map is a list that is sorted where the code iterates.
  Sorting is a stable insertion sort, and a partial sort keeps the first of equal rows. A cached
  subquery is one that is run again. Every call of a session is one atomic step, as the locks of
  the code make it; poisoned locks do not occur.
  Code outside the repository is an argument: the logarithm, debug printing, JSON, checksums,
  SHA-1, base64, the package's parser and printers, semantic versions, Unicode case mapping, and
  the outcome of every operation on files, each of which may fail where the code handles it.
  Directories are lists of files by relative path.
  No loop of the model needs fuel except \<open>trim_prefixes\<close> of \<open>Cli\<close>, whose bound is the length of the
  text, from which every pass takes at least one character; all other recursion is structural
  or has its measure.

  \<^bold>\<open>Not modelled.\<close> The asynchronous runtimes and sockets, whose work is the sequence of events of
  \<open>Service\<close>; a panic, which ends one task of a server and may poison its locks, ends a run; the
  matching of paths and JSON bodies by the HTTP framework (the handlers get their parsed input);
  the OpenAPI attributes; the HTTP requests of the version check; prompts of the command line;
  memory pools and buffers, which hold no data a result depends on; tests.
\<close>

section \<open>Statements and constraints\<close>





section \<open>Transactions and durability\<close>

text \<open>
  C4. In every state that any interleaving of sessions can reach, a transaction that commits
  publishes what its statements, run one after another on the catalog of that moment, give.
\<close>

theorem transactions_are_serialisable:
  assumes "sys_reachable pf db0 s" "cache_ok (pf_front pf) (db_cache db0)"
    and "cat_version (db_catalog (sys_db s)) < u64_max"
    and "ss_transaction (sys_sessions s i) = Some tx" "tx_statements tx \<noteq> []"
    and "session_commit pf os (sys_db s) (sys_sessions s i) = (TransactionCommitted, db', ss')"
  shows "\<exists>c. res_fold (exec_durable pf) (db_catalog (sys_db s)) (tx_statements tx) = Inr c \<and>
     db_catalog db' = published pf (sys_db s) c (tx_schema_changed tx)"
  by (rule commit_serialisable [OF assms])

theorem transactions_are_serialisable_witness:
  "\<exists>c. res_fold (exec_durable sample_platform) (db_catalog (sys_db sample_system)) (tx_statements sample_tx) = Inr c \<and>
     db_catalog (fst (snd (session_commit sample_platform sample_io sample_parsed sample_session))) =
       published sample_platform (sys_db sample_system) c (tx_schema_changed sample_tx)"
proof (rule transactions_are_serialisable [OF sample_system_reachable])
  show "session_commit sample_platform sample_io (sys_db sample_system) (sys_sessions sample_system 0) =
      (TransactionCommitted, fst (snd (session_commit sample_platform sample_io sample_parsed sample_session)),
       sample_session\<lparr>ss_transaction := None\<rparr>)"
    using sample_commits [of "db_cache sample_parsed"] by (simp flip: sample_parsed_eq)
qed (simp_all add: sample_cache_ok sample_parsed_catalog sample_session_tx, simp_all add: catalog_default_def sample_tx_def u64_max_def)







text \<open>
  C7. Replaying a log from a snapshot that already holds a first part of it gives what
  replaying all of it gives.
\<close>

theorem replay_resumes_at_snapshot:
  assumes "res_fold (replay_record pf) cat rs = Inr snap"
  shows "res_fold (replay_record pf) snap (rs @ rest) = res_fold (replay_record pf) cat (rs @ rest)"
  by (rule wal.replay_from_snapshot [OF assms])

theorem replay_resumes_at_snapshot_witness:
  "res_fold (replay_record sample_platform) catalog_default ([sample_record] @ [sample_record]) =
     res_fold (replay_record sample_platform) (projr (replay_record sample_platform catalog_default sample_record))
       ([sample_record] @ [sample_record])"
  by (rule replay_resumes_at_snapshot [symmetric]) (simp add: sample_replay)



section \<open>Statements on rows\<close>









section \<open>Evaluation\<close>



text \<open>
  Where folding does combine them, the value changes: TRUE OR NULL is true, and folds to
  null, so a condition that selects every row selects none after it.
\<close>

lemma folding_null_or_true:
  "eval_expr runq (Binary (Literal (VBoolean True)) BOr (Literal VNull)) columns row grp = Inr (VBoolean True) \<and>
   fold_expr (Binary (Literal (VBoolean True)) BOr (Literal VNull)) = Inr (Literal VNull)"
  by (simp add: fold_binary_node_def fold_binary_def)



text \<open>
  C17. DISTINCT keeps the first occurrence of every row: two rows have the same key text
  exactly when they are equal, whatever characters their texts contain.
\<close>

theorem distinct_keeps_first_occurrences:
  "retain_first row_key {} rows = first_occurrences {} rows"
  using retain_first_inj [of row_key "{}" rows] by simp

section \<open>Indexes\<close>

text \<open>
  C18. After a row is inserted or replaced, every index of the table answers every key as an
  index rebuilt from the rows does.
\<close>

theorem maintained_indexes_answer_as_rebuilt:
  assumes "table_ok t" "tb_next_row_id t < u64_max"
    and "insert_row_indexed t row = Inr t' \<or> replace_row_indexed t pos row = Inr t'"
  shows "index_answers t' = index_answers (rebuild_index log_of t')"
  using assms by (intro table_ok_answers_rebuild) (auto intro: insert_row_indexed_ok replace_row_indexed_ok)

theorem maintained_indexes_answer_as_rebuilt_witness:
  "index_answers (projr (insert_row_indexed sample_table [VInteger 3, VNull])) =
     index_answers (rebuild_index sample_ln (projr (insert_row_indexed sample_table [VInteger 3, VNull])))"
  by (rule maintained_indexes_answer_as_rebuilt [OF sample_table_ok, of "[VInteger 3, VNull]" _ 0])
    (simp_all add: u64_max_def insert_row_indexed_def validate_row_def validate_value_def column_eval Let_def)

text \<open>
  C19. The positions an insertion reports as conflicting are exactly those of the rows that
  agree with it on the columns of a unique index, without a null among them.
\<close>

theorem unique_conflicts_are_exact:
  assumes "table_ok t"
  shows "p \<in> unique_conflict_positions t row \<longleftrightarrow> p < length (tb_rows t) \<and> unique_clash t row (tb_rows t ! p)"
  by (rule unique_conflict_positions_iff [OF assms])

theorem unique_conflicts_are_exact_witness:
  "1 \<in> unique_conflict_positions sample_table [VInteger 2, VText ''c''] \<longleftrightarrow>
     1 < length sample_rows \<and> unique_clash sample_table [VInteger 2, VText ''c''] (sample_rows ! 1)"
  using unique_conflicts_are_exact [OF sample_table_ok, of 1 "[VInteger 2, VText ''c'']"] by simp



text \<open>
  C21. The integer keys of floats are ordered as the floats are, not-a-number and the two
  zeros apart.
\<close>

theorem float_keys_keep_the_order:
  assumes "\<not> f64_is_nan a" "\<not> f64_is_nan b" "\<not> (f64_is_zero a \<and> f64_is_zero b)"
  shows "f64_partial_cmp a b = Some (cmp (key_part_of (VFloat a)) (key_part_of (VFloat b)))"
  by (rule float_key_order [OF assms])

theorem float_keys_keep_the_order_witness:
  "f64_partial_cmp (f64_make True 1) (f64_make False 1) =
     Some (cmp (key_part_of (VFloat (f64_make True 1))) (key_part_of (VFloat (f64_make False 1))))"
  by (rule float_keys_keep_the_order) (simp_all add: f64_is_nan_def f64_is_zero_def f64_inf_mag_def)

section \<open>Parsing, prepared statements and the plan cache\<close>

text \<open>
  C22. Parsing through the plan cache gives what parsing and optimising the normalised text
  gives, whatever the cache holds.
\<close>

theorem plan_cache_is_transparent:
  assumes "cache_ok front c"
  shows "fst (parse_cached front c version sql) = compile front (normalize_sql sql) \<and>
     cache_ok front (snd (parse_cached front c version sql))"
  using assms by (simp add: parse_cached_value parse_cached_keeps)

theorem plan_cache_is_transparent_witness:
  "fst (parse_cached sample_front (plan_cache_new 2) 0 ''BEGIN;'') = compile sample_front (normalize_sql ''BEGIN;'') \<and>
     cache_ok sample_front (snd (parse_cached sample_front (plan_cache_new 2) 0 ''BEGIN;''))"
  by (rule plan_cache_is_transparent) simp

text \<open>
  C23. The plan cache never holds more entries than its capacity, and what an insertion
  throws out was not used after anything that stays.
\<close>

theorem plan_cache_is_bounded_lru:
  assumes "cache_bounded c"
  shows "cache_bounded (plan_cache_insert c sql version st) \<and>
     (\<forall>k e k' e'. map_of (pc_entries c) k = Some e \<longrightarrow> map_of (pc_entries (plan_cache_insert c sql version st)) k = None \<longrightarrow>
        map_of (pc_entries c) k' = Some e' \<longrightarrow> pe_last_used e \<le> pe_last_used e')"
  using assms plan_cache_insert_bounded eviction_is_lru [of c] by (auto simp: cache_bounded_def)

theorem plan_cache_is_bounded_lru_witness:
  "cache_bounded (plan_cache_insert (plan_cache_insert (plan_cache_new 1) ''a'' 0 Begin) ''b'' 0 Commit)"
  using plan_cache_is_bounded_lru [of "plan_cache_insert (plan_cache_new 1) ''a'' 0 Begin" "''b''" 0 Commit]
    plan_cache_is_bounded_lru [of "plan_cache_new 1" "''a''" 0 Begin]
  by (simp add: cache_bounded_def plan_cache_new_def)



text \<open>
  C25. Text written as a quoted SQL string reads back, whatever quotes are in it.
\<close>

theorem quoted_string_round_trip: "parse_quoted_string (quote_string s) = Inr s"
  by (rule parse_quoted_roundtrip)

text \<open>
  C26. The queries that the conversion of syntax trees gives are exactly those with names in
  lower case, parameters without a number yet, a star under COUNT only, comparisons other
  than LIKE, no ON for a cross join, joins only behind a table, a limit that is an i64, and
  floating-point literals that a decimal reads as.
\<close>

theorem converted_queries_have_the_form:
  "(\<exists>s. convert_query d s = Inr q) \<longleftrightarrow> query_form readable_float q"
  by (rule convert_query_range)

section \<open>Errors and lost commits\<close>

text \<open>
  C28. SUM over integers and nulls is the sum of the integers, as long as their absolute
  values together stay below \<open>2 ^ 53\<close>: the code adds them as doubles.
\<close>

theorem sum_of_integers_is_exact:
  assumes "filter (\<lambda>v. \<not> is_null v) vs = map VInteger is" "is \<noteq> []"
    and "sum_list (map (\<lambda>i. \<bar>sint i\<bar>) is) < 2 ^ 53"
  shows "aggregate_values AggSum False vs = Inr (VInteger (of_int (sum_list (map sint is))))"
  by (rule sum_of_integers_exact [OF assms])

theorem sum_of_integers_is_exact_witness:
  "aggregate_values AggSum False [VInteger 1, VNull, VInteger 40] = Inr (VInteger (of_int (sum_list (map sint [1 :: i64, 40]))))"
  by (rule sum_of_integers_is_exact) simp_all

text \<open>
  C29. A DELETE without a condition removes every row of its table, whatever its ORDER BY and
  LIMIT say: the conversion drops them.
\<close>

theorem delete_limit_is_ignored:
  assumes "parse_rustydb_extension (normalize_sql sql) = Inr None" "parser (normalize_sql sql) = Inr [SsDelete del]"
    and "sde_from del = [SqlTableWithJoins (StTable [n] a False) []]" "sde_selection del = None"
    and "parse_sql (sql_front d parser) sql = Inr st" "execute_catalog log_of debug cat st = Inr (r, cat')"
  shows "\<exists>t. map_of (cat_tables cat') (to_ascii_lowercase n) = Some t \<and> tb_rows t = []"
  by (rule delete_limit_dropped [OF assms])

theorem delete_limit_is_ignored_witness:
  "\<exists>t. map_of (cat_tables sample_emptied) (to_ascii_lowercase ''t'') = Some t \<and> tb_rows t = []"
  by (rule delete_limit_is_ignored [OF sample_delete_text(1) _ sample_limited_delete_parts sample_delete_parsed sample_delete_all])
    (simp add: sample_parser_def)

text \<open>
  C30. The log is opened for appending behind an unfinished record. What is committed after
  that lands on the unfinished line or behind it, and replay stops there: it is lost.
\<close>

theorem commits_behind_an_unfinished_record_are_lost:
  assumes "\<forall>r \<in> set rs. readable pf r" "newline \<notin> set torn" "json_line (pf_record_json pf r)"
    and "unreadable pf (torn @ pf_record_json pf r)"
  shows "replay_wal pf ((log_bytes pf rs @ torn) @ log_bytes pf [r] @ rest) cat = res_fold (replay_record pf) cat rs"
  by (rule replay_after_torn [OF assms])

theorem commits_behind_an_unfinished_record_are_lost_witness:
  "replay_wal sample_platform ((log_bytes sample_platform [] @ sample_torn) @ log_bytes sample_platform [sample_record] @ []) catalog_default =
     res_fold (replay_record sample_platform) catalog_default []"
  by (rule commits_behind_an_unfinished_record_are_lost)
    (use sample_torn_unreadable sample_behind_torn sample_readable in \<open>simp_all add: readable_def\<close>)

text \<open>
  C31. A commit whose record was written but not synced fails. The next commit takes the same
  version, is acknowledged, and is lost: the files stand for what the failed one made.
\<close>

theorem commit_after_failed_sync_is_lost:
  assumes "recoverable pf db" "good_commit pf ok db ds1" "good_commit pf ok db ds2"
    and "res_fold (exec_durable pf) (db_catalog db) ds1 = Inr w1"
    and "log_transaction pf (ok\<lparr>io_log := LogSyncFailed\<rparr>) db v (v + 1) ds1 = (r1, db1)"
    and "log_transaction pf ok db1 v (v + 1) ds2 = (r2, db2)" "v = cat_version (db_catalog db)"
  shows "r1 \<noteq> Inr () \<and> r2 = Inr () \<and> (\<exists>c. recover pf (db_disk db2) = Inr c \<and> same_content w1 c)"
  by (rule unsynced_record_wins [OF assms])

theorem commit_after_failed_sync_is_lost_witness:
  "fst sample_failed \<noteq> Inr () \<and> fst sample_second = Inr () \<and>
     (\<exists>c. recover sample_platform (db_disk (snd sample_second)) = Inr c \<and>
        same_content (put_table catalog_default ''t'' (table_new sample_ln sample_schema)) c)"
  by (rule commit_after_failed_sync_is_lost [OF sample_db_recoverable sample_good_commit sample_good_drop, where v = 0])
    (simp_all add: sample_db_def sample_exec sample_failed_def sample_second_def, simp add: catalog_default_def)

text \<open>
  C32. A snapshot that fails while the log is archived or reopened leaves the log closed, and
  the next commits are acknowledged with nothing of them on disk.
\<close>

theorem commits_after_failed_archiving_are_not_logged:
  assumes "save pf os db = (Inl e, db1)" "io_save os = ArchiveDirFailed \<or> io_save os = ArchiveRenameFailed \<or> io_save os = ReopenFailed"
    and "is_write_statement st" "\<not> is_schema_statement st" "run pf (db_catalog db1) st = Inr (r, w)"
  shows "execute_autocommit_durable pf os' db1 d st = Inr (r, db1\<lparr>db_catalog := published pf db1 w False\<rparr>)"
  by (rule closed_log_commits [OF assms])

theorem commits_after_failed_archiving_are_not_logged_witness:
  "execute_autocommit_durable sample_platform sample_io sample_closed (DurableSql ''DELETE'') (Delete ''t'' (Some sample_selection)) =
     Inr (RowsAffected 1, sample_closed\<lparr>db_catalog := published sample_platform sample_closed sample_deleted False\<rparr>)"
  by (rule commits_after_failed_archiving_are_not_logged [OF sample_save_fails _ _ _ sample_closed_run])
    (simp_all add: sample_reopen_fails_def)

section \<open>The key-value store\<close>



text \<open>
  C34. Operations that were only queued reach the files: from any store whose memory is ahead
  of its files by queued operations, a flush whose writes succeed returns, keeps the map in
  memory and leaves files that open to it.
\<close>

theorem flush_makes_queued_operations_durable:
  assumes "store_ok kp s" "good_flush kp os (set_all_async s ps)"
  shows "\<exists>s'. kv_store_flush kp os (set_all_async s ps) = (Inr (), s') \<and> store_ok kp s' \<and>
     map_of (ks_data s') = foldl apply_operation (map_of (ks_data s)) (map (\<lambda>p. OpSet (fst p) (snd p)) ps)"
proof -
  obtain r s' where flush: "kv_store_flush kp os (set_all_async s ps) = (r, s')"
    by (cases "kv_store_flush kp os (set_all_async s ps)")
  from flush_catches_up [OF set_all_async_queued [OF store_queued [OF assms(1)]] assms(2) flush] flush show ?thesis
    by (simp add: set_all_async_data)
qed

theorem flush_makes_queued_operations_durable_witness:
  "\<exists>s'. kv_store_flush sample_kv_platform (\<lambda>_. sample_io) (set_all_async sample_store [(''k'', ''v'')]) = (Inr (), s') \<and>
     store_ok sample_kv_platform s' \<and>
     map_of (ks_data s') = foldl apply_operation (map_of (ks_data sample_store)) (map (\<lambda>p. OpSet (fst p) (snd p)) [(''k'', ''v'')])"
  by (rule flush_makes_queued_operations_durable [OF sample_store_ok])
    (use sample_good_log in \<open>simp add: good_flush_def kv_set_async_def log_operation_async_def sample_store_def sample_manager_def\<close>)



section \<open>Backups\<close>



text \<open>
  C36. When the SQL log of the data directory ends in an unfinished record, restoring its
  backup reports the version of the last commit, but the restored log begins with the
  unfinished record: opening it gives the base snapshot, without any later commit.
\<close>

theorem restored_commits_behind_an_unfinished_record_are_lost:
  assumes "healthy ri" "unlocked held source" "unlocked held destination" "closed_dir pf kp src rs torn krs k0"
    and "recover pf (sql_disk src) = Inr c"
    and "\<And>m. make_manifest pf kp ri backup (base_dir src) = Inr m \<Longrightarrow> rp_read_manifest rp (rp_manifest_json rp m) = Inr m"
    and "newline \<notin> set torn" "unreadable pf torn" "trim torn \<noteq> []" "strip_cr torn = torn"
  shows "\<exists>m bk p d. backup_create rp pf kp ri held source src backup [] = (Inr m, bk) \<and>
     backup_restore rp pf kp ri held backup bk None destination [] Latest = (Inr p, d) \<and>
     sql_commit_version p = cat_version c \<and> recover pf (sql_disk d) = load_catalog pf (sql_disk src)"
proof -
  obtain m bk c0 where b: "backup_create rp pf kp ri held source src backup [] = (Inr m, bk)"
    "load_catalog pf (sql_disk src) = Inr c0" "res_fold (replay_record pf) c0 rs = Inr c"
    "backup_restore rp pf kp ri held backup bk None destination [] Latest =
       (Inr \<lparr>sql_commit_version = cat_version c, kv_sequence = k0 + length krs\<rparr>,
        restored_dir src
          ((if trim torn = [] then [] else torn @ [newline]) @ log_bytes pf (filter (\<lambda>r. cat_version c0 < wr_commit_version r) rs))
          (kv_log_bytes kp krs))"
    using backup_and_restore [OF assms(1-6)] .
  with torn_log_opens_to_base [OF assms(4) b(2) assms(7-10)] assms(9) show ?thesis by auto
qed

theorem restored_commits_behind_an_unfinished_record_are_lost_witness:
  "\<exists>m bk p d. backup_create (sample_manifest_platform sample_torn) sample_platform sample_kv_platform sample_recovery_io {} ''data''
       (sample_dir sample_torn) ''backup'' [] = (Inr m, bk) \<and>
     backup_restore (sample_manifest_platform sample_torn) sample_platform sample_kv_platform sample_recovery_io {} ''backup'' bk None ''restored'' [] Latest = (Inr p, d) \<and>
     sql_commit_version p = cat_version sample_replayed \<and>
     recover sample_platform (sql_disk d) = load_catalog sample_platform (sql_disk (sample_dir sample_torn))"
proof (rule restored_commits_behind_an_unfinished_record_are_lost [OF sample_healthy sample_unlocked sample_unlocked
      sample_closed_dir [OF disjI2 [OF sample_torn_unreadable]] sample_recovered [OF disjI2 [OF sample_torn_unreadable]]
      sample_manifest_reads_back])
  show "trim sample_torn \<noteq> []" "strip_cr sample_torn = sample_torn" by code_simp+
qed (use sample_torn_unreadable in simp_all)

section \<open>Servers\<close>

text \<open>
  C37. With a user and a password configured, a client of the wire protocol that does not send
  that user and the response computed from that password and the connection's scramble is
  answered without any effect on the database, whatever commands it sends.
\<close>

theorem unauthenticated_wire_client_changes_nothing:
  assumes "auth_required config" "\<And>s. length (sha1 s) = 20" "sc_password config \<noteq> Some []"
    and "\<And>data h. cl_response link = Some data \<Longrightarrow> parse_client_handshake data = Inr h \<Longrightarrow> Some (ch_username h) = sc_username config \<Longrightarrow>
       ch_auth_response h \<noteq> native_response sha1 (the (sc_password config)) (generate_scramble sha1 conn_id nanos process_id)"
  shows "\<exists>out. handle_connection pf sha1 unicode config conn_id nanos process_id db link = Inr (out, db)"
  by (rule unauthenticated_unchanged [OF assms])

theorem unauthenticated_wire_client_changes_nothing_witness:
  "\<exists>out. handle_connection sample_platform sample_sha1 (\<lambda>_. False) sample_config 1 0 0 sample_db sample_link = Inr (out, sample_db)"
proof (rule unauthenticated_wire_client_changes_nothing [OF sample_auth_required])
  show "length (sample_sha1 s) = 20" for s by (simp add: sample_sha1_def)
  show "sc_password sample_config \<noteq> Some []" by (simp add: sample_config_def)
  fix data h
  assume "cl_response sample_link = Some data" "parse_client_handshake data = Inr h" "Some (ch_username h) = sc_username sample_config"
  then show "ch_auth_response h \<noteq> native_response sample_sha1 (the (sc_password sample_config)) (generate_scramble sample_sha1 1 0 0)"
    using handshake_round_trip [of "''eve''" "[]" "[]" "replicate 20 (CHR ''y'')" 0] sample_eve_plain
    by (auto simp: sample_link_def sample_config_def)
qed

text \<open>
  C38. With a user and a password configured, an HTTP request for anything but the health
  check that does not carry exactly these credentials is answered with 401 and changes nothing.
\<close>

theorem unauthenticated_request_is_refused:
  assumes "auth_required (as_config st)" "c \<noteq> CallHealth" "\<And>h. authorization = Some h \<Longrightarrow> \<not> grants hp (as_config st) h"
  shows "\<exists>r. serve hp kp pf os st authorization c = Inr (r, st) \<and> hr_status r = UNAUTHORIZED"
  by (rule unauthenticated_refused [OF assms])

theorem unauthenticated_request_is_refused_witness:
  "\<exists>r. serve sample_http sample_kv_platform sample_platform \<lparr>rq_one = sample_io, rq_many = (\<lambda>_. sample_io)\<rparr> sample_app
       (Some ''Basic root:no'') (CallKvSet ''k'' ''v'') = Inr (r, sample_app) \<and> hr_status r = UNAUTHORIZED"
  by (rule unauthenticated_request_is_refused)
    (simp_all add: sample_app_def auth_required_def grants_def sample_http_def sample_config_def)

text \<open>
  C14. In a running server with a user and a password configured, whatever HTTP requests and
  wire connections come in whatever order, an event that changes the shared state in any way
  is an HTTP request that carries the credentials, or a command on a wire connection that
  answered its own greeting with them before.
\<close>

theorem every_change_has_credentials:
  assumes "auth_required (as_config app)" "\<And>s. length (sp_sha1 sp s) = 20" "sc_password (as_config app) \<noteq> Some []"
    and "service_run sp (service_start app) es = Inr sv" "service_next sp sv e = Inr sv'" "sv_app sv' \<noteq> sv_app sv"
  shows "(\<exists>h c os. e = HttpRequest (Some h) c os \<and> grants (sp_http sp) (as_config app) h) \<or>
    (\<exists>n data os written. e = Sent n data os written \<and> logged_in sp (service_start app) es n)"
  by (rule changes_need_credentials [OF assms])

theorem every_change_has_credentials_witness:
  "grants (sp_http sample_service_platform) sample_config ''Basic root:pw''"
  using every_change_has_credentials [OF _ _ _ sample_service_run sample_service_change sample_service_changed]
  by (simp add: sample_app_config sample_auth_required sample_service_sha1 sample_password sample_set_event_def)

text \<open>
  C39. The parameters of a prepared statement arrive as the client has them: the packet a
  client builds for values that a statement can take is decoded to these values.
\<close>

theorem statement_parameters_arrive:
  assumes "\<forall>v \<in> set vs. sendable v" "ws_long_data st = []" "ps_parameter_count (ws_prepared st) = length vs"
  shows "decode_stmt_parameters (execute_packet statement vs) st = (Inr vs, st\<lparr>ws_parameter_types := map parameter_type vs\<rparr>)"
  by (rule execute_round_trip [OF assms])

theorem statement_parameters_arrive_witness:
  "decode_stmt_parameters (execute_packet 1 [VInteger (- 7), VNull, VText ''hi'']) sample_wire_statement =
     (Inr [VInteger (- 7), VNull, VText ''hi''],
      sample_wire_statement\<lparr>ws_parameter_types := map parameter_type [VInteger (- 7), VNull, VText ''hi'']\<rparr>)"
  by (rule statement_parameters_arrive) (use sample_hi_utf8 in \<open>simp_all add: sendable_def sample_wire_statement_def\<close>)



end
